(* ===== verification/Prelude.thy ===== *)
theory Prelude
  imports Main "HOL-Library.Word" "HOL-Library.Monad_Syntax"
begin

text \<open>
  Shared vocabulary of the development: the machine-integer types, the hardware
  interface through which every register access of the code goes, bounded and unbounded
  polling loops, and the lemmas on words, lists and options that the components share.

  The code runs on two kinds of core: the CVA6 cores (RV64, \<open>mempol/\<close>, \<open>sad_profile/\<close>) and
  the Ibex APMU core (RV32, the \<open>pmu_firmware/\<close> directories). Both reach the world only by
  volatile loads and stores, by control/status registers and, on the APMU core, by the custom
  counter instructions. The hardware behind these accesses is not part of the repository, so it
  is a parameter: a record \<open>'s hw\<close> of operations on an unspecified hardware state \<open>'s\<close>.
  A load returns a value and a new state, because a device may change when it is read (a PLIC
  claim, a UART receive register) and because the other cores and the memory traffic go on
  between two accesses.
\<close>

unbundle bit_operations_syntax

named_theorems hw_laws \<open>what a hypothesis about the hardware gives for one access\<close>
named_theorems word_arith \<open>reading word arithmetic as integers\<close>

subsection \<open>Machine integers\<close>

type_synonym u8 = "8 word"
type_synonym u16 = "16 word"
type_synonym u32 = "32 word"
type_synonym u64 = "64 word"

text \<open>
  \<open>int32_t\<close> is a 32-bit word read with \<open>sint\<close>. The code relies on two's-complement
  conversion from \<open>uint32_t\<close>, as the compilers it names provide it.
\<close>

type_synonym i32 = "32 word"

abbreviation u32_to_addr :: "u32 \<Rightarrow> u64" where
  "u32_to_addr a \<equiv> ucast a"

subsection \<open>The hardware interface\<close>

record 's hw =
  rd32 :: "u64 \<Rightarrow> 's \<Rightarrow> u32 \<times> 's"
  wr32 :: "u64 \<Rightarrow> u32 \<Rightarrow> 's \<Rightarrow> 's"
  rd64 :: "u64 \<Rightarrow> 's \<Rightarrow> u64 \<times> 's"
  wr64 :: "u64 \<Rightarrow> u64 \<Rightarrow> 's \<Rightarrow> 's"
  wr8 :: "u64 \<Rightarrow> u8 \<Rightarrow> 's \<Rightarrow> 's"
  csr_rd :: "u32 \<Rightarrow> 's \<Rightarrow> u64 \<times> 's"
  csr_wr :: "u32 \<Rightarrow> u64 \<Rightarrow> 's \<Rightarrow> 's"
  cnt_rd :: "u32 \<Rightarrow> 's \<Rightarrow> u32 \<times> 's"
  cnt_wr :: "u32 \<Rightarrow> u32 \<Rightarrow> 's \<Rightarrow> 's"
  fence :: "'s \<Rightarrow> 's"

text \<open>
  \<open>cnt_rd\<close> and \<open>cnt_wr\<close> are the custom instructions \<open>cnt.rd\<close> and \<open>cnt.wr\<close> of the APMU core
  (\<open>.word 0x00078707\<close> and \<open>.word 0x00e79007\<close>): the index of the counter and, for the write, the
  value. \<open>csr_rd\<close> and \<open>csr_wr\<close> are \<open>csrr\<close> and \<open>csrw\<close> by CSR number.
\<close>

definition CSR_MSTATUS :: u32 where "CSR_MSTATUS = 0x300"
definition CSR_MIE :: u32 where "CSR_MIE = 0x304"
definition CSR_MTVEC :: u32 where "CSR_MTVEC = 0x305"
definition CSR_MCOUNTINHIBIT :: u32 where "CSR_MCOUNTINHIBIT = 0x320"
definition CSR_MEPC :: u32 where "CSR_MEPC = 0x341"
definition CSR_MCAUSE :: u32 where "CSR_MCAUSE = 0x342"
definition CSR_MCYCLE :: u32 where "CSR_MCYCLE = 0xB00"
definition CSR_MINSTRET :: u32 where "CSR_MINSTRET = 0xB02"
definition CSR_MHARTID :: u32 where "CSR_MHARTID = 0xF14"

lemmas csr_numbers = CSR_MSTATUS_def CSR_MIE_def CSR_MTVEC_def CSR_MCOUNTINHIBIT_def
  CSR_MEPC_def CSR_MCAUSE_def CSR_MCYCLE_def CSR_MINSTRET_def CSR_MHARTID_def

subsection \<open>Polling\<close>

text \<open>
  \<open>while (!p(read)) ;\<close> as a partial function: \<open>None\<close> is a loop that never leaves. The result is
  the value that ended the loop and the hardware state after that read.
\<close>

partial_function (option) poll_until ::
    "('s \<Rightarrow> 'v \<times> 's) \<Rightarrow> ('v \<Rightarrow> bool) \<Rightarrow> 's \<Rightarrow> ('v \<times> 's) option" where
  "poll_until rd p s = (case rd s of (v, s') \<Rightarrow> if p v then Some (v, s') else poll_until rd p s')"

text \<open>The state after \<open>n\<close> reads whose values were thrown away.\<close>

definition after_reads :: "('s \<Rightarrow> 'v \<times> 's) \<Rightarrow> nat \<Rightarrow> 's \<Rightarrow> 's" where
  "after_reads rd n = (\<lambda>s. snd (rd s)) ^^ n"

lemma after_reads_0 [simp]: "after_reads rd 0 s = s"
  by (simp add: after_reads_def)

lemma after_reads_Suc: "after_reads rd (Suc n) s = after_reads rd n (snd (rd s))"
  by (simp add: after_reads_def funpow_Suc_right del: funpow.simps)

lemma poll_until_hit: "p (fst (rd s)) \<Longrightarrow> poll_until rd p s = Some (rd s)"
  by (cases "rd s") (simp add: poll_until.simps [of rd p s])

lemma poll_until_miss: "\<not> p (fst (rd s)) \<Longrightarrow> poll_until rd p s = poll_until rd p (snd (rd s))"
  by (cases "rd s") (simp add: poll_until.simps [of rd p s])

lemma poll_until_returns:
  assumes "p (fst (rd (after_reads rd n s)))" and "\<And>m. m < n \<Longrightarrow> \<not> p (fst (rd (after_reads rd m s)))"
  shows "poll_until rd p s = Some (rd (after_reads rd n s))"
  using assms
proof (induction n arbitrary: s)
  case 0
  then show ?case by (simp add: poll_until_hit)
next
  case (Suc n)
  have "\<not> p (fst (rd s))" using Suc.prems(2) [of 0] by simp
  then have "poll_until rd p s = poll_until rd p (snd (rd s))" by (rule poll_until_miss)
  also have "\<dots> = Some (rd (after_reads rd n (snd (rd s))))"
  proof (rule Suc.IH)
    show "p (fst (rd (after_reads rd n (snd (rd s)))))"
      using Suc.prems(1) by (simp add: after_reads_Suc)
    show "\<not> p (fst (rd (after_reads rd m (snd (rd s)))))" if "m < n" for m
      using Suc.prems(2) [of "Suc m"] that by (simp add: after_reads_Suc)
  qed
  finally show ?case by (simp add: after_reads_Suc)
qed

lemma poll_until_terminates:
  assumes "p (fst (rd (after_reads rd n s)))"
  shows "\<exists>m \<le> n. poll_until rd p s = Some (rd (after_reads rd m s)) \<and> p (fst (rd (after_reads rd m s)))"
proof -
  let ?P = "\<lambda>m. p (fst (rd (after_reads rd m s)))"
  have hit: "?P (LEAST m. ?P m)" using assms by (rule LeastI)
  moreover have "(LEAST m. ?P m) \<le> n" using assms by (rule Least_le)
  moreover have "poll_until rd p s = Some (rd (after_reads rd (LEAST m. ?P m) s))"
    using hit not_less_Least [of _ ?P] by (intro poll_until_returns) auto
  ultimately show ?thesis by blast
qed

lemma poll_until_value:
  fixes rd :: "'s \<Rightarrow> 'v \<times> 's"
  assumes ret: "poll_until rd p s = Some (v, s')"
  shows "p v"
proof -
  have "p (fst (v, s'))"
  proof (rule poll_until.raw_induct [where P = "\<lambda>rd p s r. p (fst r)", OF _ ret])
    fix f and rd :: "'s \<Rightarrow> 'v \<times> 's" and p s and y :: "'v \<times> 's"
    assume IH: "\<And>rd p s y. f rd p s = Some y \<Longrightarrow> p (fst y)"
      and eq: "(case rd s of (v, s') \<Rightarrow> if p v then Some (v, s') else f rd p s') = Some y"
    obtain v s' where rs: "rd s = (v, s')" by (cases "rd s")
    show "p (fst y)"
    proof (cases "p v")
      case True
      with eq rs show ?thesis by auto
    next
      case False
      with eq rs have "f rd p s' = Some y" by simp
      then show ?thesis by (rule IH)
    qed
  qed
  then show ?thesis by simp
qed

text \<open>A polling loop keeps what every read keeps.\<close>

lemma after_reads_invariant:
  "(\<And>s. I s \<Longrightarrow> I (snd (rd s))) \<Longrightarrow> I s \<Longrightarrow> I (after_reads rd n s)"
  by (induction n arbitrary: s) (simp_all add: after_reads_Suc)

lemma poll_until_invariant:
  fixes rd :: "'s \<Rightarrow> 'v \<times> 's"
  assumes ret: "poll_until rd p s = Some (v, s')" and keep: "\<And>s. I s \<Longrightarrow> I (snd (rd s))" and "I s"
  shows "I s'"
proof -
  have "\<forall>y. y = (v, s') \<longrightarrow> I s \<longrightarrow> (\<forall>s. I s \<longrightarrow> I (snd (rd s))) \<longrightarrow> I (snd y)"
  proof (rule poll_until.raw_induct [OF _ ret, where P = "\<lambda>rd p s r. \<forall>y. y = r \<longrightarrow> I s \<longrightarrow>
      (\<forall>s. I s \<longrightarrow> I (snd (rd s))) \<longrightarrow> I (snd y)"])
    fix f and rd :: "'s \<Rightarrow> 'v \<times> 's" and p s and r :: "'v \<times> 's"
    assume IH: "\<And>rd p s r. f rd p s = Some r \<Longrightarrow>
        \<forall>y. y = r \<longrightarrow> I s \<longrightarrow> (\<forall>s. I s \<longrightarrow> I (snd (rd s))) \<longrightarrow> I (snd y)"
      and eq: "(case rd s of (v, s') \<Rightarrow> if p v then Some (v, s') else f rd p s') = Some r"
    show "\<forall>y. y = r \<longrightarrow> I s \<longrightarrow> (\<forall>s. I s \<longrightarrow> I (snd (rd s))) \<longrightarrow> I (snd y)"
    proof (cases "p (fst (rd s))")
      case True
      then show ?thesis using eq by (auto simp: split_beta)
    next
      case False
      then have "f rd p (snd (rd s)) = Some r" using eq by (simp add: split_beta)
      from IH [OF this] show ?thesis by auto
    qed
  qed
  then show ?thesis using keep \<open>I s\<close> by simp
qed

text \<open>The same loop with a budget of reads, as in \<open>while (cond && timeout > 0) timeout--;\<close>.\<close>

fun poll_timeout :: "('s \<Rightarrow> 'v \<times> 's) \<Rightarrow> ('v \<Rightarrow> bool) \<Rightarrow> nat \<Rightarrow> 's \<Rightarrow> nat \<times> 's" where
  "poll_timeout rd p t s =
     (case rd s of (v, s') \<Rightarrow>
        if p v then (t, s') else case t of 0 \<Rightarrow> (0, s') | Suc t' \<Rightarrow> poll_timeout rd p t' s')"

declare poll_timeout.simps [simp del]

lemma poll_timeout_hit: "p (fst (rd s)) \<Longrightarrow> poll_timeout rd p t s = (t, snd (rd s))"
  by (cases "rd s") (simp add: poll_timeout.simps [of rd p t s])

lemma poll_timeout_miss:
  "\<not> p (fst (rd s)) \<Longrightarrow> poll_timeout rd p t s =
     (case t of 0 \<Rightarrow> (0, snd (rd s)) | Suc t' \<Rightarrow> poll_timeout rd p t' (snd (rd s)))"
  by (cases "rd s") (simp add: poll_timeout.simps [of rd p t s] split: nat.splits)

lemma poll_timeout_positive:
  "0 < fst (poll_timeout rd p t s) \<Longrightarrow> \<exists>n < t. p (fst (rd (after_reads rd n s)))"
proof (induction t arbitrary: s)
  case 0
  then show ?case by (cases "p (fst (rd s))") (simp_all add: poll_timeout_hit poll_timeout_miss)
next
  case (Suc t)
  show ?case
  proof (cases "p (fst (rd s))")
    case True
    then show ?thesis by (intro exI [of _ 0]) simp
  next
    case False
    with Suc.prems have "0 < fst (poll_timeout rd p t (snd (rd s)))"
      by (simp add: poll_timeout_miss)
    then obtain n where "n < t" "p (fst (rd (after_reads rd n (snd (rd s)))))"
      using Suc.IH by blast
    then show ?thesis by (intro exI [of _ "Suc n"]) (simp add: after_reads_Suc)
  qed
qed

subsection \<open>Loops over hardware states\<close>

text \<open>\<open>for (i = 0; i < n; i++) body(i);\<close> without an early exit.\<close>

definition for_upto :: "nat \<Rightarrow> (nat \<Rightarrow> 's \<Rightarrow> 's) \<Rightarrow> 's \<Rightarrow> 's" where
  "for_upto n body s = fold body [0..<n] s"

lemma for_upto_0 [simp]: "for_upto 0 body s = s"
  by (simp add: for_upto_def)

lemma for_upto_Suc: "for_upto (Suc n) body s = body n (for_upto n body s)"
  by (simp add: for_upto_def)

lemma for_upto_invariant:
  assumes "I s" and "\<And>i t. i < n \<Longrightarrow> I t \<Longrightarrow> I (body i t)"
  shows "I (for_upto n body s)"
  using assms(2) by (induction n) (auto simp: assms(1) for_upto_Suc)

lemma for_upto_shift: "for_upto (Suc n) f s = for_upto n (\<lambda>i. f (Suc i)) (f 0 s)"
  by (induction n arbitrary: s) (simp_all add: for_upto_Suc)

lemma for_upto_code: "for_upto n body s = fold body [0..<n] s"
  by (rule for_upto_def)

lemma for_upto_cong: "(\<And>i. i < n \<Longrightarrow> f i = g i) \<Longrightarrow> for_upto n f s = for_upto n g s"
  by (induction n) (simp_all add: for_upto_Suc)

subsection \<open>Registers that hold what is written to them\<close>

text \<open>
  \<open>word_store hw A\<close>: at the addresses \<open>A\<close> a load returns the word the last store to that address left,
  and a load changes nothing. Memory and configuration registers promise this; the code that writes
  a value in one place and reads it in another relies on it.
\<close>

locale word_store =
  fixes hw :: "'s hw" and A :: "u64 set" and look :: "'s \<Rightarrow> u64 \<Rightarrow> u32"
  assumes load: "a \<in> A \<Longrightarrow> rd32 hw a s = (look s a, s)"
    and store: "a \<in> A \<Longrightarrow> b \<in> A \<Longrightarrow> look (wr32 hw a v s) b = (if b = a then v else look s b)"
begin

lemma load_store: "a \<in> A \<Longrightarrow> rd32 hw a (wr32 hw a v s) = (v, wr32 hw a v s)"
  by (simp add: load store)

lemma load_store_other:
  "a \<in> A \<Longrightarrow> b \<in> A \<Longrightarrow> b \<noteq> a \<Longrightarrow> rd32 hw b (wr32 hw a v s) = (look s b, wr32 hw a v s)"
  by (simp add: load store)

text \<open>A block of words written one after the other to distinct addresses.\<close>

lemma look_block:
  assumes "\<And>i. i < n \<Longrightarrow> f i \<in> A" "inj_on f {..<n}" "b \<in> A"
  shows "look (for_upto n (\<lambda>i. wr32 hw (f i) (g i)) s) b =
    (if b \<in> f ` {..<n} then g (the_inv_into {..<n} f b) else look s b)"
  using assms(1,2)
proof (induction n)
  case 0
  then show ?case by simp
next
  case (Suc n)
  have inj: "inj_on f {..<n}" using Suc.prems(2) by (rule inj_on_subset) auto
  have other: "the_inv_into {..<Suc n} f (f i) = i" if "i < Suc n" for i
    using Suc.prems(2) that by (intro the_inv_into_f_f) auto
  have inner: "the_inv_into {..<n} f (f i) = i" if "i < n" for i
    using inj that by (intro the_inv_into_f_f) auto
  have IH: "look (for_upto n (\<lambda>i. wr32 hw (f i) (g i)) s) b =
      (if b \<in> f ` {..<n} then g (the_inv_into {..<n} f b) else look s b)"
    using Suc.prems(1) inj by (intro Suc.IH) auto
  show ?case
  proof (cases "b = f n")
    case True
    then show ?thesis using Suc.prems(1) assms(3) other [of n] by (simp add: for_upto_Suc store)
  next
    case False
    then show ?thesis
      using Suc.prems(1) assms(3) IH other inner by (auto simp: for_upto_Suc store less_Suc_eq)
  qed
qed

lemma look_block_at:
  assumes "\<And>i. i < n \<Longrightarrow> f i \<in> A" "inj_on f {..<n}" "i < n"
  shows "look (for_upto n (\<lambda>i. wr32 hw (f i) (g i)) s) (f i) = g i"
proof -
  have "the_inv_into {..<n} f (f i) = i" using assms(2,3) by (intro the_inv_into_f_f) auto
  then show ?thesis using assms look_block [of n f "f i" g s] by simp
qed

end

text \<open>
  \<open>data_memory hw A look\<close>: the same promise when the rest of the machine goes on at every access. The
  state may change under a load, but the words at the addresses \<open>A\<close> only change by stores to them.
\<close>

locale data_memory =
  fixes hw :: "'s hw" and A :: "u64 set" and look :: "'s \<Rightarrow> u64 \<Rightarrow> u32"
  assumes load_value: "a \<in> A \<Longrightarrow> fst (rd32 hw a s) = look s a"
    and store_value: "b \<in> A \<Longrightarrow> look (wr32 hw a v s) b = (if b = a then v else look s b)"
    and load_keeps: "b \<in> A \<Longrightarrow> look (snd (rd32 hw x s)) b = look s b"
    and cnt_keeps: "b \<in> A \<Longrightarrow> look (cnt_wr hw i v s) b = look s b"
    and csr_keeps: "b \<in> A \<Longrightarrow> look (snd (csr_rd hw r s)) b = look s b"

subsection \<open>Words\<close>

lemma word_mask_31: "(x :: u32) AND 0x7FFFFFFF = take_bit 31 x"
proof -
  have "(0x7FFFFFFF :: u32) = mask 31" by (simp add: mask_eq_exp_minus_1)
  then show ?thesis by (simp add: take_bit_eq_mask)
qed

lemma unat_mask_31: "unat ((x :: u32) AND 0x7FFFFFFF) < 2 ^ 31"
proof -
  have "take_bit 31 (unat x) < 2 ^ 31" by (rule take_bit_nat_less_exp)
  then show ?thesis by (simp add: word_mask_31 unsigned_take_bit_eq)
qed

lemma sint_word_of_int_small [word_arith]:
  "- (2 ^ 31) \<le> n \<Longrightarrow> n < 2 ^ 31 \<Longrightarrow> sint (word_of_int n :: i32) = n"
  by (simp add: signed_of_int signed_take_bit_int_eq_self)

lemma sint_range_32: "- (2 ^ 31) \<le> sint (x :: i32)" "sint (x :: i32) < 2 ^ 31"
  using sint_range_size [of x] by (simp_all add: word_size)

lemma uint_u32_to_addr: "uint (u32_to_addr a) = uint a"
  by (simp add: uint_up_ucast is_up)

lemma inj_ucast_u64: "inj u32_to_addr"
proof (rule injI)
  fix a b :: u32
  assume "u32_to_addr a = u32_to_addr b"
  then have "uint (u32_to_addr a) = uint (u32_to_addr b)" by simp
  then show "a = b" by (simp only: uint_u32_to_addr word_uint_eq_iff)
qed

lemma u32_to_addr_inject: "u32_to_addr a = u32_to_addr b \<longleftrightarrow> a = b"
  by (rule inj_eq) (simp add: inj_ucast_u64)

end
