(* ===== verification/Memory_Map.thy ===== *)
theory Memory_Map
  imports Prelude
begin

text \<open>
  The memory map of the APMU as both sides of the code know it: \<open>mempol/pmu_defines.h\<close> on the
  CVA6 side and \<open>pmu_firmware/include/pmu_hw_desc.h\<close> on the APMU side give the same base
  addresses. Thirty-two counter bundles of one 4 kB page each, four 32-bit registers at the start of
  a page; then one page of instruction memory (ISPM) and 128 kB of data memory (DSPM). The event
  selection codes are those of \<open>mempol/pmu_defines.h\<close>.
\<close>

definition NUM_COUNTER :: u32 where "NUM_COUNTER = 32"
definition TIMER_WIDTH :: u32 where "TIMER_WIDTH = 0x8"
definition COUNTER_WIDTH :: u32 where "COUNTER_WIDTH = 0x4"
definition PMU_B_BASE_ADDR :: u32 where "PMU_B_BASE_ADDR = 0x10405000"
definition TIMER_ADDR :: u32 where "TIMER_ADDR = PMU_B_BASE_ADDR"
definition PERIOD_ADDR :: u32 where "PERIOD_ADDR = PMU_B_BASE_ADDR + TIMER_WIDTH"
definition PMC_STATUS_ADDR :: u32 where "PMC_STATUS_ADDR = PMU_B_BASE_ADDR + 0x1000"
definition PMC_BOOT_ADDR :: u32 where "PMC_BOOT_ADDR = PMU_B_BASE_ADDR + 0x1004"
definition PMU_BUNDLE_SIZE :: u32 where "PMU_BUNDLE_SIZE = 0x2000"
definition COUNTER_B_BASE_ADDR :: u32 where
  "COUNTER_B_BASE_ADDR = PMU_B_BASE_ADDR + PMU_BUNDLE_SIZE"
definition COUNTER_BASE_ADDR :: u32 where
  "COUNTER_BASE_ADDR = COUNTER_B_BASE_ADDR + 0 * COUNTER_WIDTH"
definition EVENT_SEL_BASE_ADDR :: u32 where
  "EVENT_SEL_BASE_ADDR = COUNTER_B_BASE_ADDR + 1 * COUNTER_WIDTH"
definition EVENT_INFO_BASE_ADDR :: u32 where
  "EVENT_INFO_BASE_ADDR = COUNTER_B_BASE_ADDR + 2 * COUNTER_WIDTH"
definition INIT_BUDGET_BASE_ADDR :: u32 where
  "INIT_BUDGET_BASE_ADDR = COUNTER_B_BASE_ADDR + 3 * COUNTER_WIDTH"
definition COUNTER_BUNDLE_SIZE :: u32 where "COUNTER_BUNDLE_SIZE = 0x1000"
definition ISPM_BASE_ADDR :: u32 where "ISPM_BASE_ADDR = 0x10427000"
definition DSPM_BASE_ADDR :: u32 where "DSPM_BASE_ADDR = 0x10428000"
definition DSPM_LENGTH :: u32 where "DSPM_LENGTH = 0x20000"
definition DSPM_END_ADDR :: u32 where "DSPM_END_ADDR = DSPM_BASE_ADDR + DSPM_LENGTH"
definition OVERFLOW_EN :: u32 where "OVERFLOW_EN = 0x1000000"

lemmas memory_map_defs = NUM_COUNTER_def TIMER_WIDTH_def COUNTER_WIDTH_def PMU_B_BASE_ADDR_def
  TIMER_ADDR_def PERIOD_ADDR_def PMC_STATUS_ADDR_def PMC_BOOT_ADDR_def PMU_BUNDLE_SIZE_def
  COUNTER_B_BASE_ADDR_def COUNTER_BASE_ADDR_def EVENT_SEL_BASE_ADDR_def EVENT_INFO_BASE_ADDR_def
  INIT_BUDGET_BASE_ADDR_def COUNTER_BUNDLE_SIZE_def ISPM_BASE_ADDR_def DSPM_BASE_ADDR_def
  DSPM_LENGTH_def DSPM_END_ADDR_def OVERFLOW_EN_def

subsection \<open>Event selection codes\<close>

definition LLC_RD_REQ_CORE :: "u32 list" where
  "LLC_RD_REQ_CORE = [0x5F001F, 0x6F001F, 0x7F001F, 0x8F001F]"
definition LLC_WR_REQ_CORE :: "u32 list" where
  "LLC_WR_REQ_CORE = [0x5F002F, 0x6F002F, 0x7F002F, 0x8F002F]"
definition MEM_RD_REQ_CORE :: "u32 list" where
  "MEM_RD_REQ_CORE = [0x9F0F1F, 0x9F1F1F, 0x9F2F1F, 0x9F3F1F]"
definition MEM_WR_REQ_CORE :: "u32 list" where
  "MEM_WR_REQ_CORE = [0x9F0F2F, 0x9F2F2F, 0x9F2F2F, 0x9F3F2F]"
definition MEM_RD_RES_CORE :: "u32 list" where
  "MEM_RD_RES_CORE = [0x5F0F3F, 0x5F1F3F, 0x5F2F3F, 0x5F3F3F]"
definition MEM_WR_RES_CORE :: "u32 list" where
  "MEM_WR_RES_CORE = [0x5F0F4F, 0x5F1F4F, 0x5F2F4F, 0x5F3F4F]"

text \<open>
  The code of an event of one core on one port: the header comment of the table calls the three
  fields port, source and event, each an identifier and a mask.
\<close>

definition mem_event :: "u32 \<Rightarrow> u32 \<Rightarrow> u32 \<Rightarrow> u32" where
  "mem_event port core event = push_bit 20 port OR 0xF0000 OR push_bit 12 core OR 0xF00 OR
     push_bit 4 event OR 0xF"

subsection \<open>Register addresses\<close>

text \<open>Register \<open>r\<close> (0 counter, 1 selection, 2 information, 3 budget) of counter bundle \<open>i\<close>.\<close>

definition bundle_reg :: "u32 \<Rightarrow> u32 \<Rightarrow> u32" where
  "bundle_reg r i = COUNTER_B_BASE_ADDR + r * COUNTER_WIDTH + i * COUNTER_BUNDLE_SIZE"

abbreviation counter_addr :: "u32 \<Rightarrow> u32" where
  "counter_addr i \<equiv> COUNTER_BASE_ADDR + i * COUNTER_BUNDLE_SIZE"

lemma counter_addr_bundle: "counter_addr i = bundle_reg 0 i"
  by (simp add: bundle_reg_def COUNTER_BASE_ADDR_def)

lemma event_sel_bundle: "EVENT_SEL_BASE_ADDR + i * COUNTER_BUNDLE_SIZE = bundle_reg 1 i"
  by (simp add: bundle_reg_def EVENT_SEL_BASE_ADDR_def)

lemma event_info_bundle: "EVENT_INFO_BASE_ADDR + i * COUNTER_BUNDLE_SIZE = bundle_reg 2 i"
  by (simp add: bundle_reg_def EVENT_INFO_BASE_ADDR_def)

lemma unat_bundle_reg:
  assumes "unat r < 4" "unat i < 32"
  shows "unat (bundle_reg r i) = 0x10407000 + 4 * unat r + 0x1000 * unat i"
proof -
  have "unat (r * 4) = 4 * unat r"
    using assms(1) by (simp add: unat_word_ariths)
  moreover have "unat (i * 0x1000) = 0x1000 * unat i"
    using assms(2) by (simp add: unat_word_ariths)
  ultimately show ?thesis
    using assms by (simp add: bundle_reg_def memory_map_defs unat_word_ariths)
qed

lemma bundle_reg_inject:
  assumes "unat r < 4" "unat i < 32" "unat r' < 4" "unat i' < 32"
  shows "bundle_reg r i = bundle_reg r' i' \<longleftrightarrow> r = r' \<and> i = i'"
proof
  assume eq: "bundle_reg r i = bundle_reg r' i'"
  then have "unat (bundle_reg r i) = unat (bundle_reg r' i')" by simp
  with assms have eq4: "4 * unat r + 0x1000 * unat i = 4 * unat r' + 0x1000 * unat i'"
    by (simp add: unat_bundle_reg)
  with assms have "\<not> unat i < unat i'" "\<not> unat i' < unat i" by linarith+
  then have "unat i = unat i'" by linarith
  moreover from this eq4 have "unat r = unat r'" by linarith
  ultimately have "unat i = unat i'" "unat r = unat r'" by simp_all
  then show "r = r' \<and> i = i'" by (simp add: word_unat_eq_iff)
qed simp

lemma counter_addr_inject:
  "unat i < 32 \<Longrightarrow> unat j < 32 \<Longrightarrow> counter_addr i = counter_addr j \<longleftrightarrow> i = j"
  by (simp add: counter_addr_bundle bundle_reg_inject)

lemma bundle_below_ispm:
  assumes "unat r < 4" "unat i < 32"
  shows "unat (bundle_reg r i) + 4 \<le> unat ISPM_BASE_ADDR"
  using assms by (simp add: unat_bundle_reg ISPM_BASE_ADDR_def)


text \<open>The addresses of the data memory, as 64-bit addresses.\<close>

definition dspm :: "u64 set" where
  "dspm = {u32_to_addr a | a. DSPM_BASE_ADDR \<le> a \<and> a < DSPM_END_ADDR}"

lemma dspm_iff: "uint a < 2 ^ 32 \<Longrightarrow> 0x10428000 \<le> uint a \<Longrightarrow> uint a < 0x10448000 \<Longrightarrow> u32_to_addr a \<in> dspm"
  by (auto simp: dspm_def memory_map_defs word_le_def word_less_def)

end
