(* ===== verification/Plic.thy ===== *)
theory Plic
  imports Memory_Map
begin

text \<open>
  The platform-level interrupt controller, \<open>inc/drivers/inc/plic.h\<close>: priorities, enable bits,
  thresholds, claim and completion, each a load or a store at an address computed from the context
  and the source, and \<open>drain_plic\<close>, the claim-and-complete loop that
  \<open>setup_core_interrupt\<close> and the end of \<open>main\<close> run (\<open>pmu_bench.c\<close>).
\<close>

definition ARCHI_PLIC_BASE :: u32 where "ARCHI_PLIC_BASE = 0x0C000000"
definition PLIC_PRIORITY_OFFSET :: u32 where "PLIC_PRIORITY_OFFSET = 0x0"
definition PLIC_ENABLE_OFFSET :: u32 where "PLIC_ENABLE_OFFSET = 0x2000"
definition PLIC_ENABLE_STRIDE :: u32 where "PLIC_ENABLE_STRIDE = 0x80"
definition PLIC_CONTEXT_OFFSET :: u32 where "PLIC_CONTEXT_OFFSET = 0x200000"
definition PLIC_CONTEXT_STRIDE :: u32 where "PLIC_CONTEXT_STRIDE = 0x1000"
definition PLIC_CLAIM_COMPLETE_OFFSET :: u32 where "PLIC_CLAIM_COMPLETE_OFFSET = 0x4"

lemmas plic_consts = ARCHI_PLIC_BASE_def PLIC_PRIORITY_OFFSET_def PLIC_ENABLE_OFFSET_def
  PLIC_ENABLE_STRIDE_def PLIC_CONTEXT_OFFSET_def PLIC_CONTEXT_STRIDE_def
  PLIC_CLAIM_COMPLETE_OFFSET_def

text \<open>\<open>pulp_read32\<close> and \<open>pulp_write32\<close> (\<open>inc/pulp_io.h\<close>) with a 32-bit address.\<close>

definition pulp_read32 :: "'s hw \<Rightarrow> u32 \<Rightarrow> 's \<Rightarrow> u32 \<times> 's" where
  "pulp_read32 hw a s = rd32 hw (u32_to_addr a) s"

definition pulp_write32 :: "'s hw \<Rightarrow> u32 \<Rightarrow> u32 \<Rightarrow> 's \<Rightarrow> 's" where
  "pulp_write32 hw a v s = wr32 hw (u32_to_addr a) v s"

definition plic_get_priority :: "'s hw \<Rightarrow> u32 \<Rightarrow> 's \<Rightarrow> u32 \<times> 's" where
  "plic_get_priority hw src = pulp_read32 hw (ARCHI_PLIC_BASE + PLIC_PRIORITY_OFFSET + push_bit 2 src)"

definition plic_set_priority :: "'s hw \<Rightarrow> u32 \<Rightarrow> u32 \<Rightarrow> 's \<Rightarrow> 's" where
  "plic_set_priority hw src v =
     pulp_write32 hw (ARCHI_PLIC_BASE + PLIC_PRIORITY_OFFSET + push_bit 2 src) v"

definition plic_get_ie :: "'s hw \<Rightarrow> u32 \<Rightarrow> u32 \<Rightarrow> 's \<Rightarrow> u32 \<times> 's" where
  "plic_get_ie hw context_idx word_idx =
     pulp_read32 hw (ARCHI_PLIC_BASE + PLIC_ENABLE_OFFSET + PLIC_ENABLE_STRIDE * context_idx +
       push_bit 2 word_idx)"

definition plic_write_word_ie :: "'s hw \<Rightarrow> u32 \<Rightarrow> u32 \<Rightarrow> u32 \<Rightarrow> 's \<Rightarrow> 's" where
  "plic_write_word_ie hw context_idx word_idx v =
     pulp_write32 hw (ARCHI_PLIC_BASE + PLIC_ENABLE_OFFSET + PLIC_ENABLE_STRIDE * context_idx +
       push_bit 2 word_idx) v"

text \<open>The enable word of a source and the word with the bit of the source set or cleared.\<close>

definition plic_ie_addr :: "u32 \<Rightarrow> u32 \<Rightarrow> u32" where
  "plic_ie_addr context_idx src =
     ARCHI_PLIC_BASE + PLIC_ENABLE_OFFSET + PLIC_ENABLE_STRIDE * context_idx + 4 * drop_bit 5 src"

definition plic_new_ie :: "u32 \<Rightarrow> u32 \<Rightarrow> u32 \<Rightarrow> u32" where
  "plic_new_ie ie src v =
     (let m = push_bit (unat (src AND 0b11111)) 1 in if v \<noteq> 0 then ie OR m else ie AND NOT m)"

definition plic_set_ie :: "'s hw \<Rightarrow> u32 \<Rightarrow> u32 \<Rightarrow> u32 \<Rightarrow> 's \<Rightarrow> 's" where
  "plic_set_ie hw context_idx src v s =
     (let addr = plic_ie_addr context_idx src;
          (ie, s) = pulp_read32 hw addr s
      in pulp_write32 hw addr (plic_new_ie ie src v) s)"

definition plic_get_thresh :: "'s hw \<Rightarrow> u32 \<Rightarrow> 's \<Rightarrow> u32 \<times> 's" where
  "plic_get_thresh hw context_idx =
     pulp_read32 hw (ARCHI_PLIC_BASE + PLIC_CONTEXT_OFFSET + PLIC_CONTEXT_STRIDE * context_idx)"

definition plic_set_thresh :: "'s hw \<Rightarrow> u32 \<Rightarrow> u32 \<Rightarrow> 's \<Rightarrow> 's" where
  "plic_set_thresh hw context_idx v =
     pulp_write32 hw (ARCHI_PLIC_BASE + PLIC_CONTEXT_OFFSET + PLIC_CONTEXT_STRIDE * context_idx) v"

definition plic_claim_addr :: "u32 \<Rightarrow> u32" where
  "plic_claim_addr context_idx =
     ARCHI_PLIC_BASE + PLIC_CONTEXT_OFFSET + PLIC_CONTEXT_STRIDE * context_idx +
     PLIC_CLAIM_COMPLETE_OFFSET"

definition plic_claim_msg :: "'s hw \<Rightarrow> u32 \<Rightarrow> 's \<Rightarrow> u32 \<times> 's" where
  "plic_claim_msg hw context_idx = pulp_read32 hw (plic_claim_addr context_idx)"

definition plic_complete_msg :: "'s hw \<Rightarrow> u32 \<Rightarrow> u32 \<Rightarrow> 's \<Rightarrow> 's" where
  "plic_complete_msg hw context_idx v = pulp_write32 hw (plic_claim_addr context_idx) v"

partial_function (option) drain_plic :: "'s hw \<Rightarrow> u32 \<Rightarrow> 's \<Rightarrow> 's option" where
  "drain_plic hw context_idx s =
     (case plic_claim_msg hw context_idx s of
        (stale, s) \<Rightarrow>
          if stale \<noteq> 0 then drain_plic hw context_idx (plic_complete_msg hw context_idx stale s)
          else Some s)"

lemmas plic_op_defs = plic_get_priority_def plic_set_priority_def plic_get_ie_def
  plic_write_word_ie_def plic_set_ie_def plic_get_thresh_def plic_set_thresh_def
  plic_claim_msg_def plic_complete_msg_def pulp_read32_def pulp_write32_def

subsection \<open>Enable bits\<close>

lemma and_31_mod: "unat (src AND 0b11111 :: u32) = unat src mod 32"
proof -
  have "(0b11111 :: u32) = mask 5" by (simp add: mask_eq_exp_minus_1)
  then have "src AND 0b11111 = take_bit 5 src" by (simp add: take_bit_eq_mask)
  then show ?thesis by (simp add: unat_mod_distrib take_bit_eq_mod)
qed

lemma bit_plic_new_ie:
  assumes "n < 32"
  shows "bit (plic_new_ie ie src v) n =
           (if n = unat src mod 32 then v \<noteq> 0 else bit ie n)"
  using assms by (auto simp: plic_new_ie_def and_31_mod bit_simps Let_def)

end
