(* ===== verification/Mempol_Firmware.thy ===== *)
theory Mempol_Firmware
  imports Memory_Map
begin

text \<open>
  The mempol firmware of the APMU core, \<open>mempol/pmu_firmware/main.c\<close>: boot and handshake with
  the CVA6 side, then for ever one polling iteration after the other. An iteration samples and
  clears the traffic counters of every core, charges the weighted traffic to the token bucket of the
  core, sends a pause or resume command where the sign of the bucket changed and the core has
  acknowledged the last command, writes one record of the core-0 log and pads the iteration to the
  polling period. Globals and locals of \<open>main\<close> are the fields of the record \<open>mempol_fw\<close>.
\<close>

subsection \<open>Constants\<close>

definition DSPM_STATUS_ADDR :: u32 where "DSPM_STATUS_ADDR = DSPM_BASE_ADDR + 0x00"
definition DSPM_CMD_ADDR :: u32 where "DSPM_CMD_ADDR = DSPM_BASE_ADDR + 0x80"
definition DSPM_LOG_BASE :: u32 where "DSPM_LOG_BASE = DSPM_BASE_ADDR + 0x2000"
definition DSPM_LOG_MAX_ENTRIES :: u32 where "DSPM_LOG_MAX_ENTRIES = 10000"

definition STATUS_STARTED :: u32 where "STATUS_STARTED = 0xBB000001"
definition STATUS_SENDING_IRQS :: u32 where "STATUS_SENDING_IRQS = 0xBB000010"
definition STATUS_ALL_IRQS_SENT :: u32 where "STATUS_ALL_IRQS_SENT = 0xBB000099"
definition CMD_NONE :: u32 where "CMD_NONE = 0"
definition CMD_TRIGGER_INTERRUPT :: u32 where "CMD_TRIGGER_INTERRUPT = 0xFF"

definition NUM_CORES :: nat where "NUM_CORES = 4"
definition NUM_POLICED_CORES :: nat where "NUM_POLICED_CORES = 4"

definition CNT_IRQ_BASE :: u32 where "CNT_IRQ_BASE = 0"
definition CNT_LLC_RD_BASE :: u32 where "CNT_LLC_RD_BASE = 4"
definition CNT_LLC_WR_BASE :: u32 where "CNT_LLC_WR_BASE = 8"
definition CNT_MEM_RD_BASE :: u32 where "CNT_MEM_RD_BASE = 12"
definition CNT_MEM_WR_BASE :: u32 where "CNT_MEM_WR_BASE = 16"
definition CNT_POLL_PERIOD :: u32 where "CNT_POLL_PERIOD = 20"
definition CNT_IRQ_SENT_BASE :: u32 where "CNT_IRQ_SENT_BASE = 21"
definition CNT_TOTAL_CYCLES :: u32 where "CNT_TOTAL_CYCLES = 25"
definition CNT_BREADCRUMB :: u32 where "CNT_BREADCRUMB = 26"
definition CNT_MAX_WORK_CYCLES :: u32 where "CNT_MAX_WORK_CYCLES = 27"
definition CNT_THROTTLED_BASE :: u32 where "CNT_THROTTLED_BASE = 28"

definition CVA_ACK_MASK :: u32 where "CVA_ACK_MASK = 0x00100000"
definition PMU_PR_MASK :: u32 where "PMU_PR_MASK = 0x01000000"
definition CMD_PAUSE :: u32 where "CMD_PAUSE = 0x40000000"
definition CMD_RESUME :: u32 where "CMD_RESUME = 0x41000000"

lemmas dspm_defs = DSPM_STATUS_ADDR_def DSPM_CMD_ADDR_def DSPM_LOG_BASE_def
  DSPM_LOG_MAX_ENTRIES_def
lemmas cnt_index_defs = CNT_IRQ_BASE_def CNT_LLC_RD_BASE_def CNT_LLC_WR_BASE_def
  CNT_MEM_RD_BASE_def CNT_MEM_WR_BASE_def CNT_POLL_PERIOD_def CNT_IRQ_SENT_BASE_def
  CNT_TOTAL_CYCLES_def CNT_BREADCRUMB_def CNT_MAX_WORK_CYCLES_def CNT_THROTTLED_BASE_def
lemmas channel_defs = CVA_ACK_MASK_def PMU_PR_MASK_def CMD_PAUSE_def CMD_RESUME_def

subsection \<open>State\<close>

record mempol_fw =
  poll_period :: u32
  fw_B :: i32
  fw_P :: u32
  fw_w :: u32
  aLLCr :: u32
  aLLCw :: u32
  aMEMr :: u32
  aMEMw :: u32
  token :: "i32 list"
  poll_count :: u32
  irq_sent :: "u32 list"
  cyc_start :: u32
  iter_start :: u32
  max_work_cycles :: u32
  log_llc_rd_0 :: u32
  log_llc_wr_0 :: u32
  log_mem_rd_0 :: u32
  log_mem_wr_0 :: u32
  log_decision_0 :: u32
  log_count :: u32

definition mempol_init :: mempol_fw where
  "mempol_init = \<lparr>poll_period = 2000, fw_B = 86, fw_P = 2000, fw_w = 2,
     aLLCr = 10000, aLLCw = 0, aMEMr = 6120, aMEMw = 4400,
     token = [0, 0, 0, 0], poll_count = 0, irq_sent = [0, 0, 0, 0],
     cyc_start = 0, iter_start = 0, max_work_cycles = 0,
     log_llc_rd_0 = 0, log_llc_wr_0 = 0, log_mem_rd_0 = 0, log_mem_wr_0 = 0,
     log_decision_0 = 0, log_count = 0\<rparr>"

subsection \<open>Memory and counters\<close>

definition READ_MEM :: "'s hw \<Rightarrow> u32 \<Rightarrow> 's \<Rightarrow> u32 \<times> 's" where
  "READ_MEM hw a s = rd32 hw (u32_to_addr a) s"

definition WRITE_MEM :: "'s hw \<Rightarrow> u32 \<Rightarrow> u32 \<Rightarrow> 's \<Rightarrow> 's" where
  "WRITE_MEM hw a v s = wr32 hw (u32_to_addr a) v s"

definition read_mcycle :: "'s hw \<Rightarrow> 's \<Rightarrow> u32 \<times> 's" where
  "read_mcycle hw s = (case csr_rd hw CSR_MCYCLE s of (v, s) \<Rightarrow> (ucast v, s))"

text \<open>One traffic counter of a core, without its overflow bit.\<close>

definition read_perf :: "'s hw \<Rightarrow> u32 \<Rightarrow> u32 \<Rightarrow> 's \<Rightarrow> u32 \<times> 's" where
  "read_perf hw base core s =
     (case READ_MEM hw (COUNTER_BASE_ADDR + (base + core) * COUNTER_BUNDLE_SIZE) s of
        (v, s) \<Rightarrow> (v AND 0x7FFFFFFF, s))"

text \<open>Read the four counters of a core, remember those of core 0 for the log, and clear them.\<close>

definition sample_core :: "'s hw \<Rightarrow> nat \<Rightarrow> mempol_fw \<times> 's \<Rightarrow> (u32 \<times> u32 \<times> u32 \<times> u32) \<times> mempol_fw \<times> 's" where
  "sample_core hw idx = (\<lambda>(fw, s).
     let core = of_nat idx;
         s = cnt_wr hw CNT_BREADCRUMB (10 + core) s;
         (llc_rd, s) = read_perf hw CNT_LLC_RD_BASE core s;
         (llc_wr, s) = read_perf hw CNT_LLC_WR_BASE core s;
         (mem_rd, s) = read_perf hw CNT_MEM_RD_BASE core s;
         (mem_wr, s) = read_perf hw CNT_MEM_WR_BASE core s;
         fw = (if idx = 0
               then fw\<lparr>log_llc_rd_0 := llc_rd, log_llc_wr_0 := llc_wr,
                       log_mem_rd_0 := mem_rd, log_mem_wr_0 := mem_wr\<rparr>
               else fw);
         s = cnt_wr hw CNT_BREADCRUMB (20 + core) s;
         s = cnt_wr hw (CNT_LLC_RD_BASE + core) 0 s;
         s = cnt_wr hw (CNT_LLC_WR_BASE + core) 0 s;
         s = cnt_wr hw (CNT_MEM_RD_BASE + core) 0 s;
         s = cnt_wr hw (CNT_MEM_WR_BASE + core) 0 s;
         s = cnt_wr hw CNT_BREADCRUMB (30 + core) s
     in ((llc_rd, llc_wr, mem_rd, mem_wr), fw, s))"

subsection \<open>Token bucket\<close>

definition compute_V :: "mempol_fw \<Rightarrow> u32 \<times> u32 \<times> u32 \<times> u32 \<Rightarrow> i32" where
  "compute_V fw = (\<lambda>(llc_rd, llc_wr, mem_rd, mem_wr).
     aLLCr fw * llc_rd + aLLCw fw * llc_wr + aMEMr fw * mem_rd + aMEMw fw * mem_wr)"

definition token_cap :: "mempol_fw \<Rightarrow> i32" where
  "token_cap fw = fw_w fw * poll_period fw * fw_B fw"

definition charge :: "mempol_fw \<Rightarrow> i32 \<Rightarrow> i32 \<Rightarrow> i32" where
  "charge fw tok V =
     (let tok = tok + (fw_B fw * fw_P fw - V); cap = token_cap fw
      in if sint tok > sint cap then cap else tok)"

definition update_token :: "nat \<Rightarrow> u32 \<times> u32 \<times> u32 \<times> u32 \<Rightarrow> mempol_fw \<Rightarrow> mempol_fw" where
  "update_token idx sample fw =
     fw\<lparr>token := (token fw)[idx := charge fw (token fw ! idx) (compute_V fw sample)]\<rparr>"

subsection \<open>Pause and resume commands\<close>

definition send_pause :: "'s hw \<Rightarrow> nat \<Rightarrow> mempol_fw \<times> 's \<Rightarrow> mempol_fw \<times> 's" where
  "send_pause hw idx = (\<lambda>(fw, s).
     let core = of_nat idx;
         s = cnt_wr hw CNT_BREADCRUMB (50 + core) s;
         s = cnt_wr hw (CNT_IRQ_BASE + core) CMD_PAUSE s;
         s = cnt_wr hw (CNT_THROTTLED_BASE + core) 1 s;
         fw = fw\<lparr>irq_sent := (irq_sent fw)[idx := irq_sent fw ! idx + 1]\<rparr>;
         s = cnt_wr hw (CNT_IRQ_SENT_BASE + core) (irq_sent fw ! idx) s;
         fw = (if idx = 0 then fw\<lparr>log_decision_0 := 1\<rparr> else fw)
     in (fw, s))"

definition send_resume :: "'s hw \<Rightarrow> nat \<Rightarrow> mempol_fw \<times> 's \<Rightarrow> mempol_fw \<times> 's" where
  "send_resume hw idx = (\<lambda>(fw, s).
     let core = of_nat idx;
         s = cnt_wr hw CNT_BREADCRUMB (60 + core) s;
         s = cnt_wr hw (CNT_IRQ_BASE + core) CMD_RESUME s;
         s = cnt_wr hw (CNT_THROTTLED_BASE + core) 0 s;
         fw = fw\<lparr>irq_sent := (irq_sent fw)[idx := irq_sent fw ! idx + 1]\<rparr>;
         s = cnt_wr hw (CNT_IRQ_SENT_BASE + core) (irq_sent fw ! idx) s;
         fw = (if idx = 0 then fw\<lparr>log_decision_0 := 2\<rparr> else fw)
     in (fw, s))"

text \<open>
  The check of the acknowledgement and the two branches behind it. The flag \<open>throttled\<close> is read
  by the short-circuit conditions of the code: once, after the sign of the bucket is known.
\<close>

definition throttle_core :: "'s hw \<Rightarrow> nat \<Rightarrow> mempol_fw \<times> 's \<Rightarrow> mempol_fw \<times> 's" where
  "throttle_core hw idx = (\<lambda>(fw, s).
     let core = of_nat idx;
         (ch, s) = READ_MEM hw (COUNTER_BASE_ADDR + core * COUNTER_BUNDLE_SIZE) s
     in if ch AND CVA_ACK_MASK = CVA_ACK_MASK then
          let s = cnt_wr hw CNT_BREADCRUMB (40 + core) s;
              (th, s) = cnt_rd hw (CNT_THROTTLED_BASE + core) s
          in if sint (token fw ! idx) < 0 \<and> th = 0 then send_pause hw idx (fw, s)
             else if sint (token fw ! idx) \<ge> 0 \<and> th \<noteq> 0 then send_resume hw idx (fw, s)
             else (fw, s)
        else (fw, s))"

definition police_core :: "'s hw \<Rightarrow> nat \<Rightarrow> mempol_fw \<times> 's \<Rightarrow> mempol_fw \<times> 's" where
  "police_core hw idx fs =
     (case sample_core hw idx fs of (sample, fw, s) \<Rightarrow>
        throttle_core hw idx (update_token idx sample fw, s))"

subsection \<open>One polling iteration\<close>

definition mempol_police :: "'s hw \<Rightarrow> mempol_fw \<times> 's \<Rightarrow> mempol_fw \<times> 's" where
  "mempol_police hw = (\<lambda>(fw, s).
     let fw = fw\<lparr>poll_count := poll_count fw + 1\<rparr>;
         s = cnt_wr hw CNT_POLL_PERIOD (poll_count fw) s;
         s = cnt_wr hw CNT_BREADCRUMB 1 s;
         fw = fw\<lparr>log_decision_0 := 0\<rparr>;
         (fw, s) = fold (police_core hw) [0..<NUM_POLICED_CORES] (fw, s);
         s = cnt_wr hw CNT_BREADCRUMB 70 s
     in (fw, s))"

definition measure_work :: "'s hw \<Rightarrow> mempol_fw \<times> 's \<Rightarrow> mempol_fw \<times> 's" where
  "measure_work hw = (\<lambda>(fw, s).
     let (pre_pad, s) = read_mcycle hw s;
         work_cycles = pre_pad - iter_start fw
     in if work_cycles > max_work_cycles fw then
          (fw\<lparr>max_work_cycles := work_cycles\<rparr>, cnt_wr hw CNT_MAX_WORK_CYCLES work_cycles s)
        else (fw, s))"

text \<open>The two words of a log record: clamped counters, and the decision with 30 bits of token.\<close>

definition clamp_to :: "u32 \<Rightarrow> u32 \<Rightarrow> u32" where
  "clamp_to m v = (if v > m then m else v)"

definition log_word0 :: "mempol_fw \<Rightarrow> u32" where
  "log_word0 fw =
     push_bit 23 (clamp_to 511 (log_llc_rd_0 fw)) OR push_bit 14 (clamp_to 511 (log_llc_wr_0 fw)) OR
     push_bit 7 (clamp_to 127 (log_mem_rd_0 fw)) OR clamp_to 127 (log_mem_wr_0 fw)"

definition log_word1 :: "mempol_fw \<Rightarrow> u32" where
  "log_word1 fw = push_bit 30 (log_decision_0 fw) OR (token fw ! 0 AND 0x3FFFFFFF)"

definition log_entry_addr :: "u32 \<Rightarrow> u32" where
  "log_entry_addr n = DSPM_LOG_BASE + 4 + n * 12"

definition write_log :: "'s hw \<Rightarrow> mempol_fw \<times> 's \<Rightarrow> mempol_fw \<times> 's" where
  "write_log hw = (\<lambda>(fw, s).
     if log_count fw < DSPM_LOG_MAX_ENTRIES then
       let s = WRITE_MEM hw (log_entry_addr (log_count fw)) (log_word0 fw) s;
           s = WRITE_MEM hw (log_entry_addr (log_count fw) + 4) (log_word1 fw) s;
           fw = fw\<lparr>log_count := log_count fw + 1\<rparr>;
           s = WRITE_MEM hw DSPM_LOG_BASE (log_count fw) s
       in (fw, s)
     else (fw, s))"

text \<open>
  Padding: read \<open>mcycle\<close> until the period has passed. The loop of the code tests after each
  read, and \<open>iter_start\<close> becomes the value that ended it.
\<close>

definition pad_iteration :: "'s hw \<Rightarrow> mempol_fw \<times> 's \<Rightarrow> (mempol_fw \<times> 's) option" where
  "pad_iteration hw = (\<lambda>(fw, s). do {
     (now, s) \<leftarrow> poll_until (read_mcycle hw) (\<lambda>now. \<not> (now - iter_start fw < poll_period fw)) s;
     let fw = fw\<lparr>iter_start := now\<rparr>;
     let s = cnt_wr hw CNT_BREADCRUMB 80 s;
     let (cyc_now, s) = read_mcycle hw s;
     let s = cnt_wr hw CNT_TOTAL_CYCLES (cyc_now - cyc_start fw) s;
     let s = cnt_wr hw CNT_BREADCRUMB 90 s;
     Some (fw, s)
   })"

definition mempol_iter :: "'s hw \<Rightarrow> mempol_fw \<times> 's \<Rightarrow> (mempol_fw \<times> 's) option" where
  "mempol_iter hw fs = pad_iteration hw (write_log hw (measure_work hw (mempol_police hw fs)))"

subsection \<open>Boot and main loop\<close>

definition mempol_boot :: "'s hw \<Rightarrow> mempol_fw \<times> 's \<Rightarrow> (mempol_fw \<times> 's) option" where
  "mempol_boot hw = (\<lambda>(fw, s). do {
     let s = WRITE_MEM hw 0x10429000 0xAAAABBBB s;
     let s = csr_wr hw CSR_MCOUNTINHIBIT 0 s;
     let s = WRITE_MEM hw DSPM_CMD_ADDR CMD_NONE s;
     let s = for_upto NUM_CORES (\<lambda>c. cnt_wr hw (CNT_IRQ_BASE + of_nat c) 0) s;
     let s = WRITE_MEM hw DSPM_STATUS_ADDR STATUS_STARTED s;
     (_, s) \<leftarrow> poll_until (READ_MEM hw DSPM_CMD_ADDR) (\<lambda>v. v = CMD_TRIGGER_INTERRUPT) s;
     let s = WRITE_MEM hw DSPM_CMD_ADDR CMD_NONE s;
     let s = for_upto NUM_CORES (\<lambda>c. cnt_wr hw (CNT_IRQ_BASE + of_nat c) CVA_ACK_MASK) s;
     let s = WRITE_MEM hw DSPM_STATUS_ADDR STATUS_SENDING_IRQS s;
     let s = WRITE_MEM hw DSPM_STATUS_ADDR STATUS_ALL_IRQS_SENT s;
     let s = WRITE_MEM hw DSPM_LOG_BASE 0 s;
     let (c0, s) = read_mcycle hw s;
     let (i0, s) = read_mcycle hw s;
     Some (fw\<lparr>cyc_start := c0, iter_start := i0\<rparr>, s)
   })"

text \<open>The main loop never ends: \<open>mempol_run n\<close> is its state after \<open>n\<close> iterations.\<close>

fun mempol_run :: "'s hw \<Rightarrow> nat \<Rightarrow> mempol_fw \<times> 's \<Rightarrow> (mempol_fw \<times> 's) option" where
  "mempol_run hw 0 fs = Some fs"
| "mempol_run hw (Suc n) fs = do { fs \<leftarrow> mempol_iter hw fs; mempol_run hw n fs }"

definition mempol_main :: "'s hw \<Rightarrow> nat \<Rightarrow> 's \<Rightarrow> (mempol_fw \<times> 's) option" where
  "mempol_main hw n s = do { fs \<leftarrow> mempol_boot hw (mempol_init, s); mempol_run hw n fs }"

end
