(* ===== verification/Mempol_Bench.thy ===== *)
theory Mempol_Bench
  imports Plic Mempol_Firmware
begin

text \<open>
  The CVA6 side of the mempol experiment, \<open>mempol/pmu_bench.c\<close>: the trap handler that carries out
  the pause and resume commands of the APMU, the per-core interrupt setup, counter configuration and
  resets, the loading of the firmware image and the decoding of the log the firmware wrote. The
  globals of the file are the record \<open>bench\<close>; the addresses of \<open>wfi_loop\<close> and \<open>handle_trap\<close>
  are known to the linker only, so they are arguments.
\<close>

subsection \<open>Globals\<close>

definition PMU_IRQ_BASE :: u32 where "PMU_IRQ_BASE = 156"
definition PMU_IRQ_CORE :: "u32 \<Rightarrow> u32" where "PMU_IRQ_CORE n = PMU_IRQ_BASE + n"
definition PLIC_CONTEXT_CORE :: "u32 \<Rightarrow> u32" where "PLIC_CONTEXT_CORE n = n * 2"
definition MAX_IRQ_LOG :: u32 where "MAX_IRQ_LOG = 5000"
definition DSPM_CORES_READY_ADDR :: u32 where "DSPM_CORES_READY_ADDR = DSPM_BASE_ADDR + 0x100"

record bench =
  g_paused :: "u32 list"
  counter_val :: "u32 list"
  g_interrupt_count :: "u32 list"
  g_work_iterations :: "u32 list"
  g_saved_mepc :: "u64 list"
  g_core_done :: "u32 list"
  g_interference_go :: u32
  g_mcause :: u64
  g_mepc :: u64
  g_claimed_irq :: u32
  g_irq_log_cycle :: "u32 list list"
  g_irq_log_type :: "u8 list list"
  g_core0_start_mcycle :: u32

definition bench_reinit :: "bench \<Rightarrow> bench" where
  "bench_reinit b = b\<lparr>g_paused := replicate NUM_CORES 0, g_interrupt_count := replicate NUM_CORES 0,
     g_work_iterations := replicate NUM_CORES 0, g_saved_mepc := replicate NUM_CORES 0,
     g_core_done := replicate NUM_CORES 0,
     g_irq_log_cycle := replicate NUM_CORES (replicate (unat MAX_IRQ_LOG) 0),
     g_irq_log_type := replicate NUM_CORES (replicate (unat MAX_IRQ_LOG) 0),
     g_mcause := 0, g_mepc := 0, g_claimed_irq := 0\<rparr>"

text \<open>\<open>read_32b\<close> and \<open>write_32b\<close> of \<open>pmu_test_func.h\<close>.\<close>

definition read_32b :: "'s hw \<Rightarrow> u64 \<Rightarrow> 's \<Rightarrow> u32 \<times> 's" where
  "read_32b hw a s = rd32 hw a s"

definition write_32b :: "'s hw \<Rightarrow> u64 \<Rightarrow> u32 \<Rightarrow> 's \<Rightarrow> 's" where
  "write_32b hw a v s = wr32 hw a v s"

subsection \<open>Trap handler\<close>

text \<open>
  The three ways the handler reads the channel word of its core: a pause command has neither the
  run bit nor the acknowledge bit, a resume command has the run bit, and anything else is ignored.
\<close>

definition is_pause_cmd :: "u32 \<Rightarrow> bool" where
  "is_pause_cmd v \<longleftrightarrow> v AND PMU_PR_MASK = 0 \<and> v AND CVA_ACK_MASK = 0"

definition is_resume_cmd :: "u32 \<Rightarrow> bool" where
  "is_resume_cmd v \<longleftrightarrow> v AND PMU_PR_MASK = PMU_PR_MASK"

definition log_irq :: "nat \<Rightarrow> u32 \<Rightarrow> u32 \<Rightarrow> bench \<Rightarrow> bench" where
  "log_irq h irq_idx cyc b =
     (if irq_idx < MAX_IRQ_LOG then
        b\<lparr>g_irq_log_cycle := (g_irq_log_cycle b)[h := (g_irq_log_cycle b ! h)[unat irq_idx := cyc]],
          g_irq_log_type := (g_irq_log_type b)[h := (g_irq_log_type b ! h)
             [unat irq_idx := if g_paused b ! h \<noteq> 0 then 1 else 0]]\<rparr>
      else b)"

text \<open>
  The handling of the core's own interrupt: count it, log it, read the channel and obey it.
  \<open>wfi\<close> is the address of \<open>wfi_loop\<close>.
\<close>

definition pmu_irq :: "'s hw \<Rightarrow> u64 \<Rightarrow> nat \<Rightarrow> u64 \<Rightarrow> bench \<times> 's \<Rightarrow> bench \<times> 's" where
  "pmu_irq hw wfi h mepc = (\<lambda>(b, s).
     let counter_addr = u32_to_addr (COUNTER_BASE_ADDR + of_nat h * COUNTER_BUNDLE_SIZE);
         irq_idx = g_interrupt_count b ! h;
         b = b\<lparr>g_interrupt_count := (g_interrupt_count b)[h := irq_idx + 1]\<rparr>;
         (cyc, s) = read_mcycle hw s;
         b = log_irq h irq_idx cyc b;
         (v, s) = read_32b hw counter_addr s;
         b = b\<lparr>counter_val := (counter_val b)[h := v]\<rparr>
     in if is_pause_cmd v then
          let b = b\<lparr>g_saved_mepc := (g_saved_mepc b)[h := mepc]\<rparr>;
              s = csr_wr hw CSR_MEPC wfi s;
              b = b\<lparr>g_paused := (g_paused b)[h := 1]\<rparr>
          in (b, write_32b hw counter_addr CVA_ACK_MASK s)
        else if is_resume_cmd v then
          let s = csr_wr hw CSR_MEPC (g_saved_mepc b ! h) s;
              b = b\<lparr>g_paused := (g_paused b)[h := 0]\<rparr>
          in (b, write_32b hw counter_addr CVA_ACK_MASK s)
        else (b, s))"

definition handle_trap_c :: "'s hw \<Rightarrow> u64 \<Rightarrow> bench \<times> 's \<Rightarrow> bench \<times> 's" where
  "handle_trap_c hw wfi = (\<lambda>(b, s).
     let (v, s) = csr_rd hw CSR_MHARTID s;
         mhartid = ucast v :: u32;
         (mcause, s) = csr_rd hw CSR_MCAUSE s;
         (mepc, s) = csr_rd hw CSR_MEPC s;
         b = b\<lparr>g_mcause := mcause, g_mepc := mepc\<rparr>;
         is_interrupt = drop_bit 63 mcause;
         code = mcause AND 0x7FF
     in if is_interrupt \<noteq> 0 \<and> code = 11 then
          let plic_context = PLIC_CONTEXT_CORE mhartid;
              (claimed, s) = plic_claim_msg hw plic_context s;
              b = b\<lparr>g_claimed_irq := claimed\<rparr>
          in if claimed = PMU_IRQ_CORE mhartid then
               let (b, s) = pmu_irq hw wfi (unat mhartid) mepc (b, s)
               in (b, plic_complete_msg hw plic_context claimed s)
             else if claimed \<noteq> 0 then (b, plic_complete_msg hw plic_context claimed s)
             else (b, s)
        else (b, s))"

subsection \<open>Per-core setup\<close>

definition setup_core_interrupt :: "'s hw \<Rightarrow> u64 \<Rightarrow> u32 \<Rightarrow> 's \<Rightarrow> 's option" where
  "setup_core_interrupt hw trap_addr core_id s = do {
     let plic_context = PLIC_CONTEXT_CORE core_id;
     let irq_id = PMU_IRQ_CORE core_id;
     let s = csr_wr hw CSR_MTVEC trap_addr s;
     let s = plic_set_priority hw irq_id 7 s;
     let s = plic_set_ie hw plic_context irq_id 1 s;
     let s = plic_set_thresh hw plic_context 6 s;
     let s = write_32b hw (u32_to_addr (COUNTER_BASE_ADDR + core_id * COUNTER_BUNDLE_SIZE)) 0 s;
     let s = fence hw s;
     s \<leftarrow> drain_plic hw plic_context s;
     let s = write_32b hw (u32_to_addr (EVENT_INFO_BASE_ADDR + core_id * COUNTER_BUNDLE_SIZE)) OVERFLOW_EN s;
     let s = write_32b hw (u32_to_addr (COUNTER_BASE_ADDR + core_id * COUNTER_BUNDLE_SIZE)) 0x00100000 s;
     let s = fence hw s;
     s \<leftarrow> drain_plic hw plic_context s;
     let (mie, s) = csr_rd hw CSR_MIE s;
     let s = csr_wr hw CSR_MIE (mie OR push_bit 11 1) s;
     let (mstatus, s) = csr_rd hw CSR_MSTATUS s;
     let s = csr_wr hw CSR_MSTATUS (mstatus OR push_bit 3 1) s;
     Some s
   }"

subsection \<open>Counters\<close>

definition reset_offsets :: "u32 list" where "reset_offsets = [4, 8, 12, 16]"

definition reset_counters :: "'s hw \<Rightarrow> u32 \<Rightarrow> 's \<Rightarrow> 's" where
  "reset_counters hw core s =
     fence hw (fold (\<lambda>off. write_32b hw
       (u32_to_addr (COUNTER_BASE_ADDR + (off + core) * COUNTER_BUNDLE_SIZE)) 0) reset_offsets s)"

definition event_groups :: "u32 list list" where
  "event_groups = [LLC_RD_REQ_CORE, LLC_WR_REQ_CORE, MEM_RD_REQ_CORE, MEM_WR_REQ_CORE]"

definition group_base :: "u32 list" where "group_base = [4, 8, 12, 16]"

definition configure_counter :: "'s hw \<Rightarrow> nat \<Rightarrow> nat \<Rightarrow> 's \<Rightarrow> 's" where
  "configure_counter hw g core s =
     (let cnt_idx = group_base ! g + of_nat core;
          s = write_32b hw (u32_to_addr (EVENT_SEL_BASE_ADDR + cnt_idx * COUNTER_BUNDLE_SIZE))
                (event_groups ! g ! core) s;
          s = write_32b hw (u32_to_addr (EVENT_INFO_BASE_ADDR + cnt_idx * COUNTER_BUNDLE_SIZE)) 0 s
      in write_32b hw (u32_to_addr (COUNTER_BASE_ADDR + cnt_idx * COUNTER_BUNDLE_SIZE)) 0 s)"

definition configure_counters :: "'s hw \<Rightarrow> 's \<Rightarrow> 's" where
  "configure_counters hw =
     for_upto 4 (\<lambda>g. for_upto NUM_CORES (\<lambda>core. configure_counter hw g core))"

definition read_pmu_timer :: "'s hw \<Rightarrow> 's \<Rightarrow> u64 \<times> 's" where
  "read_pmu_timer hw s =
     (let (timer_low, s) = read_32b hw (u32_to_addr TIMER_ADDR) s;
          (timer_high, s) = read_32b hw (u32_to_addr (TIMER_ADDR + 4)) s
      in (push_bit 32 (ucast timer_high) OR ucast timer_low, s))"

definition enable_llc :: "'s hw \<Rightarrow> 's \<Rightarrow> 's" where
  "enable_llc hw = write_32b hw (0x1C + 0x1A106000) 0x83000000"

definition partition_cache_4cores :: "'s hw \<Rightarrow> 's \<Rightarrow> 's" where
  "partition_cache_4cores hw s =
     fence hw (write_32b hw 0x10401044 0xFF0FFFF0 (write_32b hw 0x10401040 0xF0FF0FFF s))"

subsection \<open>Loading the firmware\<close>

text \<open>
  \<open>copy_words dst src size\<close> stores \<open>\<lceil>size / 4\<rceil>\<close> words (the sum \<open>size + 3\<close> is 32 bits wide).
  The image is a list of words, the firmware binary as the linker embeds it.
\<close>

definition words_of_size :: "u32 \<Rightarrow> nat" where
  "words_of_size nbytes = unat ((nbytes + 3) div 4)"

definition copy_words :: "'s hw \<Rightarrow> u64 \<Rightarrow> u32 list \<Rightarrow> u32 \<Rightarrow> 's \<Rightarrow> 's" where
  "copy_words hw dst src nbytes =
     for_upto (words_of_size nbytes) (\<lambda>i. wr32 hw (dst + 4 * of_nat i) (src ! i))"

subsection \<open>Decoding the log\<close>

record log_entry =
  le_llc_rd :: u32
  le_llc_wr :: u32
  le_mem_rd :: u32
  le_mem_wr :: u32
  le_decision :: u32
  le_token :: i32

definition decode_log_entry :: "u32 \<Rightarrow> u32 \<Rightarrow> log_entry" where
  "decode_log_entry w0 w1 =
     \<lparr>le_llc_rd = drop_bit 23 w0 AND 0x1FF, le_llc_wr = drop_bit 14 w0 AND 0x1FF,
      le_mem_rd = drop_bit 7 w0 AND 0x7F, le_mem_wr = w0 AND 0x7F,
      le_decision = drop_bit 30 w1 AND 0x3,
      le_token = (w1 AND 0x3FFFFFFF) OR (if w1 AND 0x20000000 \<noteq> 0 then 0xC0000000 else 0)\<rparr>"

end
