(* ===== verification/Mempol_Bucket.thy ===== *)
theory Mempol_Bucket
  imports Mempol_Firmware
begin

text \<open>
  The token bucket of the mempol firmware against its integer specification. The code computes in
  32-bit words; \<open>bucket_step\<close> is the regulation the file header describes, on integers: add the
  budget, subtract the weighted traffic, cap. The refinement holds as long as the weighted traffic
  of one period fits in 31 bits and the bucket does not run below \<open>- 2 ^ 31\<close>; the traffic bound of
  the bucket follows from the specification.
\<close>

subsection \<open>Specification\<close>

definition bucket_step :: "int \<Rightarrow> int \<Rightarrow> int \<Rightarrow> int \<Rightarrow> int" where
  "bucket_step cap A t V = min cap (t + A - V)"

fun bucket_run :: "int \<Rightarrow> int \<Rightarrow> int \<Rightarrow> int list \<Rightarrow> int" where
  "bucket_run cap A t [] = t"
| "bucket_run cap A t (V # Vs) = bucket_run cap A (bucket_step cap A t V) Vs"

lemma bucket_step_le_cap: "bucket_step cap A t V \<le> cap"
  by (simp add: bucket_step_def)

lemma bucket_run_traffic: "sum_list Vs \<le> t + int (length Vs) * A - bucket_run cap A t Vs"
proof (induction Vs arbitrary: t)
  case Nil
  then show ?case by simp
next
  case (Cons V Vs)
  have "bucket_step cap A t V \<le> t + A - V" by (simp add: bucket_step_def)
  with Cons.IH [of "bucket_step cap A t V"] show ?case by (simp add: algebra_simps)
qed

lemma bucket_run_append:
  "bucket_run cap A t (Vs @ Ws) = bucket_run cap A (bucket_run cap A t Vs) Ws"
  by (induction Vs arbitrary: t) auto

lemma bucket_run_le_cap: "t \<le> cap \<Longrightarrow> bucket_run cap A t Vs \<le> cap"
  by (induction Vs arbitrary: t) (auto simp: bucket_step_le_cap)

subsection \<open>Reading the firmware's parameters\<close>

type_synonym sample = "u32 \<times> u32 \<times> u32 \<times> u32"

definition cost :: "mempol_fw \<Rightarrow> sample \<Rightarrow> int" where
  "cost fw = (\<lambda>(llc_rd, llc_wr, mem_rd, mem_wr).
     uint (aLLCr fw) * uint llc_rd + uint (aLLCw fw) * uint llc_wr +
     uint (aMEMr fw) * uint mem_rd + uint (aMEMw fw) * uint mem_wr)"

definition refill :: "mempol_fw \<Rightarrow> int" where
  "refill fw = sint (fw_B fw) * uint (fw_P fw)"

definition capacity :: "mempol_fw \<Rightarrow> int" where
  "capacity fw = uint (fw_w fw) * uint (poll_period fw) * sint (fw_B fw)"

text \<open>The configured products fit; the values the file sets do.\<close>

definition config_ok :: "mempol_fw \<Rightarrow> bool" where
  "config_ok fw \<longleftrightarrow> 0 \<le> sint (fw_B fw) \<and> refill fw < 2 ^ 31 \<and> capacity fw < 2 ^ 31"

lemma mempol_init_params: "refill mempol_init = 172000" "capacity mempol_init = 344000"
  "config_ok mempol_init"
  by (simp_all add: refill_def capacity_def config_ok_def mempol_init_def)

lemma cost_nonneg: "0 \<le> cost fw x"
  by (cases x) (simp add: cost_def)

lemma capacity_nonneg: "config_ok fw \<Longrightarrow> 0 \<le> capacity fw"
  by (simp add: config_ok_def capacity_def)

lemma compute_V_word: "compute_V fw x = word_of_int (cost fw x)"
  by (cases x) (simp add: compute_V_def cost_def)

lemma sint_compute_V: "cost fw x < 2 ^ 31 \<Longrightarrow> sint (compute_V fw x) = cost fw x"
  using cost_nonneg [of fw x] by (simp add: compute_V_word sint_word_of_int_small)

lemma sint_token_cap: "config_ok fw \<Longrightarrow> sint (token_cap fw) = capacity fw"
proof -
  assume ok: "config_ok fw"
  have "token_cap fw = word_of_int (capacity fw)"
    by (simp add: token_cap_def capacity_def)
  with ok capacity_nonneg [OF ok] show ?thesis
    by (simp add: sint_word_of_int_small config_ok_def)
qed

subsection \<open>The code's bucket\<close>

lemma charge_word:
  "tok + (fw_B fw * fw_P fw - V) = word_of_int (sint tok + refill fw - sint V)"
  by (simp add: refill_def)

lemma charge_refines:
  assumes "config_ok fw" "- (2 ^ 31) \<le> sint tok + refill fw - sint V"
    "sint tok + refill fw - sint V < 2 ^ 31"
  shows "sint (charge fw tok V) = bucket_step (capacity fw) (refill fw) (sint tok) (sint V)"
proof -
  let ?n = "sint tok + refill fw - sint V"
  have new: "tok + (fw_B fw * fw_P fw - V) = word_of_int ?n" by (rule charge_word)
  have "sint (word_of_int ?n :: i32) = ?n" using assms(2,3) by (rule sint_word_of_int_small)
  then show ?thesis
    using sint_token_cap [OF assms(1)] unfolding charge_def new bucket_step_def by (auto simp: Let_def)
qed

lemma charge_le_cap: "sint (charge fw tok V) \<le> sint (token_cap fw)"
  by (simp add: charge_def Let_def)

text \<open>A run of the bucket over the samples of successive periods.\<close>

fun charge_run :: "mempol_fw \<Rightarrow> i32 \<Rightarrow> sample list \<Rightarrow> i32" where
  "charge_run fw tok [] = tok"
| "charge_run fw tok (x # xs) = charge_run fw (charge fw tok (compute_V fw x)) xs"

text \<open>No period overflows: the condition of the refinement along a run.\<close>

fun in_range_run :: "mempol_fw \<Rightarrow> int \<Rightarrow> sample list \<Rightarrow> bool" where
  "in_range_run fw t [] = True"
| "in_range_run fw t (x # xs) =
     (cost fw x < 2 ^ 31 \<and> - (2 ^ 31) \<le> t + refill fw - cost fw x \<and>
      in_range_run fw (bucket_step (capacity fw) (refill fw) t (cost fw x)) xs)"

lemma charge_run_refines:
  assumes "config_ok fw" "capacity fw + refill fw < 2 ^ 31"
  shows "in_range_run fw (sint tok) xs \<Longrightarrow> sint tok \<le> capacity fw \<Longrightarrow>
    sint (charge_run fw tok xs) = bucket_run (capacity fw) (refill fw) (sint tok) (map (cost fw) xs)"
proof (induction xs arbitrary: tok)
  case Nil
  then show ?case by simp
next
  case (Cons x xs)
  let ?tok = "charge fw tok (compute_V fw x)"
  have V: "sint (compute_V fw x) = cost fw x"
    using Cons.prems(1) by (simp add: sint_compute_V)
  have step: "sint ?tok = bucket_step (capacity fw) (refill fw) (sint tok) (cost fw x)"
    using assms Cons.prems cost_nonneg [of fw x] by (subst charge_refines) (auto simp: V)
  moreover have "sint ?tok \<le> capacity fw"
    by (simp add: step bucket_step_le_cap)
  ultimately have "sint (charge_run fw ?tok xs) =
      bucket_run (capacity fw) (refill fw) (sint ?tok) (map (cost fw) xs)"
    using Cons.prems by (intro Cons.IH) auto
  then show ?case by (simp add: step)
qed

lemma refill_nonneg: "config_ok fw \<Longrightarrow> 0 \<le> refill fw"
  by (simp add: config_ok_def refill_def)

text \<open>
  Enough for the refinement: a period's cost at most \<open>2 ^ 30\<close> while the bucket is not below
  \<open>- 2 ^ 30\<close>. The firmware's periods are 2000 cycles, so a count is at most a few thousand.
\<close>

lemma in_range_small:
  assumes "config_ok fw" "\<forall>x \<in> set xs. cost fw x \<le> C" "- (2 ^ 31) \<le> t - int (length xs) * C"
    "t \<le> capacity fw" "C < 2 ^ 31" "0 \<le> C"
  shows "in_range_run fw t xs"
  using assms(2-4)
proof (induction xs arbitrary: t)
  case Nil
  then show ?case by simp
next
  case (Cons x xs)
  let ?t = "bucket_step (capacity fw) (refill fw) t (cost fw x)"
  have cx: "cost fw x \<le> C" using Cons.prems(1) by simp
  have len: "- (2 ^ 31) \<le> t - C - int (length xs) * C"
    using Cons.prems(2) by (simp add: algebra_simps)
  have nonneg: "0 \<le> int (length xs) * C" using assms(6) by simp
  have "t - C \<le> ?t"
    using cx Cons.prems(3) refill_nonneg [OF assms(1)] assms(6) by (simp add: bucket_step_def)
  then have "- (2 ^ 31) \<le> ?t - int (length xs) * C" using len by linarith
  then have "in_range_run fw ?t xs"
    using Cons.prems(1) by (intro Cons.IH) (auto simp: bucket_step_le_cap)
  moreover have "- (2 ^ 31) \<le> t + refill fw - cost fw x"
    using len nonneg cx refill_nonneg [OF assms(1)] by linarith
  ultimately show ?case using cx assms(5) by simp
qed

end
