(* ===== verification/Mempol_Run.thy ===== *)
theory Mempol_Run
  imports Mempol_Bucket
begin

text \<open>
  What the main loop of the mempol firmware does to its own state, for any hardware: every policed
  core's bucket follows \<open>charge\<close> on the samples the iteration read, the parameters never change,
  the log index stays within the log, and the padding ends an iteration no earlier than its period.
\<close>

subsection \<open>Frames\<close>

definition params :: "mempol_fw \<Rightarrow> u32 \<times> i32 \<times> u32 \<times> u32 \<times> u32 \<times> u32 \<times> u32 \<times> u32" where
  "params fw = (poll_period fw, fw_B fw, fw_P fw, fw_w fw, aLLCr fw, aLLCw fw, aMEMr fw, aMEMw fw)"

lemma charge_params: "params fw = params fw' \<Longrightarrow> charge fw = charge fw'"
  by (auto simp: params_def charge_def token_cap_def fun_eq_iff)

lemma compute_V_params: "params fw = params fw' \<Longrightarrow> compute_V fw = compute_V fw'"
  by (auto simp: params_def compute_V_def fun_eq_iff)

lemma cost_params: "params fw = params fw' \<Longrightarrow> cost fw = cost fw'"
  by (auto simp: params_def cost_def fun_eq_iff)

lemma refill_capacity_params:
  "params fw = params fw' \<Longrightarrow> refill fw = refill fw'"
  "params fw = params fw' \<Longrightarrow> capacity fw = capacity fw'"
  "params fw = params fw' \<Longrightarrow> token_cap fw = token_cap fw'"
  "params fw = params fw' \<Longrightarrow> config_ok fw = config_ok fw'"
  by (auto simp: params_def refill_def capacity_def config_ok_def token_cap_def)

lemma charge_run_params: "params fw = params fw' \<Longrightarrow> charge_run fw tok xs = charge_run fw' tok xs"
  by (induction xs arbitrary: tok) (simp_all add: charge_params [of fw fw'] compute_V_params [of fw fw'])

text \<open>The state of the main loop an operation leaves alone: parameters, buckets, counts of commands.\<close>

lemma sample_core_frame:
  "params (fst (snd (sample_core hw idx fs))) = params (fst fs)"
  "token (fst (snd (sample_core hw idx fs))) = token (fst fs)"
  "irq_sent (fst (snd (sample_core hw idx fs))) = irq_sent (fst fs)"
  "log_count (fst (snd (sample_core hw idx fs))) = log_count (fst fs)"
  "iter_start (fst (snd (sample_core hw idx fs))) = iter_start (fst fs)"
  "poll_count (fst (snd (sample_core hw idx fs))) = poll_count (fst fs)"
  by (simp_all add: sample_core_def Let_def split_beta params_def)

lemma send_frame:
  "params (fst (send_pause hw idx fs)) = params (fst fs)"
  "token (fst (send_pause hw idx fs)) = token (fst fs)"
  "log_count (fst (send_pause hw idx fs)) = log_count (fst fs)"
  "iter_start (fst (send_pause hw idx fs)) = iter_start (fst fs)"
  "params (fst (send_resume hw idx fs)) = params (fst fs)"
  "token (fst (send_resume hw idx fs)) = token (fst fs)"
  "log_count (fst (send_resume hw idx fs)) = log_count (fst fs)"
  "iter_start (fst (send_resume hw idx fs)) = iter_start (fst fs)"
  by (simp_all add: send_pause_def send_resume_def Let_def split_beta params_def)

lemma throttle_core_frame:
  "params (fst (throttle_core hw idx fs)) = params (fst fs)"
  "token (fst (throttle_core hw idx fs)) = token (fst fs)"
  "log_count (fst (throttle_core hw idx fs)) = log_count (fst fs)"
  "iter_start (fst (throttle_core hw idx fs)) = iter_start (fst fs)"
  by (simp_all add: throttle_core_def Let_def split_beta send_frame)

lemma update_token_frame:
  "params (update_token idx x fw) = params fw"
  "log_count (update_token idx x fw) = log_count fw"
  "iter_start (update_token idx x fw) = iter_start fw"
  "irq_sent (update_token idx x fw) = irq_sent fw"
  by (simp_all add: update_token_def params_def)

lemma police_core_frame:
  "params (fst (police_core hw idx fs)) = params (fst fs)"
  "log_count (fst (police_core hw idx fs)) = log_count (fst fs)"
  "iter_start (fst (police_core hw idx fs)) = iter_start (fst fs)"
  by (simp_all add: police_core_def split_beta throttle_core_frame update_token_frame sample_core_frame)

lemma police_core_token:
  "token (fst (police_core hw idx fs)) =
     (token (fst fs))[idx := charge (fst fs) (token (fst fs) ! idx)
        (compute_V (fst fs) (fst (sample_core hw idx fs)))]"
proof -
  let ?fw = "fst (snd (sample_core hw idx fs))"
  have "charge ?fw = charge (fst fs)" "compute_V ?fw = compute_V (fst fs)"
    by (rule charge_params compute_V_params; simp add: sample_core_frame)+
  then show ?thesis
    by (simp add: police_core_def split_beta throttle_core_frame update_token_def sample_core_frame)
qed

definition police_first :: "'s hw \<Rightarrow> nat \<Rightarrow> mempol_fw \<times> 's \<Rightarrow> mempol_fw \<times> 's" where
  "police_first hw k fs = fold (police_core hw) [0..<k] fs"

lemma police_first_0 [simp]: "police_first hw 0 fs = fs"
  by (simp add: police_first_def)

lemma police_first_Suc [simp]: "police_first hw (Suc k) fs = police_core hw k (police_first hw k fs)"
  by (simp add: police_first_def)

lemma police_first_frame:
  "params (fst (police_first hw k fs)) = params (fst fs)"
  "log_count (fst (police_first hw k fs)) = log_count (fst fs)"
  "iter_start (fst (police_first hw k fs)) = iter_start (fst fs)"
  "length (token (fst (police_first hw k fs))) = length (token (fst fs))"
  by (induction k) (simp_all add: police_core_frame police_core_token)

lemma police_first_token_later:
  "k \<le> idx \<Longrightarrow> token (fst (police_first hw k fs)) ! idx = token (fst fs) ! idx"
  by (induction k) (simp_all add: police_core_token)

lemma police_first_token:
  assumes "idx < k" "idx < length (token (fst fs))"
  shows "token (fst (police_first hw k fs)) ! idx =
     charge (fst fs) (token (fst fs) ! idx)
       (compute_V (fst fs) (fst (sample_core hw idx (police_first hw idx fs))))"
  using assms(1)
proof (induction k)
  case 0
  then show ?case by simp
next
  case (Suc k)
  have par: "charge (fst (police_first hw k fs)) = charge (fst fs)"
    "compute_V (fst (police_first hw k fs)) = compute_V (fst fs)"
    by (rule charge_params compute_V_params; simp add: police_first_frame)+
  show ?case
  proof (cases "idx = k")
    case True
    with assms(2) par show ?thesis
      by (simp add: police_core_token police_first_frame police_first_token_later)
  next
    case False
    with Suc show ?thesis by (simp add: police_core_token)
  qed
qed

subsection \<open>One iteration\<close>

text \<open>The state at the first policed core of an iteration, and the sample of core \<open>idx\<close> in it.\<close>

definition iter_begin :: "'s hw \<Rightarrow> mempol_fw \<times> 's \<Rightarrow> mempol_fw \<times> 's" where
  "iter_begin hw = (\<lambda>(fw, s).
     (fw\<lparr>poll_count := poll_count fw + 1, log_decision_0 := 0\<rparr>,
      cnt_wr hw CNT_BREADCRUMB 1 (cnt_wr hw CNT_POLL_PERIOD (poll_count fw + 1) s)))"

definition polled_sample :: "'s hw \<Rightarrow> nat \<Rightarrow> mempol_fw \<times> 's \<Rightarrow> sample" where
  "polled_sample hw idx fs = fst (sample_core hw idx (police_first hw idx (iter_begin hw fs)))"

lemma iter_begin_frame:
  "params (fst (iter_begin hw fs)) = params (fst fs)"
  "token (fst (iter_begin hw fs)) = token (fst fs)"
  "log_count (fst (iter_begin hw fs)) = log_count (fst fs)"
  "iter_start (fst (iter_begin hw fs)) = iter_start (fst fs)"
  "irq_sent (fst (iter_begin hw fs)) = irq_sent (fst fs)"
  by (simp_all add: iter_begin_def split_beta params_def)

lemma mempol_police_eq:
  "mempol_police hw fs =
     (case police_first hw NUM_POLICED_CORES (iter_begin hw fs) of
        (fw, s) \<Rightarrow> (fw, cnt_wr hw CNT_BREADCRUMB 70 s))"
  by (simp add: mempol_police_def iter_begin_def police_first_def split_beta Let_def)

lemma mempol_police_frame:
  "params (fst (mempol_police hw fs)) = params (fst fs)"
  "log_count (fst (mempol_police hw fs)) = log_count (fst fs)"
  "iter_start (fst (mempol_police hw fs)) = iter_start (fst fs)"
  "length (token (fst (mempol_police hw fs))) = length (token (fst fs))"
  by (simp_all add: mempol_police_eq split_beta police_first_frame iter_begin_frame)

lemma mempol_police_token:
  assumes "idx < 4" "length (token (fst fs)) = 4"
  shows "token (fst (mempol_police hw fs)) ! idx =
     charge (fst fs) (token (fst fs) ! idx) (compute_V (fst fs) (polled_sample hw idx fs))"
proof -
  have "charge (fst (iter_begin hw fs)) = charge (fst fs)"
    "compute_V (fst (iter_begin hw fs)) = compute_V (fst fs)"
    by (rule charge_params compute_V_params; simp add: iter_begin_frame)+
  with assms show ?thesis
    by (simp add: mempol_police_eq split_beta police_first_token NUM_POLICED_CORES_def
        iter_begin_frame polled_sample_def)
qed

lemma measure_work_frame:
  "params (fst (measure_work hw fs)) = params (fst fs)"
  "token (fst (measure_work hw fs)) = token (fst fs)"
  "log_count (fst (measure_work hw fs)) = log_count (fst fs)"
  "iter_start (fst (measure_work hw fs)) = iter_start (fst fs)"
  "irq_sent (fst (measure_work hw fs)) = irq_sent (fst fs)"
  by (simp_all add: measure_work_def Let_def split_beta params_def)

lemma write_log_frame:
  "params (fst (write_log hw fs)) = params (fst fs)"
  "token (fst (write_log hw fs)) = token (fst fs)"
  "iter_start (fst (write_log hw fs)) = iter_start (fst fs)"
  "irq_sent (fst (write_log hw fs)) = irq_sent (fst fs)"
  by (simp_all add: write_log_def Let_def split_beta params_def)

lemma write_log_count:
  "log_count (fst (write_log hw fs)) =
     (if log_count (fst fs) < 10000 then log_count (fst fs) + 1 else log_count (fst fs))"
  by (simp add: write_log_def Let_def split_beta DSPM_LOG_MAX_ENTRIES_def)

lemma pad_iteration_frame:
  assumes "pad_iteration hw fs = Some fs'"
  shows "params (fst fs') = params (fst fs)" "token (fst fs') = token (fst fs)"
    "log_count (fst fs') = log_count (fst fs)" "irq_sent (fst fs') = irq_sent (fst fs)"
  using assms
  by (auto simp: pad_iteration_def split_beta Let_def params_def bind_eq_Some_conv)

lemma mempol_iter_frame:
  assumes "mempol_iter hw fs = Some fs'"
  shows "params (fst fs') = params (fst fs)"
    "length (token (fst fs')) = length (token (fst fs))"
    "log_count (fst fs') =
       (if log_count (fst fs) < 10000 then log_count (fst fs) + 1 else log_count (fst fs))"
  using assms pad_iteration_frame [of hw _ fs']
  by (simp_all add: mempol_iter_def write_log_frame write_log_count measure_work_frame
      mempol_police_frame)

lemma mempol_iter_token:
  assumes "mempol_iter hw fs = Some fs'" "idx < 4" "length (token (fst fs)) = 4"
  shows "token (fst fs') ! idx =
     charge (fst fs) (token (fst fs) ! idx) (compute_V (fst fs) (polled_sample hw idx fs))"
  using assms pad_iteration_frame(2) [of hw _ fs']
  by (simp add: mempol_iter_def write_log_frame measure_work_frame mempol_police_token)

subsection \<open>Runs\<close>

text \<open>The samples of core \<open>idx\<close> that the first \<open>n\<close> iterations read.\<close>

fun polled_samples :: "'s hw \<Rightarrow> nat \<Rightarrow> nat \<Rightarrow> mempol_fw \<times> 's \<Rightarrow> sample list" where
  "polled_samples hw idx 0 fs = []"
| "polled_samples hw idx (Suc n) fs =
     polled_sample hw idx fs #
     (case mempol_iter hw fs of None \<Rightarrow> [] | Some fs' \<Rightarrow> polled_samples hw idx n fs')"

lemma mempol_run_Suc:
  "mempol_run hw (Suc n) fs = Some fs'' \<longleftrightarrow>
     (\<exists>fs'. mempol_iter hw fs = Some fs' \<and> mempol_run hw n fs' = Some fs'')"
  by (simp add: bind_eq_Some_conv)

lemma length_polled_samples:
  "mempol_run hw n fs = Some fs' \<Longrightarrow> length (polled_samples hw idx n fs) = n"
  by (induction n arbitrary: fs) (auto simp: bind_eq_Some_conv)

lemma mempol_run_frame:
  "mempol_run hw n fs = Some fs' \<Longrightarrow>
     params (fst fs') = params (fst fs) \<and> length (token (fst fs')) = length (token (fst fs))"
proof (induction n arbitrary: fs)
  case 0
  then show ?case by simp
next
  case (Suc n)
  then obtain fs1 where it: "mempol_iter hw fs = Some fs1" and run: "mempol_run hw n fs1 = Some fs'"
    unfolding mempol_run_Suc by blast
  show ?case using Suc.IH [OF run] mempol_iter_frame [OF it] by simp
qed

lemma mempol_run_token:
  assumes "mempol_run hw n fs = Some fs'" "idx < 4" "length (token (fst fs)) = 4"
  shows "token (fst fs') ! idx =
     charge_run (fst fs) (token (fst fs) ! idx) (polled_samples hw idx n fs)"
  using assms
proof (induction n arbitrary: fs)
  case 0
  then show ?case by simp
next
  case (Suc n)
  then obtain fs1 where it: "mempol_iter hw fs = Some fs1" and run: "mempol_run hw n fs1 = Some fs'"
    unfolding mempol_run_Suc by blast
  have par: "params (fst fs1) = params (fst fs)" and len: "length (token (fst fs1)) = 4"
    using mempol_iter_frame [OF it] Suc.prems by simp_all
  have "token (fst fs') ! idx =
      charge_run (fst fs1) (token (fst fs1) ! idx) (polled_samples hw idx n fs1)"
    using run Suc.prems(2) len by (rule Suc.IH)
  then show ?case
    using it Suc.prems mempol_iter_token [OF it] by (simp add: charge_run_params [OF par])
qed

lemma mempol_run_log_count:
  "mempol_run hw n fs = Some fs' \<Longrightarrow> log_count (fst fs) \<le> 10000 \<Longrightarrow>
     unat (log_count (fst fs')) = min 10000 (unat (log_count (fst fs)) + n)"
proof (induction n arbitrary: fs)
  case 0
  then show ?case by (simp add: word_le_nat_alt)
next
  case (Suc n)
  then obtain fs1 where it: "mempol_iter hw fs = Some fs1" and run: "mempol_run hw n fs1 = Some fs'"
    unfolding mempol_run_Suc by blast
  have le: "unat (log_count (fst fs)) \<le> 10000"
    using Suc.prems(2) by (simp add: word_le_nat_alt)
  have "unat (log_count (fst fs1)) = min 10000 (unat (log_count (fst fs)) + 1)"
    using mempol_iter_frame(3) [OF it] le
    by (auto simp: word_less_nat_alt unat_word_ariths split: if_splits)
  moreover from this have "log_count (fst fs1) \<le> 10000" by (simp add: word_le_nat_alt)
  ultimately show ?case using Suc.IH [OF run] by simp
qed

subsection \<open>Padding\<close>

lemma pad_iteration_period:
  assumes "pad_iteration hw fs = Some fs'"
  shows "poll_period (fst fs) \<le> iter_start (fst fs') - iter_start (fst fs)"
proof -
  obtain fw s where fs: "fs = (fw, s)" by (cases fs)
  from assms [unfolded fs pad_iteration_def] obtain now s1 where
    poll: "poll_until (read_mcycle hw) (\<lambda>now. \<not> (now - iter_start fw < poll_period fw)) s = Some (now, s1)"
    and now: "iter_start (fst fs') = now"
    by (auto simp: split_beta Let_def bind_eq_Some_conv simp del: not_less)
  from poll_until_value [OF poll] have "poll_period fw \<le> now - iter_start fw" by (rule leI)
  then show ?thesis unfolding now fs fst_conv .
qed

lemma pad_iteration_returns:
  assumes "\<not> fst (read_mcycle hw (after_reads (read_mcycle hw) n s)) - iter_start fw < poll_period fw"
  shows "\<exists>fs'. pad_iteration hw (fw, s) = Some fs'"
proof -
  obtain m where "poll_until (read_mcycle hw) (\<lambda>now. \<not> (now - iter_start fw < poll_period fw)) s =
      Some (read_mcycle hw (after_reads (read_mcycle hw) m s))"
    using poll_until_terminates [of "\<lambda>now. \<not> (now - iter_start fw < poll_period fw)"
      "read_mcycle hw" n s, OF assms] by blast
  then show ?thesis
    by (simp add: pad_iteration_def split_beta Let_def)
qed


text \<open>
  The padding ends when the cycle counter advances, by at least one and at most \<open>2 ^ 31\<close> from one
  read to the next: the elapsed time then grows without passing over the period.
\<close>

locale advancing_cycles =
  fixes hw :: "'s hw" and cyc :: "'s \<Rightarrow> u32"
  assumes cycle_value: "fst (read_mcycle hw s) = cyc s"
    and advances: "1 \<le> uint (cyc (snd (read_mcycle hw s)) - cyc s)"
    and no_jump: "uint (cyc (snd (read_mcycle hw s)) - cyc s) \<le> 2 ^ 31"
begin

lemma elapsed_reaches:
  assumes "uint period \<le> 2 ^ 31 - 1"
  shows "\<exists>n. \<not> fst (read_mcycle hw (after_reads (read_mcycle hw) n s)) - start < period"
proof (induction "nat (uint period - uint (cyc s - start))" arbitrary: s rule: less_induct)
  case less
  show ?case
  proof (cases "cyc s - start < period")
    case False
    then show ?thesis by (intro exI [of _ 0]) (simp add: cycle_value)
  next
    case True
    let ?s = "snd (read_mcycle hw s)"
    define d where "d = cyc ?s - cyc s"
    have d: "1 \<le> uint d" "uint d \<le> 2 ^ 31" using advances [of s] no_jump [of s] by (simp_all add: d_def)
    have lt: "uint (cyc s - start) < uint period" using True by (simp add: word_less_def)
    have sum: "cyc ?s - start = (cyc s - start) + d" by (simp add: d_def)
    have add: "uint (w + d) = uint w + uint d" if "uint w < uint period" for w
      using d(2) that assms uint_ge_0 [of w] by (simp add: uint_word_ariths)
    have "uint (cyc ?s - start) = uint (cyc s - start) + uint d"
      unfolding sum by (rule add [OF lt])
    then have "nat (uint period - uint (cyc ?s - start)) < nat (uint period - uint (cyc s - start))"
      using d lt by simp
    from less [OF this] obtain n where
      "\<not> fst (read_mcycle hw (after_reads (read_mcycle hw) n ?s)) - start < period" by blast
    then show ?thesis by (intro exI [of _ "Suc n"]) (simp add: after_reads_Suc)
  qed
qed

lemma iter_returns:
  assumes "uint (poll_period (fst fs)) \<le> 2 ^ 31 - 1"
  shows "\<exists>fs'. mempol_iter hw fs = Some fs'"
proof -
  let ?fs = "write_log hw (measure_work hw (mempol_police hw fs))"
  have "params (fst ?fs) = params (fst fs)"
    by (simp add: write_log_frame measure_work_frame mempol_police_frame)
  then have "poll_period (fst ?fs) = poll_period (fst fs)" by (simp add: params_def)
  with assms have "uint (poll_period (fst ?fs)) \<le> 2 ^ 31 - 1" by simp
  from elapsed_reaches [OF this, of "snd ?fs" "iter_start (fst ?fs)"] obtain n where
    "\<not> fst (read_mcycle hw (after_reads (read_mcycle hw) n (snd ?fs))) - iter_start (fst ?fs) <
      poll_period (fst ?fs)" by blast
  from pad_iteration_returns [OF this] show ?thesis by (simp add: mempol_iter_def)
qed

lemma run_returns:
  "uint (poll_period (fst fs)) \<le> 2 ^ 31 - 1 \<Longrightarrow> \<exists>fs'. mempol_run hw n fs = Some fs'"
proof (induction n arbitrary: fs)
  case 0
  then show ?case by simp
next
  case (Suc n)
  obtain fs1 where it: "mempol_iter hw fs = Some fs1" using iter_returns [OF Suc.prems] by blast
  have "params (fst fs1) = params (fst fs)" using mempol_iter_frame [OF it] by simp
  then have "poll_period (fst fs1) = poll_period (fst fs)" by (simp add: params_def)
  with Suc it show ?case by simp
qed

end

end
