(* ===== verification/Mempol_System.thy ===== *)
theory Mempol_System
  imports Mempol_Bench Mempol_Run
begin

text \<open>
  The composed system of the mempol experiment: the APMU core running the firmware and the four
  CVA6 cores with the trap handler of \<open>pmu_bench.c\<close>, sharing the counter file. The state \<open>sys\<close> is
  a hardware state for both: \<open>cva_hw h\<close> is the interface as hart \<open>h\<close> sees it and \<open>pmu_hw\<close> the
  interface as the APMU core sees it. What happens between two accesses of the firmware is a
  list of actions, and the state holds one such list for every access to come: harts execute,
  take interrupts with whatever claim the PLIC returns, and produce traffic. Every statement below
  is for all schedules.
\<close>

subsection \<open>State\<close>

record hart =
  h_pc :: u64
  h_mepc :: u64
  h_claim :: u32

datatype act =
    Run nat u64
  | Irq nat u32
  | Traffic u32 u32

record sys =
  s_cnt :: "u32 \<Rightarrow> u32"
  s_mem :: "u64 \<Rightarrow> u32"
  s_cycle :: u64
  s_harts :: "nat \<Rightarrow> hart"
  s_bench :: bench
  s_sched :: "act list list"

text \<open>Which counter, if any, is at an address.\<close>

definition counter_index :: "u64 \<Rightarrow> u32 option" where
  "counter_index a = find (\<lambda>i. u32_to_addr (counter_addr i) = a) (map of_nat [0..<32])"

definition read_word :: "sys \<Rightarrow> u64 \<Rightarrow> u32" where
  "read_word s a = (case counter_index a of Some i \<Rightarrow> s_cnt s i | None \<Rightarrow> s_mem s a)"

definition write_word :: "u64 \<Rightarrow> u32 \<Rightarrow> sys \<Rightarrow> sys" where
  "write_word a v s =
     (case counter_index a of
        Some i \<Rightarrow> s\<lparr>s_cnt := (s_cnt s)(i := v)\<rparr>
      | None \<Rightarrow> s\<lparr>s_mem := (s_mem s)(a := v)\<rparr>)"

subsection \<open>The CVA6 side\<close>

definition set_mepc :: "nat \<Rightarrow> u64 \<Rightarrow> sys \<Rightarrow> sys" where
  "set_mepc h v s = s\<lparr>s_harts := (s_harts s)(h := (s_harts s h)\<lparr>h_mepc := v\<rparr>)\<rparr>"

definition cva_hw :: "nat \<Rightarrow> sys hw" where
  "cva_hw h =
     \<lparr>rd32 = (\<lambda>a s. if a = u32_to_addr (plic_claim_addr (PLIC_CONTEXT_CORE (of_nat h)))
                   then (h_claim (s_harts s h), s) else (read_word s a, s)),
      wr32 = write_word,
      rd64 = (\<lambda>a s. (ucast (read_word s a), s)),
      wr64 = (\<lambda>a v. write_word a (ucast v)),
      wr8 = (\<lambda>a v. write_word a (ucast v)),
      csr_rd = (\<lambda>r s. (if r = CSR_MHARTID then of_nat h
                      else if r = CSR_MCAUSE then 0x800000000000000B
                      else if r = CSR_MEPC then h_mepc (s_harts s h)
                      else s_cycle s, s)),
      csr_wr = (\<lambda>r v s. if r = CSR_MEPC then set_mepc h v s else s),
      cnt_rd = (\<lambda>i s. (s_cnt s i, s)),
      cnt_wr = (\<lambda>i v s. s\<lparr>s_cnt := (s_cnt s)(i := v)\<rparr>),
      fence = id\<rparr>"

text \<open>
  An interrupt of hart \<open>h\<close>: the hardware saves the program counter, the handler runs with the
  claim the PLIC returns, \<open>mret\<close> jumps to \<open>mepc\<close>.
\<close>

definition take_irq :: "u64 \<Rightarrow> nat \<Rightarrow> u32 \<Rightarrow> sys \<Rightarrow> sys" where
  "take_irq wfi h claim s =
     (let s = s\<lparr>s_harts := (s_harts s)(h := (s_harts s h)\<lparr>h_mepc := h_pc (s_harts s h), h_claim := claim\<rparr>)\<rparr>;
          (b, s) = handle_trap_c (cva_hw h) wfi (s_bench s, s);
          s = s\<lparr>s_bench := b\<rparr>
      in s\<lparr>s_harts := (s_harts s)(h := (s_harts s h)\<lparr>h_pc := h_mepc (s_harts s h)\<rparr>)\<rparr>)"

text \<open>The loop \<open>wfi_loop\<close> is two instructions; nothing else of the program jumps into it.\<close>

definition in_wfi :: "u64 \<Rightarrow> u64 \<Rightarrow> bool" where
  "in_wfi wfi pc \<longleftrightarrow> pc = wfi \<or> pc = wfi + 4"

fun step_act :: "u64 \<Rightarrow> act \<Rightarrow> sys \<Rightarrow> sys" where
  "step_act wfi (Run h pc) s =
     (if h < 4 \<and> in_wfi wfi pc = in_wfi wfi (h_pc (s_harts s h))
      then s\<lparr>s_harts := (s_harts s)(h := (s_harts s h)\<lparr>h_pc := pc\<rparr>)\<rparr> else s)"
| "step_act wfi (Irq h claim) s = (if h < 4 then take_irq wfi h claim s else s)"
| "step_act wfi (Traffic i v) s =
     (if 4 \<le> i \<and> i < 20 then s\<lparr>s_cnt := (s_cnt s)(i := s_cnt s i + v)\<rparr> else s)"

subsection \<open>The APMU side\<close>

definition env :: "u64 \<Rightarrow> sys \<Rightarrow> sys" where
  "env wfi s =
     (case s_sched s of
        [] \<Rightarrow> s
      | acts # rest \<Rightarrow> fold (step_act wfi) acts (s\<lparr>s_sched := rest\<rparr>))"

definition pmu_hw :: "u64 \<Rightarrow> sys hw" where
  "pmu_hw wfi =
     \<lparr>rd32 = (\<lambda>a s. let s = env wfi s in (read_word s a, s)),
      wr32 = (\<lambda>a v s. write_word a v (env wfi s)),
      rd64 = (\<lambda>a s. let s = env wfi s in (ucast (read_word s a), s)),
      wr64 = (\<lambda>a v s. write_word a (ucast v) (env wfi s)),
      wr8 = (\<lambda>a v s. write_word a (ucast v) (env wfi s)),
      csr_rd = (\<lambda>r s. let s = env wfi s in (s_cycle s, s\<lparr>s_cycle := s_cycle s + 500\<rparr>)),
      csr_wr = (\<lambda>r v s. env wfi s),
      cnt_rd = (\<lambda>i s. let s = env wfi s in (s_cnt s i, s)),
      cnt_wr = (\<lambda>i v s. let s = env wfi s in s\<lparr>s_cnt := (s_cnt s)(i := v)\<rparr>),
      fence = id\<rparr>"

subsection \<open>Addresses\<close>

lemma find_unique:
  "x \<in> set xs \<Longrightarrow> P x \<Longrightarrow> (\<And>y. y \<in> set xs \<Longrightarrow> P y \<Longrightarrow> y = x) \<Longrightarrow> find P xs = Some x"
proof (induction xs)
  case (Cons z zs)
  show ?case
  proof (cases "P z")
    case True
    with Cons.prems(3) [of z] show ?thesis by simp
  next
    case False
    have "find P zs = Some x"
    proof (rule Cons.IH)
      show "x \<in> set zs" using Cons.prems(1,2) False by (cases "x = z") simp_all
      show "P x" by (rule Cons.prems(2))
      show "y = x" if "y \<in> set zs" "P y" for y
        using that by (intro Cons.prems(3)) simp_all
    qed
    with False show ?thesis by simp
  qed
qed simp

lemma unat_of_nat_32: "n < 32 \<Longrightarrow> unat (of_nat n :: u32) = n"
  by (simp add: unat_of_nat)

lemma counter_index_addr:
  assumes "unat i < 32"
  shows "counter_index (u32_to_addr (counter_addr i)) = Some i"
  unfolding counter_index_def
proof (rule find_unique)
  have "i \<in> of_nat ` {0..<32::nat}"
    using assms by (intro image_eqI [where x = "unat i"]) simp_all
  then show "i \<in> set (map of_nat [0..<32])" unfolding set_map set_upt .
  fix j :: u32
  assume "j \<in> set (map of_nat [0..<32])"
  then obtain k where "k \<in> {0..<32}" "j = of_nat k" unfolding set_map set_upt by blast
  then have "unat j < 32" by (simp add: unat_of_nat_32)
  moreover assume "u32_to_addr (counter_addr j) = u32_to_addr (counter_addr i)"
  ultimately show "j = i"
    using assms counter_addr_inject [of j i] u32_to_addr_inject by blast
qed simp

lemma find_in_set: "find P xs = Some x \<Longrightarrow> x \<in> set xs"
  by (induction xs) (auto split: if_splits)

lemma counter_index_less: "counter_index a = Some i \<Longrightarrow> unat i < 32"
proof -
  assume "counter_index a = Some i"
  then have "i \<in> set (map of_nat [0..<32])" unfolding counter_index_def by (rule find_in_set)
  then obtain k where "k \<in> {0..<32}" "i = of_nat k" unfolding set_map set_upt by blast
  then show ?thesis by (simp add: unat_of_nat_32)
qed

end
