(* ===== verification/Mempol_Handshake.thy ===== *)
theory Mempol_Handshake
  imports Mempol_System
begin

text \<open>
  The pause/resume handshake between the firmware and the trap handlers. The abstract side is
  \<open>obey\<close>, what one core does with a command; the handler of \<open>pmu_bench.c\<close> implements it. The
  invariant says which commands can be in the channel of a core in which state of the core, and
  ties the \<open>throttled\<close> flag of the firmware to what the core does or is about to do.
\<close>

subsection \<open>The handler against its specification\<close>

text \<open>Channel word, program counter, pause flag and saved program counter of a hart.\<close>

type_synonym view = "u32 \<times> u64 \<times> u32 \<times> u64"

definition hart_view :: "sys \<Rightarrow> nat \<Rightarrow> view" where
  "hart_view s k = (s_cnt s (of_nat k), h_pc (s_harts s k), g_paused (s_bench s) ! k,
     g_saved_mepc (s_bench s) ! k)"

definition obey :: "u64 \<Rightarrow> bool \<Rightarrow> view \<Rightarrow> view" where
  "obey wfi own = (\<lambda>(ch, pc, p, sv).
     if \<not> own then (ch, pc, p, sv)
     else if is_pause_cmd ch then (CVA_ACK_MASK, wfi, 1, pc)
     else if is_resume_cmd ch then (CVA_ACK_MASK, sv, 0, sv)
     else (ch, pc, p, sv))"

definition bench_wf :: "bench \<Rightarrow> bool" where
  "bench_wf b \<longleftrightarrow> length (g_paused b) = 4 \<and> length (g_saved_mepc b) = 4"

lemma less_4_cases: "(k :: nat) < 4 \<Longrightarrow> k = 0 \<or> k = 1 \<or> k = 2 \<or> k = 3"
  by linarith

lemma unat_of_nat_4: "h < 4 \<Longrightarrow> unat (of_nat h :: u32) = h"
  by (simp add: unat_of_nat_32)

lemma of_nat_4_inject: "h < 4 \<Longrightarrow> k < 4 \<Longrightarrow> (of_nat h :: u32) = of_nat k \<longleftrightarrow> h = k"
  using unat_of_nat_4 by metis

lemma hartid_word: "h < 4 \<Longrightarrow> (ucast (of_nat h :: u64) :: u32) = of_nat h"
  by (drule less_4_cases) auto

lemma claim_not_counter:
  assumes "h < 4"
  shows "counter_index (u32_to_addr (plic_claim_addr (PLIC_CONTEXT_CORE (of_nat h)))) = None"
  unfolding counter_index_def find_None_iff
proof
  assume "\<exists>x. x \<in> set (map of_nat [0..<32]) \<and>
    u32_to_addr (counter_addr x) = u32_to_addr (plic_claim_addr (PLIC_CONTEXT_CORE (of_nat h)))"
  then obtain i :: u32 where "i \<in> of_nat ` {0..<32}"
    and eq: "counter_addr i = plic_claim_addr (PLIC_CONTEXT_CORE (of_nat h))"
    unfolding set_map set_upt u32_to_addr_inject by blast
  then have "unat i < 32" by (auto simp: unat_of_nat_32)
  then have "0x10407000 \<le> unat (counter_addr i)"
    by (simp add: counter_addr_bundle unat_bundle_reg)
  moreover have "unat (plic_claim_addr (PLIC_CONTEXT_CORE (of_nat h))) < 0x10407000"
    using less_4_cases [OF assms]
    by (auto simp: plic_claim_addr_def PLIC_CONTEXT_CORE_def plic_consts)
  ultimately show False unfolding eq by simp
qed

lemma counter_not_claim:
  assumes "h < 4"
  shows "u32_to_addr (counter_addr (of_nat h)) \<noteq>
    u32_to_addr (plic_claim_addr (PLIC_CONTEXT_CORE (of_nat h)))"
proof
  assume "u32_to_addr (counter_addr (of_nat h)) =
    u32_to_addr (plic_claim_addr (PLIC_CONTEXT_CORE (of_nat h)))"
  then have "counter_index (u32_to_addr (counter_addr (of_nat h))) = None"
    using claim_not_counter [OF assms] by simp
  then show False using assms by (simp add: counter_index_addr unat_of_nat_32)
qed

lemma cva_rd_counter [hw_laws]:
  "h < 4 \<Longrightarrow> rd32 (cva_hw h) (u32_to_addr (counter_addr (of_nat h))) s = (s_cnt s (of_nat h), s)"
  using counter_not_claim [of h]
  by (simp add: cva_hw_def read_word_def counter_index_addr unat_of_nat_4)

lemma cva_wr_counter [hw_laws]:
  "h < 4 \<Longrightarrow> wr32 (cva_hw h) (u32_to_addr (counter_addr (of_nat h))) v s =
     s\<lparr>s_cnt := (s_cnt s)(of_nat h := v)\<rparr>"
  by (simp add: cva_hw_def write_word_def counter_index_addr unat_of_nat_4)

lemma cva_claim [hw_laws]:
  "plic_claim_msg (cva_hw h) (PLIC_CONTEXT_CORE (of_nat h)) s = (h_claim (s_harts s h), s)"
  by (simp add: plic_claim_msg_def pulp_read32_def cva_hw_def)

lemma cva_complete [hw_laws]:
  "h < 4 \<Longrightarrow> plic_complete_msg (cva_hw h) (PLIC_CONTEXT_CORE (of_nat h)) v s =
     s\<lparr>s_mem := (s_mem s)(u32_to_addr (plic_claim_addr (PLIC_CONTEXT_CORE (of_nat h))) := v)\<rparr>"
  by (simp add: plic_complete_msg_def pulp_write32_def cva_hw_def write_word_def claim_not_counter)

lemma cva_csr [hw_laws]:
  "csr_rd (cva_hw h) CSR_MHARTID s = (of_nat h, s)"
  "csr_rd (cva_hw h) CSR_MCAUSE s = (0x800000000000000B, s)"
  "csr_rd (cva_hw h) CSR_MEPC s = (h_mepc (s_harts s h), s)"
  "read_mcycle (cva_hw h) s = (ucast (s_cycle s), s)"
  "csr_wr (cva_hw h) CSR_MEPC v s = set_mepc h v s"
  by (simp_all add: cva_hw_def csr_numbers read_mcycle_def)

lemma log_irq_frame [simp]:
  "g_paused (log_irq h i c b) = g_paused b" "g_saved_mepc (log_irq h i c b) = g_saved_mepc b"
  "counter_val (log_irq h i c b) = counter_val b"
  by (simp_all add: log_irq_def)

lemma pmu_irq_eval:
  assumes "h < 4"
  shows "pmu_irq (cva_hw h) wfi h mepc (b, s) =
    (let ch = s_cnt s (of_nat h);
         b1 = (log_irq h (g_interrupt_count b ! h) (ucast (s_cycle s))
                (b\<lparr>g_interrupt_count := (g_interrupt_count b)[h := g_interrupt_count b ! h + 1]\<rparr>))
                \<lparr>counter_val := (counter_val b)[h := ch]\<rparr>
     in if is_pause_cmd ch then
          (b1\<lparr>g_saved_mepc := (g_saved_mepc b)[h := mepc], g_paused := (g_paused b)[h := 1]\<rparr>,
           (set_mepc h wfi s)\<lparr>s_cnt := (s_cnt s)(of_nat h := CVA_ACK_MASK)\<rparr>)
        else if is_resume_cmd ch then
          (b1\<lparr>g_paused := (g_paused b)[h := 0]\<rparr>,
           (set_mepc h (g_saved_mepc b ! h) s)\<lparr>s_cnt := (s_cnt s)(of_nat h := CVA_ACK_MASK)\<rparr>)
        else (b1, s))"
  using assms
  by (simp add: pmu_irq_def Let_def hw_laws read_32b_def write_32b_def set_mepc_def)

lemma take_irq_view:
  assumes "h < 4" "k < 4" "bench_wf (s_bench s)"
  shows "hart_view (take_irq wfi h claim s) k =
    (if k = h then obey wfi (claim = PMU_IRQ_CORE (of_nat h)) (hart_view s h) else hart_view s k)"
proof -
  have mcause: "drop_bit 63 (0x800000000000000B :: u64) = 1" "(0x800000000000000B :: u64) AND 0x7FF = 11"
    by simp_all
  show ?thesis
    using assms of_nat_4_inject [OF assms(2,1)]
    by (simp add: take_irq_def handle_trap_c_def hw_laws hartid_word mcause pmu_irq_eval unat_of_nat_4
        hart_view_def obey_def set_mepc_def bench_wf_def split_beta Let_def
        del: of_nat_eq_iff semiring_1_class.of_nat_simps)
qed

lemma take_irq_frame:
  assumes "h < 4"
  shows "s_sched (take_irq wfi h claim s) = s_sched s"
    "j \<noteq> of_nat h \<Longrightarrow> s_cnt (take_irq wfi h claim s) j = s_cnt s j"
    "bench_wf (s_bench (take_irq wfi h claim s)) = bench_wf (s_bench s)"
    "s_cycle (take_irq wfi h claim s) = s_cycle s"
    "0x10000000 \<le> uint a \<Longrightarrow> s_mem (take_irq wfi h claim s) (u32_to_addr a) = s_mem s (u32_to_addr a)"
proof -
  have mcause: "drop_bit 63 (0x800000000000000B :: u64) = 1" "(0x800000000000000B :: u64) AND 0x7FF = 11"
    by simp_all
  note evals = take_irq_def handle_trap_c_def hw_laws hartid_word mcause pmu_irq_eval [OF assms]
    unat_of_nat_4 set_mepc_def bench_wf_def split_beta Let_def
  show "s_sched (take_irq wfi h claim s) = s_sched s"
    "j \<noteq> of_nat h \<Longrightarrow> s_cnt (take_irq wfi h claim s) j = s_cnt s j"
    "bench_wf (s_bench (take_irq wfi h claim s)) = bench_wf (s_bench s)"
    "s_cycle (take_irq wfi h claim s) = s_cycle s"
    using assms by (simp_all add: evals)
  assume a: "0x10000000 \<le> uint a"
  have "uint (plic_claim_addr (PLIC_CONTEXT_CORE (of_nat h))) < 0x10000000"
    using less_4_cases [OF assms]
    by (auto simp: plic_claim_addr_def PLIC_CONTEXT_CORE_def plic_consts)
  with a have "u32_to_addr (plic_claim_addr (PLIC_CONTEXT_CORE (of_nat h))) \<noteq> u32_to_addr a"
    unfolding u32_to_addr_inject by auto
  then show "s_mem (take_irq wfi h claim s) (u32_to_addr a) = s_mem s (u32_to_addr a)"
    using assms by (simp add: evals)
qed

subsection \<open>Channel invariant\<close>

text \<open>
  \<open>chan_ok\<close>: the channel holds an acknowledgement, a pause command for a running core or a resume
  command for a paused one; a core is in \<open>wfi_loop\<close> exactly when its pause flag is set, and the
  program counter it will go back to is outside of it. \<open>goal\<close> is what the core does once it has
  obeyed the command in its channel.
\<close>

definition chan_ok :: "u64 \<Rightarrow> view \<Rightarrow> bool" where
  "chan_ok wfi = (\<lambda>(ch, pc, p, sv).
     (ch = CVA_ACK_MASK \<or> ch = CMD_PAUSE \<and> p = 0 \<or> ch = CMD_RESUME \<and> p = 1) \<and>
     (p = 0 \<or> p = 1) \<and> (in_wfi wfi pc \<longleftrightarrow> p = 1) \<and> (p = 1 \<longrightarrow> \<not> in_wfi wfi sv))"

definition goal :: "view \<Rightarrow> bool" where
  "goal = (\<lambda>(ch, pc, p, sv). if ch = CVA_ACK_MASK then p = 1 else ch = CMD_PAUSE)"

text \<open>Where the program of a core is: at its program counter, or where it was interrupted.\<close>

definition app_pc :: "view \<Rightarrow> u64" where
  "app_pc = (\<lambda>(ch, pc, p, sv). if p = 0 then pc else sv)"

lemma command_classes [simp]:
  "is_pause_cmd CMD_PAUSE" "\<not> is_pause_cmd CMD_RESUME" "\<not> is_pause_cmd CVA_ACK_MASK"
  "\<not> is_resume_cmd CMD_PAUSE" "is_resume_cmd CMD_RESUME" "\<not> is_resume_cmd CVA_ACK_MASK"
  "CMD_PAUSE \<noteq> CVA_ACK_MASK" "CMD_RESUME \<noteq> CVA_ACK_MASK" "CMD_PAUSE \<noteq> CMD_RESUME" "CMD_RESUME \<noteq> CMD_PAUSE"
  by (simp_all add: is_pause_cmd_def is_resume_cmd_def channel_defs)

lemma obey_chan_ok: "chan_ok wfi v \<Longrightarrow> chan_ok wfi (obey wfi own v)"
  by (cases v) (auto simp: chan_ok_def obey_def in_wfi_def)

lemma obey_goal: "chan_ok wfi v \<Longrightarrow> goal (obey wfi own v) = goal v"
  by (cases v) (auto simp: chan_ok_def obey_def goal_def)

lemma obey_app_pc: "chan_ok wfi v \<Longrightarrow> app_pc (obey wfi own v) = app_pc v"
  by (cases v) (auto simp: chan_ok_def obey_def app_pc_def)

lemma obey_acks: "chan_ok wfi v \<Longrightarrow> fst (obey wfi True v) = CVA_ACK_MASK"
  by (cases v) (auto simp: chan_ok_def obey_def)

lemma obey_acked: "fst v = CVA_ACK_MASK \<Longrightarrow> obey wfi own v = v"
  by (cases v) (auto simp: obey_def)

definition sys_ok :: "u64 \<Rightarrow> sys \<Rightarrow> bool" where
  "sys_ok wfi s \<longleftrightarrow> bench_wf (s_bench s) \<and> (\<forall>k < 4. chan_ok wfi (hart_view s k))"

text \<open>What the firmware knows between two accesses: the goals and the counters it owns.\<close>

definition knows :: "(nat \<Rightarrow> bool) \<Rightarrow> (u32 \<Rightarrow> u32) \<Rightarrow> sys \<Rightarrow> bool" where
  "knows G C s \<longleftrightarrow> (\<forall>k < 4. goal (hart_view s k) = G k) \<and> (\<forall>j \<ge> 20. s_cnt s j = C j)"

definition acked :: "nat \<Rightarrow> sys \<Rightarrow> bool" where
  "acked k s \<longleftrightarrow> s_cnt s (of_nat k) = CVA_ACK_MASK"

lemma hart_view_frame:
  "hart_view (s\<lparr>s_sched := q\<rparr>) k = hart_view s k"
  "hart_view (s\<lparr>s_mem := m\<rparr>) k = hart_view s k"
  "hart_view (s\<lparr>s_cycle := c\<rparr>) k = hart_view s k"
  "(\<forall>k < 4. of_nat k \<noteq> j) \<Longrightarrow> k < 4 \<Longrightarrow>
     hart_view (s\<lparr>s_cnt := (s_cnt s)(j := v)\<rparr>) k = hart_view s k"
  by (simp_all add: hart_view_def)

lemma of_nat_4_less: "k < 4 \<Longrightarrow> (of_nat k :: u32) < 4"
  by (drule less_4_cases) auto

lemma counter_ge_4: "4 \<le> (j :: u32) \<Longrightarrow> \<forall>k < 4. of_nat k \<noteq> j"
  using of_nat_4_less by (metis leD)

subsection \<open>The environment keeps the invariant\<close>

lemma step_act_keeps:
  assumes "sys_ok wfi s"
  shows "sys_ok wfi (step_act wfi a s)"
    and "knows G C s \<Longrightarrow> knows G C (step_act wfi a s)"
    and "k < 4 \<Longrightarrow> acked k s \<Longrightarrow> acked k (step_act wfi a s)"
proof -
  have wf: "bench_wf (s_bench s)" and ok: "\<And>k. k < 4 \<Longrightarrow> chan_ok wfi (hart_view s k)"
    using assms by (simp_all add: sys_ok_def)
  have "sys_ok wfi (step_act wfi a s) \<and> (knows G C s \<longrightarrow> knows G C (step_act wfi a s)) \<and>
      (k < 4 \<longrightarrow> acked k s \<longrightarrow> acked k (step_act wfi a s))"
  proof (cases a)
    case (Run h pc)
    have "\<And>k. k < 4 \<Longrightarrow> h < 4 \<Longrightarrow> in_wfi wfi pc = in_wfi wfi (h_pc (s_harts s h)) \<Longrightarrow>
        chan_ok wfi (hart_view (s\<lparr>s_harts := (s_harts s)(h := (s_harts s h)\<lparr>h_pc := pc\<rparr>)\<rparr>) k)"
      using ok by (auto simp: hart_view_def chan_ok_def)
    then show ?thesis using Run assms
      by (auto simp: sys_ok_def knows_def acked_def hart_view_def goal_def)
  next
    case (Irq h claim)
    have view: "h < 4 \<Longrightarrow> k < 4 \<Longrightarrow> hart_view (take_irq wfi h claim s) k =
      (if k = h then obey wfi (claim = PMU_IRQ_CORE (of_nat h)) (hart_view s h) else hart_view s k)" for k
      using wf by (simp add: take_irq_view)
    have "h < 4 \<Longrightarrow> sys_ok wfi (take_irq wfi h claim s)"
      using ok wf by (simp add: sys_ok_def take_irq_frame view obey_chan_ok)
    moreover have "h < 4 \<Longrightarrow> knows G C s \<Longrightarrow> knows G C (take_irq wfi h claim s)"
    proof -
      assume h: "h < 4" and kn: "knows G C s"
      have "of_nat h < (20 :: u32)" using of_nat_4_less [OF h] by (rule less_trans) simp
      then have "j \<ge> 20 \<Longrightarrow> s_cnt (take_irq wfi h claim s) j = s_cnt s j" for j
        by (intro take_irq_frame(2) [OF h]) auto
      then show "knows G C (take_irq wfi h claim s)"
        using h kn ok by (auto simp: knows_def view obey_goal)
    qed
    moreover have "h < 4 \<Longrightarrow> k < 4 \<Longrightarrow> acked k s \<Longrightarrow> acked k (take_irq wfi h claim s)"
    proof -
      assume h: "h < 4" and k: "k < 4" and ak: "acked k s"
      have "fst (hart_view (take_irq wfi h claim s) k) = CVA_ACK_MASK"
        using view [OF h k] ak by (auto simp: obey_acked acked_def hart_view_def)
      then show "acked k (take_irq wfi h claim s)" by (simp add: acked_def hart_view_def)
    qed
    ultimately show ?thesis using Irq assms by simp
  next
    case (Traffic i v)
    have "4 \<le> i \<Longrightarrow> \<forall>k < 4. of_nat k \<noteq> i" by (rule counter_ge_4)
    then show ?thesis using Traffic assms
      by (auto simp: sys_ok_def knows_def acked_def hart_view_frame)
  qed
  then show "sys_ok wfi (step_act wfi a s)" "knows G C s \<Longrightarrow> knows G C (step_act wfi a s)"
    "k < 4 \<Longrightarrow> acked k s \<Longrightarrow> acked k (step_act wfi a s)" by simp_all
qed

lemma steps_keep:
  "sys_ok wfi s \<Longrightarrow> sys_ok wfi (fold (step_act wfi) as s) \<and>
     (knows G C s \<longrightarrow> knows G C (fold (step_act wfi) as s)) \<and>
     (k < 4 \<longrightarrow> acked k s \<longrightarrow> acked k (fold (step_act wfi) as s))"
proof (induction as arbitrary: s)
  case (Cons a as)
  have "sys_ok wfi (step_act wfi a s)" using Cons.prems by (rule step_act_keeps(1))
  from Cons.IH [OF this] show ?case
    using step_act_keeps(2,3) [OF Cons.prems] by auto
qed simp

lemma env_keeps:
  assumes "sys_ok wfi s"
  shows "sys_ok wfi (env wfi s)"
    and "knows G C s \<Longrightarrow> knows G C (env wfi s)"
    and "k < 4 \<Longrightarrow> acked k s \<Longrightarrow> acked k (env wfi s)"
proof -
  have "sys_ok wfi (env wfi s) \<and> (knows G C s \<longrightarrow> knows G C (env wfi s)) \<and>
      (k < 4 \<longrightarrow> acked k s \<longrightarrow> acked k (env wfi s))"
  proof (cases "s_sched s")
    case Nil
    with assms show ?thesis by (simp add: env_def)
  next
    case (Cons acts rest)
    have "sys_ok wfi (s\<lparr>s_sched := rest\<rparr>)" using assms by (simp add: sys_ok_def hart_view_frame)
    from steps_keep [OF this, of acts G C k] show ?thesis
      using Cons by (simp add: env_def knows_def acked_def hart_view_frame)
  qed
  then show "sys_ok wfi (env wfi s)" "knows G C s \<Longrightarrow> knows G C (env wfi s)"
    "k < 4 \<Longrightarrow> acked k s \<Longrightarrow> acked k (env wfi s)" by simp_all
qed


text \<open>The environment advances no clock and writes no data memory.\<close>

lemma step_act_frame:
  "s_cycle (step_act wfi a s) = s_cycle s"
  "0x10000000 \<le> uint x \<Longrightarrow> s_mem (step_act wfi a s) (u32_to_addr x) = s_mem s (u32_to_addr x)"
  by (cases a; simp add: take_irq_frame)+

lemma env_frame:
  "s_cycle (env wfi s) = s_cycle s"
  "0x10000000 \<le> uint x \<Longrightarrow> s_mem (env wfi s) (u32_to_addr x) = s_mem s (u32_to_addr x)"
proof -
  have "s_cycle (fold (step_act wfi) as s) = s_cycle s" for as and s :: sys
    by (induction as arbitrary: s) (simp_all add: step_act_frame)
  then show "s_cycle (env wfi s) = s_cycle s" by (simp add: env_def split: list.split)
  assume x: "0x10000000 \<le> uint x"
  have "s_mem (fold (step_act wfi) as s) (u32_to_addr x) = s_mem s (u32_to_addr x)" for as and s :: sys
    by (induction as arbitrary: s) (simp_all add: step_act_frame x)
  then show "s_mem (env wfi s) (u32_to_addr x) = s_mem s (u32_to_addr x)"
    by (simp add: env_def split: list.split)
qed

lemma step_act_counter: "20 \<le> j \<Longrightarrow> s_cnt (step_act wfi a s) j = s_cnt s j"
proof (cases a)
  case (Irq h claim)
  assume "20 \<le> j"
  have "h < 4 \<Longrightarrow> j \<noteq> of_nat h"
    using of_nat_4_less [of h] order_trans [OF _ \<open>20 \<le> j\<close>, of 4] by auto
  then show ?thesis using Irq by (simp add: take_irq_frame)
qed auto

lemma env_counter: "20 \<le> j \<Longrightarrow> s_cnt (env wfi s) j = s_cnt s j"
proof -
  assume j: "20 \<le> j"
  have "s_cnt (fold (step_act wfi) as s) j = s_cnt s j" for as and s :: sys
    by (induction as arbitrary: s) (simp_all add: step_act_counter j)
  then show ?thesis by (simp add: env_def split: list.split)
qed

subsection \<open>The interfaces of the composed system\<close>

text \<open>The cycle counter of the APMU core advances whatever the harts do.\<close>

interpretation apmu: advancing_cycles "pmu_hw wfi" "\<lambda>s. ucast (s_cycle s)" for wfi
proof
  fix s :: sys
  have step: "(ucast (s_cycle (env wfi s) + 500) :: u32) = ucast (s_cycle s) + 500"
    by (rule word_uint_eqI)
      (simp add: env_frame unsigned_ucast_eq take_bit_eq_mod uint_word_ariths mod_simps mod_mod_cancel)
  show "fst (read_mcycle (pmu_hw wfi) s) = ucast (s_cycle s)"
    by (simp add: read_mcycle_def pmu_hw_def Let_def env_frame)
  have "ucast (s_cycle (snd (read_mcycle (pmu_hw wfi) s))) - (ucast (s_cycle s) :: u32) = 500"
    using step by (simp add: read_mcycle_def pmu_hw_def Let_def)
  then show "1 \<le> uint (ucast (s_cycle (snd (read_mcycle (pmu_hw wfi) s))) - (ucast (s_cycle s) :: u32))"
    "uint (ucast (s_cycle (snd (read_mcycle (pmu_hw wfi) s))) - (ucast (s_cycle s) :: u32)) \<le> 2 ^ 31"
    by simp_all
qed

text \<open>What a hart stores it reads back, everywhere but at its own claim register.\<close>

definition plain_addresses :: "nat \<Rightarrow> u64 set" where
  "plain_addresses h = {a. a \<noteq> u32_to_addr (plic_claim_addr (PLIC_CONTEXT_CORE (of_nat h)))}"

lemma counter_index_unique:
  "counter_index a = Some i \<Longrightarrow> counter_index b = Some i \<Longrightarrow> a = b"
  unfolding counter_index_def by (auto simp: find_Some_iff)

lemma read_write_word: "read_word (write_word a v s) b = (if b = a then v else read_word s b)"
  by (auto simp: read_word_def write_word_def split: option.splits dest: counter_index_unique)

interpretation hart: word_store "cva_hw h" "plain_addresses h" read_word for h
  by unfold_locales (auto simp: cva_hw_def plain_addresses_def read_write_word)

end
