(* ===== verification/Iopmp.thy ===== *)
theory Iopmp
  imports Prelude
begin

text \<open>
  The I/O physical memory protection unit, \<open>inc/iopmp.c\<close> and \<open>inc/iopmp.h\<close>: which bus masters may
  reach which regions. A master's source-command word lists the memory domains it belongs to, the
  domain configuration says which entries a domain has, and an entry is a protected region: an
  address register and a mode (top of range, or a naturally aligned power of two). The encoding of
  regions is proved against its decoding.
\<close>

subsection \<open>Registers and flags\<close>

definition MODE_OFF :: u64 where "MODE_OFF = 0"
definition MODE_TOR :: u64 where "MODE_TOR = push_bit 3 1"
definition MODE_NA :: u64 where "MODE_NA = push_bit 3 2"
definition MODE_NA4 :: u64 where "MODE_NA4 = push_bit 3 2"
definition MODE_NAPOT :: u64 where "MODE_NAPOT = push_bit 3 3"

definition ACCESS_NONE :: u64 where "ACCESS_NONE = 0"
definition ACCESS_READ :: u64 where "ACCESS_READ = 1"
definition ACCESS_WRITE :: u64 where "ACCESS_WRITE = 2"
definition ACCESS_EXEC :: u64 where "ACCESS_EXEC = 4"

lemmas iopmp_flags = MODE_OFF_def MODE_TOR_def MODE_NA_def MODE_NA4_def MODE_NAPOT_def
  ACCESS_NONE_def ACCESS_READ_def ACCESS_WRITE_def ACCESS_EXEC_def

definition IOPMP_BASE_ADDR :: u64 where "IOPMP_BASE_ADDR = 0x50040000"
definition IOPMP_REG_ADDR :: "u64 \<Rightarrow> u64" where "IOPMP_REG_ADDR off = IOPMP_BASE_ADDR + off"
definition IOPMP_HWCFG0_OFFSET :: u64 where "IOPMP_HWCFG0_OFFSET = 0x8"
definition IOPMP_MDCFG_OFFSET :: u64 where "IOPMP_MDCFG_OFFSET = 0x800"
definition IOPMP_SRCMD_EN_OFFSET :: u64 where "IOPMP_SRCMD_EN_OFFSET = 0x1000"
definition IOPMP_ENTRY_ADDR_OFFSET :: u64 where "IOPMP_ENTRY_ADDR_OFFSET = 0x2000"
definition IOPMP_ENTRY_CFG_OFFSET :: u64 where "IOPMP_ENTRY_CFG_OFFSET = 0x2008"

lemmas iopmp_offsets = IOPMP_BASE_ADDR_def IOPMP_REG_ADDR_def IOPMP_HWCFG0_OFFSET_def
  IOPMP_MDCFG_OFFSET_def IOPMP_SRCMD_EN_OFFSET_def IOPMP_ENTRY_ADDR_OFFSET_def
  IOPMP_ENTRY_CFG_OFFSET_def

text \<open>The accessors of \<open>iopmp.h\<close>: a \<open>fence.i\<close> before every load and store.\<close>

definition read64 :: "'s hw \<Rightarrow> u64 \<Rightarrow> 's \<Rightarrow> u64 \<times> 's" where
  "read64 hw a s = rd64 hw a (fence hw s)"

definition read32 :: "'s hw \<Rightarrow> u64 \<Rightarrow> 's \<Rightarrow> u32 \<times> 's" where
  "read32 hw a s = rd32 hw a (fence hw s)"

definition write64 :: "'s hw \<Rightarrow> u64 \<Rightarrow> u64 \<Rightarrow> 's \<Rightarrow> 's" where
  "write64 hw a v s = wr64 hw a v (fence hw s)"

definition write32 :: "'s hw \<Rightarrow> u64 \<Rightarrow> u32 \<Rightarrow> 's \<Rightarrow> 's" where
  "write32 hw a v s = wr32 hw a v (fence hw s)"

text \<open>
  The fields of the error registers, as the macros \<open>REQ_INFO_*\<close> and \<open>REQ_ID_*\<close> extract them.
\<close>

definition REQ_INFO_IP_MASK :: "u32 \<Rightarrow> u32" where "REQ_INFO_IP_MASK v = v AND 0x1"
definition REQ_INFO_TTYPE_MASK :: "u32 \<Rightarrow> u32" where "REQ_INFO_TTYPE_MASK v = drop_bit 1 v AND 0x3"
definition REQ_INFO_ETYPE_MASK :: "u32 \<Rightarrow> u32" where "REQ_INFO_ETYPE_MASK v = drop_bit 4 v AND 0x7"
definition REQ_ID_SID :: "u32 \<Rightarrow> u32" where "REQ_ID_SID v = v AND 0xffff"
definition REQ_ID_EID :: "u32 \<Rightarrow> u32" where "REQ_ID_EID v = drop_bit 16 v AND 0xffff"

subsection \<open>Operations\<close>

definition enable_iopmp :: "'s hw \<Rightarrow> 's \<Rightarrow> 's" where
  "enable_iopmp hw = write32 hw (IOPMP_REG_ADDR IOPMP_HWCFG0_OFFSET) 0x80000000"

definition iopmp_srcmd_config :: "'s hw \<Rightarrow> u32 \<Rightarrow> u64 \<Rightarrow> u8 \<Rightarrow> 's \<Rightarrow> 's" where
  "iopmp_srcmd_config hw n mds_bmap lock =
     write64 hw (IOPMP_REG_ADDR IOPMP_SRCMD_EN_OFFSET + ucast (n * 32))
       (0 OR (push_bit 1 mds_bmap OR ucast (lock AND 1)))"

definition mdcfg_entry_config :: "'s hw \<Rightarrow> u16 \<Rightarrow> u8 \<Rightarrow> 's \<Rightarrow> 's" where
  "mdcfg_entry_config hw t entry_num s =
     (let entry_addr = IOPMP_REG_ADDR IOPMP_MDCFG_OFFSET + ucast entry_num * 4;
          s = write32 hw entry_addr (ucast t) s;
          (_, s) = read32 hw entry_addr s
      in s)"

definition iopmp_mdcfg_config :: "'s hw \<Rightarrow> u32 \<Rightarrow> u32 \<Rightarrow> 's \<Rightarrow> 's" where
  "iopmp_mdcfg_config hw n t =
     write32 hw (IOPMP_REG_ADDR IOPMP_MDCFG_OFFSET + ucast (n * 4)) t"

text \<open>
  The mode of an entry after the choice between four-byte and power-of-two regions, and the value of
  its address register. The shift of \<open>addrmask\<close> is defined in C for \<open>2 \<le> log2len < 66\<close>.
\<close>

definition entry_prot :: "u64 \<Rightarrow> u64 \<Rightarrow> u64" where
  "entry_prot prot log2len =
     (if prot AND MODE_NA \<noteq> 0 then prot OR (if log2len = 2 then MODE_NA4 else MODE_NAPOT) else prot)"

definition entry_pmpaddr :: "u64 \<Rightarrow> u64 \<Rightarrow> u64 \<Rightarrow> u64" where
  "entry_pmpaddr prot addr log2len =
     (if prot AND MODE_NAPOT = 0 then drop_bit 2 addr
      else let addrmask = push_bit (unat (log2len - 2)) 1 - 1
           in (drop_bit 2 addr AND NOT addrmask) OR drop_bit 1 addrmask)"

definition iopmp_entry_set :: "'s hw \<Rightarrow> u32 \<Rightarrow> u64 \<Rightarrow> u64 \<Rightarrow> u64 \<Rightarrow> 's \<Rightarrow> 's" where
  "iopmp_entry_set hw n prot addr log2len s =
     (let prot = entry_prot prot log2len;
          s = write32 hw (IOPMP_REG_ADDR IOPMP_ENTRY_CFG_OFFSET + ucast (n * 16)) (ucast prot) s
      in write64 hw (IOPMP_REG_ADDR IOPMP_ENTRY_ADDR_OFFSET + ucast (n * 16))
           (entry_pmpaddr prot addr log2len) s)"

definition entry_config :: "'s hw \<Rightarrow> u64 \<Rightarrow> u8 \<Rightarrow> u8 \<Rightarrow> u16 \<Rightarrow> 's \<Rightarrow> 's" where
  "entry_config hw addr mode acc entry_num s =
     (let entry_addr = IOPMP_REG_ADDR IOPMP_ENTRY_ADDR_OFFSET + ucast entry_num * 16;
          s = write64 hw entry_addr (drop_bit 2 addr) s;
          (_, s) = read64 hw entry_addr s;
          config = push_bit 3 (ucast mode AND 0x3) + (ucast acc AND 0x7)
      in write32 hw (IOPMP_REG_ADDR IOPMP_ENTRY_CFG_OFFSET + ucast entry_num * 16) config s)"

definition set_entry_tor :: "'s hw \<Rightarrow> u64 \<Rightarrow> u8 \<Rightarrow> u16 \<Rightarrow> 's \<Rightarrow> 's" where
  "set_entry_tor hw base acc entry_num =
     iopmp_entry_set hw (ucast entry_num) (MODE_TOR OR ucast acc) base 2"

definition set_entry_off :: "'s hw \<Rightarrow> u64 \<Rightarrow> u8 \<Rightarrow> u16 \<Rightarrow> 's \<Rightarrow> 's" where
  "set_entry_off hw base acc entry_num =
     iopmp_entry_set hw (ucast entry_num) MODE_OFF base 2"

text \<open>The memory domains of a master as a bit set; a domain number is below 16.\<close>

definition md_value :: "u16 list \<Rightarrow> u32" where
  "md_value mds = fold (\<lambda>md v. v OR push_bit (unat md) 1) mds 0"

definition srcmd_entry_config :: "'s hw \<Rightarrow> u16 list \<Rightarrow> u8 \<Rightarrow> u8 \<Rightarrow> u8 \<Rightarrow> 's \<Rightarrow> 's" where
  "srcmd_entry_config hw mds number_mds lock entry_num s =
     (let entry_addr = IOPMP_REG_ADDR IOPMP_SRCMD_EN_OFFSET + ucast entry_num * 32;
          config = push_bit 1 (md_value (take (unat number_mds) mds)) + (ucast lock AND 1);
          s = write32 hw entry_addr config s;
          (_, s) = read32 hw entry_addr s
      in s)"

subsection \<open>Regions\<close>

text \<open>
  What the unit reads from an address register in the power-of-two mode: the ones at the low end
  give the length.
\<close>

definition napot_mask :: "u64 \<Rightarrow> u64" where "napot_mask p = p XOR (p + 1)"
definition napot_base :: "u64 \<Rightarrow> u64" where "napot_base p = push_bit 2 (p AND NOT (napot_mask p))"
definition napot_length :: "u64 \<Rightarrow> u64" where "napot_length p = push_bit 2 (napot_mask p + 1)"

lemma mask_word: "push_bit k 1 - 1 = (mask k :: u64)"
  by (simp add: mask_eq_exp_minus_1 push_bit_eq_mult)

lemma drop_bit_mask: "drop_bit 1 (mask (Suc k)) = (mask k :: u64)" if "k < 63"
  using that by (intro bit_word_eqI) (auto simp: bit_simps)

lemma trailing_ones:
  fixes x :: u64
  assumes "k < 63" "x AND mask (Suc k) = 0"
  shows "(x OR mask k) XOR ((x OR mask k) + 1) = mask (Suc k)"
proof -
  have low: "\<not> bit x n" if "n < Suc k" for n
  proof
    assume "bit x n"
    with that assms(1) have "bit (x AND mask (Suc k)) n" by (simp add: bit_simps)
    then show False unfolding assms(2) by simp
  qed
  have "x + mask k = x OR mask k"
    by (rule disjunctive_add) (use low in \<open>auto simp: bit_simps\<close>)
  then have "(x OR mask k) + 1 = x + (mask k + 1)" by (simp flip: add.assoc)
  also have "mask k + 1 = push_bit k (1 :: u64)"
    by (simp add: mask_eq_exp_minus_1 push_bit_eq_mult)
  also have "x + push_bit k 1 = x OR push_bit k 1"
  proof (rule disjunctive_add)
    fix n show "\<not> bit x n \<or> \<not> bit (push_bit k (1 :: u64)) n"
      using low [of k] by (auto simp: bit_simps bit_1_iff)
  qed
  finally have "(x OR mask k) + 1 = x OR push_bit k 1" .
  then show ?thesis
    using low assms(1) by (intro bit_word_eqI) (auto simp: bit_simps bit_1_iff)
qed

text \<open>The mode flags survive the choice of the mode, whatever the access rights.\<close>

lemma napot_selected:
  assumes "prot AND MODE_NA \<noteq> 0" shows "entry_prot prot log2len AND MODE_NAPOT \<noteq> 0"
proof
  assume 0: "entry_prot prot log2len AND MODE_NAPOT = 0"
  have "prot AND MODE_NA = 0"
  proof (rule bit_word_eqI)
    fix n :: nat
    have "\<not> bit (entry_prot prot log2len AND MODE_NAPOT) n" unfolding 0 by simp
    moreover have "n = 4 \<Longrightarrow> bit (MODE_NAPOT) n" by (simp add: MODE_NAPOT_def)
    moreover have "bit MODE_NA n \<Longrightarrow> n = 4"
      by (simp add: MODE_NA_def bit_push_bit_iff bit_numeral_rec bit_1_iff split: nat.splits)
    moreover have "bit prot n \<Longrightarrow> bit (entry_prot prot log2len) n"
      by (simp add: entry_prot_def bit_or_iff)
    ultimately show "bit (prot AND MODE_NA) n = bit 0 n" by (auto simp: bit_and_iff)
  qed
  with assms show False by simp
qed

lemma entry_pmpaddr_napot:
  assumes "prot AND MODE_NAPOT \<noteq> 0" "3 \<le> unat log2len" "unat log2len < 66"
  shows "entry_pmpaddr prot addr log2len =
    (drop_bit 2 addr AND NOT (mask (unat log2len - 2))) OR mask (unat log2len - 3)"
proof -
  define k where "k = unat log2len - 3"
  have k: "unat log2len = k + 3" "k < 63" using assms(2,3) by (simp_all add: k_def)
  have "2 \<le> log2len" using k(1) by (simp add: word_le_nat_alt)
  then have n: "unat (log2len - 2) = Suc k" using k(1) by (simp add: unat_sub)
  show ?thesis
    using assms(1) unfolding entry_pmpaddr_def n mask_word Let_def drop_bit_mask [OF k(2)]
    by (simp add: k(1))
qed

text \<open>
  The region of an entry set with a power-of-two mode, as the unit decodes it, is the requested one
  when the base is aligned to the length.
\<close>

lemma napot_region:
  assumes "prot AND MODE_NAPOT \<noteq> 0" "3 \<le> unat log2len" "unat log2len < 64"
    "addr AND mask (unat log2len) = 0"
  shows "napot_base (entry_pmpaddr prot addr log2len) = addr"
    "napot_length (entry_pmpaddr prot addr log2len) = push_bit (unat log2len) 1"
proof -
  define k where "k = unat log2len - 3"
  have k: "unat log2len = k + 3" "k < 61" using assms(2,3) by (simp_all add: k_def)
  have low: "\<not> bit addr n" if "n < k + 3" for n
  proof
    assume "bit addr n"
    with that k have "bit (addr AND mask (unat log2len)) n" by (simp add: bit_simps)
    then show False unfolding assms(4) by simp
  qed
  let ?x = "drop_bit 2 addr"
  have "?x AND mask (Suc k) = 0"
    by (rule bit_word_eqI) (use low in \<open>auto simp: bit_simps\<close>)
  then have x: "?x AND NOT (mask (k + 1)) = ?x" "?x AND mask (Suc k) = 0"
    by (auto intro!: bit_word_eqI simp: bit_simps) (use low in auto)
  have p: "entry_pmpaddr prot addr log2len = ?x OR mask k"
    using assms(1-3) x(1) by (simp add: entry_pmpaddr_napot k(1))
  have m: "napot_mask (?x OR mask k) = mask (Suc k)"
    unfolding napot_mask_def using k(2) x(2) by (intro trailing_ones) auto
  show "napot_base (entry_pmpaddr prot addr log2len) = addr"
    unfolding p napot_base_def m
  proof (rule bit_word_eqI)
    fix n assume "n < LENGTH(64)"
    then show "bit (push_bit 2 ((?x OR mask k) AND NOT (mask (Suc k)))) n = bit addr n"
    proof (cases "n < 2")
      case True
      then show ?thesis using low [of n] by (auto simp: bit_simps)
    next
      case False
      then obtain j where "n = Suc (Suc j)" by (metis add_2_eq_Suc le_iff_add linorder_not_less)
      then show ?thesis using low [of n] k(2) \<open>n < LENGTH(64)\<close> by (auto simp: bit_simps)
    qed
  qed
  have "push_bit 2 (mask (Suc k) + 1 :: u64) = push_bit (k + 3) 1"
    by (simp add: mask_eq_exp_minus_1 push_bit_eq_mult power_add)
  then show "napot_length (entry_pmpaddr prot addr log2len) = push_bit (unat log2len) 1"
    unfolding p napot_length_def m k(1) .
qed

text \<open>A bound of the top-of-range mode is stored as it is; the flag test of the code picks the
  other branch, whose mask is empty for \<open>log2len = 2\<close>.\<close>

lemma entry_pmpaddr_two: "entry_pmpaddr prot addr 2 = drop_bit 2 addr"
  by (simp add: entry_pmpaddr_def)

lemma bit_md_value:
  assumes "n < 32"
  shows "bit (md_value mds) n \<longleftrightarrow> (\<exists>md \<in> set mds. unat md = n)"
proof -
  have "bit (fold (\<lambda>md v. v OR push_bit (unat md) 1) mds v) n \<longleftrightarrow>
      bit v n \<or> (\<exists>md \<in> set mds. unat md = n)" for v :: u32
    using assms by (induction mds arbitrary: v) (auto simp: bit_simps bit_1_iff)
  then show ?thesis by (simp add: md_value_def)
qed

end
