(* ===== verification/Soc_Drivers.thy ===== *)
theory Soc_Drivers
  imports Plic
begin

text \<open>
  The small drivers of the SoC: clocks, DMA, TLB and timer (\<open>inc/utils.c\<close>), last-level cache counters
  (\<open>inc/llc.c\<close>) and configuration (\<open>inc/drivers/src/axi_llc_reg32.c\<close>), the UART
  (\<open>inc/drivers/src/uart.c\<close>) and the advanced interrupt controller (\<open>inc/aplic.c\<close>). All of them
  are sequences of register accesses; a loop that waits for a device is \<open>None\<close> when the device
  never answers.
\<close>

subsection \<open>Utilities (\<open>utils.c\<close>)\<close>

definition lfsr :: "u64 \<Rightarrow> u64" where
  "lfsr x = (let b = (x XOR drop_bit 1 x) AND 1 in drop_bit 1 x OR push_bit 62 b)"

text \<open>Without \<open>FLL_DRIVER\<close>.\<close>

definition set_flls :: "'s hw \<Rightarrow> 's \<Rightarrow> 's" where
  "set_flls hw s =
     (let s = pulp_write32 hw 0x1A10002C 0x00020202 s;
          s = pulp_write32 hw 0x1A100010 0x25C350 s;
          s = pulp_write32 hw 0x1A100030 0x11 s;
          s = pulp_write32 hw 0x1A10000C 0x40030A73 s
      in pulp_write32 hw 0x1A100030 0x1111 s)"

definition FIRST_VA_LSW :: u32 where "FIRST_VA_LSW = 0x00"
definition FIRST_VA_MSW :: u32 where "FIRST_VA_MSW = 0x04"
definition LAST_VA_LSW :: u32 where "LAST_VA_LSW = 0x08"
definition LAST_VA_MSW :: u32 where "LAST_VA_MSW = 0x0C"
definition BASE_PA_LSW :: u32 where "BASE_PA_LSW = 0x10"
definition BASE_PA_MSW :: u32 where "BASE_PA_MSW = 0x14"
definition FLAGS :: u32 where "FLAGS = 0x18"

definition high_half :: "u64 \<Rightarrow> u32" where
  "high_half v = ucast (drop_bit 32 (v AND 0xFFFFFFFF00000000))"

definition low_half :: "u64 \<Rightarrow> u32" where
  "low_half v = ucast (v AND 0x00000000FFFFFFFF)"

definition tlb_cfg :: "'s hw \<Rightarrow> u32 \<Rightarrow> u32 \<Rightarrow> u64 \<Rightarrow> u64 \<Rightarrow> u64 \<Rightarrow> u8 \<Rightarrow> 's \<Rightarrow> 's" where
  "tlb_cfg hw tlb_addr entry_idx first_va last_va base_pa flags s =
     (let entry_addr = tlb_addr + 0x1C * entry_idx;
          s = pulp_write32 hw (entry_addr + FIRST_VA_LSW) (high_half first_va) s;
          s = pulp_write32 hw (entry_addr + FIRST_VA_MSW) (low_half first_va) s;
          s = pulp_write32 hw (entry_addr + LAST_VA_LSW) (high_half last_va) s;
          s = pulp_write32 hw (entry_addr + LAST_VA_MSW) (low_half last_va) s;
          s = pulp_write32 hw (entry_addr + BASE_PA_LSW) (high_half base_pa) s;
          s = pulp_write32 hw (entry_addr + BASE_PA_MSW) (low_half base_pa) s
      in pulp_write32 hw (entry_addr + FLAGS) (ucast flags) s)"

definition CL_DMA_BASE :: u32 where "CL_DMA_BASE = 0x10201800"
definition SRC_LOW_OFFS :: u32 where "SRC_LOW_OFFS = 0x00"
definition SRC_HIGH_OFFS :: u32 where "SRC_HIGH_OFFS = 0x04"
definition DST_LOW_OFFS :: u32 where "DST_LOW_OFFS = 0x08"
definition DST_HIGH_OFFS :: u32 where "DST_HIGH_OFFS = 0x0C"
definition TRNF_LEN_OFFS :: u32 where "TRNF_LEN_OFFS = 0x10"
definition TRNF_ID_OFFS :: u32 where "TRNF_ID_OFFS = 0x20"
definition DONE_ID_OFFS :: u32 where "DONE_ID_OFFS = 0x28"

definition dma_h2c_trnf_cfg :: "'s hw \<Rightarrow> u64 \<Rightarrow> u32 \<Rightarrow> u32 \<Rightarrow> 's \<Rightarrow> u32 \<times> 's" where
  "dma_h2c_trnf_cfg hw src dst dim s =
     (let s = pulp_write32 hw (CL_DMA_BASE + SRC_LOW_OFFS) (ucast src) s;
          s = pulp_write32 hw (CL_DMA_BASE + SRC_HIGH_OFFS) (ucast (drop_bit 32 src)) s;
          s = pulp_write32 hw (CL_DMA_BASE + DST_LOW_OFFS) dst s;
          s = pulp_write32 hw (CL_DMA_BASE + DST_HIGH_OFFS) 0x00000000 s;
          s = pulp_write32 hw (CL_DMA_BASE + TRNF_LEN_OFFS) dim s
      in pulp_read32 hw (CL_DMA_BASE + TRNF_ID_OFFS) s)"

definition dma_c2h_trnf_cfg :: "'s hw \<Rightarrow> u32 \<Rightarrow> u64 \<Rightarrow> u32 \<Rightarrow> 's \<Rightarrow> u32 \<times> 's" where
  "dma_c2h_trnf_cfg hw src dst dim s =
     (let s = pulp_write32 hw (CL_DMA_BASE + SRC_LOW_OFFS) src s;
          s = pulp_write32 hw (CL_DMA_BASE + SRC_HIGH_OFFS) 0x00000000 s;
          s = pulp_write32 hw (CL_DMA_BASE + DST_LOW_OFFS) (ucast dst) s;
          s = pulp_write32 hw (CL_DMA_BASE + DST_HIGH_OFFS) (ucast (drop_bit 32 dst)) s;
          s = pulp_write32 hw (CL_DMA_BASE + TRNF_LEN_OFFS) dim s
      in pulp_read32 hw (CL_DMA_BASE + TRNF_ID_OFFS) s)"

definition dma_wait_trnf_done :: "'s hw \<Rightarrow> u32 \<Rightarrow> 's \<Rightarrow> 's option" where
  "dma_wait_trnf_done hw trnf_id s =
     map_option snd (poll_until (pulp_read32 hw (CL_DMA_BASE + DONE_ID_OFFS)) (\<lambda>v. \<not> v \<le> trnf_id) s)"

definition apb_timer_start :: "'s hw \<Rightarrow> 's \<Rightarrow> 's" where
  "apb_timer_start hw s = pulp_write32 hw 0x18000004 1 (pulp_write32 hw 0x18000000 0 s)"

definition apb_timer_get :: "'s hw \<Rightarrow> 's \<Rightarrow> u32 \<times> 's" where
  "apb_timer_get hw = pulp_read32 hw 0x18000000"

subsection \<open>Last-level cache counters (\<open>llc.c\<close>)\<close>

definition LLC_REG_CYCLE_CNT :: u32 where "LLC_REG_CYCLE_CNT = 0x0"
definition LLC_REG_READ_MISS :: u32 where "LLC_REG_READ_MISS = 0x4"
definition LLC_REG_READ_HIT :: u32 where "LLC_REG_READ_HIT = 0x8"
definition LLC_REG_WRITE_MISS :: u32 where "LLC_REG_WRITE_MISS = 0xC"
definition LLC_REG_WRITE_HIT :: u32 where "LLC_REG_WRITE_HIT = 0x10"

text \<open>Only the first register can be written: any other one is refused with \<open>-1\<close>.\<close>

definition write_llc_reg :: "'s hw \<Rightarrow> u32 \<Rightarrow> u32 \<Rightarrow> 's \<Rightarrow> int \<times> 's" where
  "write_llc_reg hw reg v s =
     (if reg > 0 then (- 1, s) else (0, wr32 hw (u32_to_addr (0x1A106004 + reg)) v s))"

definition read_llc_reg :: "'s hw \<Rightarrow> u32 \<Rightarrow> 's \<Rightarrow> u32 \<times> 's" where
  "read_llc_reg hw reg = rd32 hw (u32_to_addr (0x1A106004 + reg))"

definition disable_llc_counters :: "'s hw \<Rightarrow> 's \<Rightarrow> 's" where
  "disable_llc_counters hw s = snd (write_llc_reg hw LLC_REG_CYCLE_CNT 0 s)"

definition enable_llc_counters :: "'s hw \<Rightarrow> 's \<Rightarrow> 's" where
  "enable_llc_counters hw s = snd (write_llc_reg hw LLC_REG_CYCLE_CNT 1 s)"

definition get_llc_hit :: "'s hw \<Rightarrow> 's \<Rightarrow> u32 \<times> 's" where
  "get_llc_hit hw s =
     (let (a, s) = read_llc_reg hw LLC_REG_READ_HIT s; (b, s) = read_llc_reg hw LLC_REG_WRITE_HIT s
      in (a + b, s))"

definition get_llc_miss :: "'s hw \<Rightarrow> 's \<Rightarrow> u32 \<times> 's" where
  "get_llc_miss hw s =
     (let (a, s) = read_llc_reg hw LLC_REG_READ_MISS s; (b, s) = read_llc_reg hw LLC_REG_WRITE_MISS s
      in (a + b, s))"

subsection \<open>Last-level cache configuration (\<open>axi_llc_reg32.c\<close>)\<close>

definition set_reg_64 :: "'s hw \<Rightarrow> u64 \<Rightarrow> u64 \<Rightarrow> u32 \<Rightarrow> u32 \<Rightarrow> 's \<Rightarrow> 's" where
  "set_reg_64 hw v base low_off high_off s =
     wr32 hw (base + ucast high_off) (ucast (drop_bit 32 v)) (wr32 hw (base + ucast low_off) (ucast v) s)"

definition get_reg_64 :: "'s hw \<Rightarrow> u64 \<Rightarrow> u32 \<Rightarrow> u32 \<Rightarrow> 's \<Rightarrow> u64 \<times> 's" where
  "get_reg_64 hw base low_off high_off s =
     (let (hi, s) = rd32 hw (base + ucast high_off) s; (lo, s) = rd32 hw (base + ucast low_off) s
      in (push_bit 32 (ucast hi) OR ucast lo, s))"

definition axi_llc_reg32_set_spm :: "'s hw \<Rightarrow> u64 \<Rightarrow> u64 \<Rightarrow> 's \<Rightarrow> 's" where
  "axi_llc_reg32_set_spm hw v base = set_reg_64 hw v base 0x0 0x4"

definition axi_llc_reg32_set_flush :: "'s hw \<Rightarrow> u64 \<Rightarrow> u64 \<Rightarrow> 's \<Rightarrow> 's" where
  "axi_llc_reg32_set_flush hw v base = set_reg_64 hw v base 0x8 0xc"

definition axi_llc_reg32_get_spm :: "'s hw \<Rightarrow> u64 \<Rightarrow> 's \<Rightarrow> u64 \<times> 's" where
  "axi_llc_reg32_get_spm hw base = get_reg_64 hw base 0x0 0x4"

definition axi_llc_reg32_get_flush :: "'s hw \<Rightarrow> u64 \<Rightarrow> 's \<Rightarrow> u64 \<times> 's" where
  "axi_llc_reg32_get_flush hw base = get_reg_64 hw base 0x8 0xc"

text \<open>Flushed ways, self-test result, associativity, lines, blocks and version, all read only.\<close>

definition axi_llc_reg32_get_flushed :: "'s hw \<Rightarrow> u64 \<Rightarrow> 's \<Rightarrow> u64 \<times> 's" where
  "axi_llc_reg32_get_flushed hw base = get_reg_64 hw base 0x10 0x14"
definition axi_llc_reg32_get_bist_out :: "'s hw \<Rightarrow> u64 \<Rightarrow> 's \<Rightarrow> u64 \<times> 's" where
  "axi_llc_reg32_get_bist_out hw base = get_reg_64 hw base 0x18 0x1c"
definition axi_llc_reg32_get_set_asso :: "'s hw \<Rightarrow> u64 \<Rightarrow> 's \<Rightarrow> u64 \<times> 's" where
  "axi_llc_reg32_get_set_asso hw base = get_reg_64 hw base 0x20 0x24"
definition axi_llc_reg32_get_num_lines :: "'s hw \<Rightarrow> u64 \<Rightarrow> 's \<Rightarrow> u64 \<times> 's" where
  "axi_llc_reg32_get_num_lines hw base = get_reg_64 hw base 0x28 0x2c"
definition axi_llc_reg32_get_num_blocks :: "'s hw \<Rightarrow> u64 \<Rightarrow> 's \<Rightarrow> u64 \<times> 's" where
  "axi_llc_reg32_get_num_blocks hw base = get_reg_64 hw base 0x30 0x34"
definition axi_llc_reg32_get_version :: "'s hw \<Rightarrow> u64 \<Rightarrow> 's \<Rightarrow> u64 \<times> 's" where
  "axi_llc_reg32_get_version hw base = get_reg_64 hw base 0x38 0x3c"

definition axi_llc_reg32_all_cache :: "'s hw \<Rightarrow> u64 \<Rightarrow> 's \<Rightarrow> 's" where
  "axi_llc_reg32_all_cache hw base = axi_llc_reg32_set_spm hw 0 base"
definition axi_llc_reg32_all_spm :: "'s hw \<Rightarrow> u64 \<Rightarrow> 's \<Rightarrow> 's" where
  "axi_llc_reg32_all_spm hw base = axi_llc_reg32_set_spm hw (- 1) base"
definition axi_llc_reg32_flush_all :: "'s hw \<Rightarrow> u64 \<Rightarrow> 's \<Rightarrow> 's" where
  "axi_llc_reg32_flush_all hw base = axi_llc_reg32_set_flush hw (- 1) base"

subsection \<open>UART (\<open>uart.c\<close>)\<close>

text \<open>The register base on the FPGA; a simulation build has \<open>0x1A222000\<close>.\<close>

definition UART_BASE_ADDR :: u64 where "UART_BASE_ADDR = 0x40000000"
definition UART_REG_RBR :: u64 where "UART_REG_RBR = UART_BASE_ADDR + 0x00"
definition UART_REG_DLL :: u64 where "UART_REG_DLL = UART_BASE_ADDR + 0x00"
definition UART_REG_THR :: u64 where "UART_REG_THR = UART_BASE_ADDR + 0x00"
definition UART_REG_DLM :: u64 where "UART_REG_DLM = UART_BASE_ADDR + 0x04"
definition UART_REG_IER :: u64 where "UART_REG_IER = UART_BASE_ADDR + 0x04"
definition UART_REG_FCR :: u64 where "UART_REG_FCR = UART_BASE_ADDR + 0x08"
definition UART_REG_LCR :: u64 where "UART_REG_LCR = UART_BASE_ADDR + 0x0C"
definition UART_REG_LSR :: u64 where "UART_REG_LSR = UART_BASE_ADDR + 0x14"
definition UART_FIFO_DEPTH :: nat where "UART_FIFO_DEPTH = 64"

definition uart_set_cfg :: "'s hw \<Rightarrow> u16 \<Rightarrow> 's \<Rightarrow> 's" where
  "uart_set_cfg hw clk_counter s =
     (let s = wr32 hw UART_REG_LCR 0x83 s;
          s = wr32 hw UART_REG_DLM (ucast (drop_bit 8 clk_counter) AND 0xFF) s;
          s = wr32 hw UART_REG_DLL (ucast clk_counter AND 0xFF) s;
          s = wr32 hw UART_REG_FCR 0xA7 s;
          s = wr32 hw UART_REG_LCR 0x03 s;
          (ier, s) = rd32 hw UART_REG_IER s
      in wr32 hw UART_REG_IER ((ier AND 0xF0) OR 0x02) s)"

definition uart_sim_cfg :: "'s hw \<Rightarrow> 's \<Rightarrow> 's" where
  "uart_sim_cfg hw = uart_set_cfg hw (of_nat ((50000000 div 115200) div 16))"

text \<open>
  A \<open>char\<close> is unsigned on RISC-V, so a character is stored as its 8-bit value. \<open>uart_send\<close> waits for
  room once per batch of \<open>UART_FIFO_DEPTH\<close> characters.
\<close>

definition tx_ready :: "u32 \<Rightarrow> bool" where "tx_ready lsr \<longleftrightarrow> lsr AND 0x20 \<noteq> 0"

definition send_batch :: "'s hw \<Rightarrow> u8 list \<Rightarrow> 's \<Rightarrow> 's" where
  "send_batch hw = fold (\<lambda>c. wr32 hw UART_REG_THR (ucast c))"

function uart_send :: "'s hw \<Rightarrow> u8 list \<Rightarrow> 's \<Rightarrow> 's option" where
  "uart_send hw str s =
     (if str = [] then Some s
      else do {
        (_, s) \<leftarrow> poll_until (rd32 hw UART_REG_LSR) tx_ready s;
        uart_send hw (drop UART_FIFO_DEPTH str) (send_batch hw (take UART_FIFO_DEPTH str) s) })"
  by pat_completeness auto
termination by (relation "measure (\<lambda>(hw, str, s). length str)") (auto simp: UART_FIFO_DEPTH_def)

declare uart_send.simps [simp del]

definition uart_getchar :: "'s hw \<Rightarrow> 's \<Rightarrow> (u8 \<times> 's) option" where
  "uart_getchar hw s = do {
     (_, s) \<leftarrow> poll_until (rd32 hw UART_REG_LSR) (\<lambda>lsr. lsr AND 0x1 = 0x1) s;
     let (v, s) = rd32 hw UART_REG_RBR s;
     Some (ucast v, s) }"

definition uart_sendchar :: "'s hw \<Rightarrow> u8 \<Rightarrow> 's \<Rightarrow> 's option" where
  "uart_sendchar hw c s = do {
     (_, s) \<leftarrow> poll_until (rd32 hw UART_REG_LSR) tx_ready s;
     Some (wr32 hw UART_REG_THR (ucast c) s) }"

definition uart_wait_tx_done :: "'s hw \<Rightarrow> 's \<Rightarrow> 's option" where
  "uart_wait_tx_done hw s =
     map_option snd (poll_until (rd32 hw UART_REG_LSR) (\<lambda>lsr. lsr AND 0x40 \<noteq> 0) s)"

subsection \<open>Advanced interrupt controller (\<open>aplic.c\<close>)\<close>

definition EDGE1 :: u32 where "EDGE1 = 4"
definition APLICM_ADDR :: u32 where "APLICM_ADDR = 0xc000000"
definition DOMAIN_OFF :: u32 where "DOMAIN_OFF = 0"
definition SOURCECFG_OFF :: u32 where "SOURCECFG_OFF = 0x4"
definition SETIPNUM_OFF :: u32 where "SETIPNUM_OFF = 0x1CDC"
definition SETIENUM_OFF :: u32 where "SETIENUM_OFF = 0x1EDC"
definition TARGET_OFF :: u32 where "TARGET_OFF = 0x3004"
definition CSR_MISELECT :: u32 where "CSR_MISELECT = 0x350"
definition CSR_MIREG :: u32 where "CSR_MIREG = 0x351"
definition CSR_MTOPEI :: u32 where "CSR_MTOPEI = 0x35c"
definition IMSIC_EIDELIVERY :: u64 where "IMSIC_EIDELIVERY = 0x70"
definition IMSIC_EITHRESHOLD :: u64 where "IMSIC_EITHRESHOLD = 0x72"
definition IMSIC_EIE :: u64 where "IMSIC_EIE = 0xC0"

definition config_intp :: "'s hw \<Rightarrow> u8 \<Rightarrow> 's \<Rightarrow> 's" where
  "config_intp hw intp_id s =
     pulp_write32 hw (APLICM_ADDR + SETIENUM_OFF) (ucast intp_id)
       (pulp_write32 hw (APLICM_ADDR + (SOURCECFG_OFF + 0x4 * (ucast intp_id - 1))) EDGE1 s)"

definition aplic_init :: "'s hw \<Rightarrow> 's \<Rightarrow> 's" where
  "aplic_init hw = pulp_write32 hw (APLICM_ADDR + DOMAIN_OFF) (push_bit 8 1 OR push_bit 2 1)"

definition aplic_trigger_intp :: "'s hw \<Rightarrow> u8 \<Rightarrow> 's \<Rightarrow> 's" where
  "aplic_trigger_intp hw intp_id = pulp_write32 hw (APLICM_ADDR + SETIPNUM_OFF) (ucast intp_id)"

text \<open>The shift \<open>1 << imsic_id\<close> is defined in C for an identity below 32.\<close>

definition imsic_en_intp :: "'s hw \<Rightarrow> u8 \<Rightarrow> u8 \<Rightarrow> u8 \<Rightarrow> 's \<Rightarrow> 's" where
  "imsic_en_intp hw intp_id imsic_id core_id s =
     (let s = pulp_write32 hw (APLICM_ADDR + (TARGET_OFF + 0x4 * (ucast intp_id - 1)))
                (push_bit 18 (ucast core_id) OR push_bit 12 0 OR ucast imsic_id) s;
          s = csr_wr hw CSR_MISELECT IMSIC_EIE s;
          (v, s) = csr_rd hw CSR_MIREG s;
          prev_val = ucast v :: u32
      in csr_wr hw CSR_MIREG (ucast (prev_val OR push_bit (unat imsic_id) 1)) s)"

definition config_irq_aplic :: "'s hw \<Rightarrow> u8 \<Rightarrow> u8 \<Rightarrow> u8 \<Rightarrow> 's \<Rightarrow> 's" where
  "config_irq_aplic hw intp_id imsic_id core_id s =
     imsic_en_intp hw intp_id imsic_id core_id (config_intp hw intp_id s)"

definition imsic_intp_arrive :: "'s hw \<Rightarrow> u8 \<Rightarrow> 's \<Rightarrow> (bool \<times> 's) option" where
  "imsic_intp_arrive hw intp_id s = do {
     (_, s) \<leftarrow> poll_until (csr_rd hw CSR_MTOPEI) (\<lambda>v. drop_bit 16 v = ucast intp_id) s;
     Some (True, csr_wr hw CSR_MTOPEI 0 s) }"

definition imsic_init :: "'s hw \<Rightarrow> 's \<Rightarrow> 's" where
  "imsic_init hw s =
     (let s = csr_wr hw CSR_MISELECT IMSIC_EIDELIVERY s;
          s = csr_wr hw CSR_MIREG 1 s;
          s = csr_wr hw CSR_MISELECT IMSIC_EITHRESHOLD s
      in csr_wr hw CSR_MIREG 0 s)"

definition aplic_reset :: "'s hw \<Rightarrow> u8 \<Rightarrow> 's \<Rightarrow> 's" where
  "aplic_reset hw irq_id s =
     (let s = csr_wr hw CSR_MTOPEI 0 s;
          s = csr_wr hw CSR_MISELECT 0 s;
          s = csr_wr hw CSR_MIREG 1 s;
          s = csr_wr hw CSR_MISELECT 0 s;
          s = csr_wr hw CSR_MIREG 0 s;
          s = pulp_write32 hw (APLICM_ADDR + DOMAIN_OFF) 0 s;
          s = pulp_write32 hw (APLICM_ADDR + (SOURCECFG_OFF + 0x4 * (ucast irq_id - 1))) 0 s;
          s = pulp_write32 hw (APLICM_ADDR + SETIENUM_OFF) 0 s;
          s = pulp_write32 hw (APLICM_ADDR + (TARGET_OFF + 0x4 * (ucast irq_id - 1))) 0 s;
          s = csr_wr hw CSR_MIREG 0 s
      in csr_wr hw CSR_MISELECT 0 s)"

subsection \<open>Lemmas\<close>

text \<open>Splitting a 64-bit value over two registers and putting it together loses nothing.\<close>

lemma join_halves:
  fixes v :: u64
  shows "push_bit 32 (ucast (ucast (drop_bit 32 v) :: u32)) OR ucast (ucast v :: u32) = v"
proof (rule bit_word_eqI)
  fix n assume "n < LENGTH(64)"
  then show "bit (push_bit 32 (ucast (ucast (drop_bit 32 v) :: u32)) OR ucast (ucast v :: u32) :: u64) n = bit v n"
    by (cases "n < 32") (auto simp: bit_simps)
qed

lemma halves_are_halves: "high_half v = ucast (drop_bit 32 v)" "low_half v = ucast v"
proof -
  have m: "(0xFFFFFFFF00000000 :: u64) = push_bit 32 (mask 32)" "(0xFFFFFFFF :: u64) = mask 32"
    by (simp_all add: mask_eq_exp_minus_1 push_bit_eq_mult)
  show "high_half v = ucast (drop_bit 32 v)"
    unfolding high_half_def m by (rule bit_word_eqI) (auto simp: bit_simps)
  show "low_half v = ucast v"
    unfolding low_half_def m by (rule bit_word_eqI) (auto simp: bit_simps)
qed

context word_store
begin

lemma get_set_reg_64:
  assumes "base + ucast lo \<in> A" "base + ucast hi \<in> A" "base + ucast lo \<noteq> base + ucast hi"
  shows "get_reg_64 hw base lo hi (set_reg_64 hw v base lo hi s) = (v, set_reg_64 hw v base lo hi s)"
  using assms by (simp add: get_reg_64_def set_reg_64_def load store join_halves)

end

text \<open>
  Batching does not change what is sent: where a transmit register that is ready stays ready, the
  driver stores the characters of the string one after the other.
\<close>

lemma send_batch_append: "send_batch hw (xs @ ys) s = send_batch hw ys (send_batch hw xs s)"
  by (simp add: send_batch_def)

lemma uart_send_ready:
  assumes ready: "\<And>s. tx_ready (fst (rd32 hw UART_REG_LSR s)) \<and> snd (rd32 hw UART_REG_LSR s) = s"
  shows "uart_send hw str s = Some (send_batch hw str s)"
proof (induction "length str" arbitrary: str s rule: less_induct)
  case less
  show ?case
  proof (cases "str = []")
    case True
    then show ?thesis by (simp add: uart_send.simps send_batch_def)
  next
    case False
    have "poll_until (rd32 hw UART_REG_LSR) tx_ready s = Some (rd32 hw UART_REG_LSR s)"
      using ready by (intro poll_until_hit) simp
    then have "uart_send hw str s = uart_send hw (drop UART_FIFO_DEPTH str)
        (send_batch hw (take UART_FIFO_DEPTH str) s)"
      using False ready [of s] by (simp add: uart_send.simps [of hw str s] split_beta)
    also have "\<dots> = Some (send_batch hw (drop UART_FIFO_DEPTH str)
        (send_batch hw (take UART_FIFO_DEPTH str) s))"
      using False by (intro less) (simp add: UART_FIFO_DEPTH_def)
    also have "\<dots> = Some (send_batch hw str s)" by (simp flip: send_batch_append)
    finally show ?thesis .
  qed
qed

end
