(* ===== verification/Mempol_Main.thy ===== *)
theory Mempol_Main
  imports Mempol_Bench Iopmp Soc_Drivers
begin

text \<open>
  \<open>main\<close> of \<open>mempol/pmu_bench.c\<close> and the functions only it uses: the work loops, the bring-up of the
  APMU on core 0, the three measured stages, the shutdown and the report, and the branch of the
  interfering cores 1 to 3. Console output (\<open>printf\<close> and the waits for the UART after it) and the
  busy delays are left out. A loop that the code never leaves is \<open>None\<close>.

  The globals are shared by four cores and by the trap handlers. The argument \<open>others\<close> is what the
  rest of the machine does to globals and hardware before the code looks at a shared variable
  again.
\<close>

subsection \<open>Work loops\<close>

definition CORE0_DATA_BASE :: u64 where "CORE0_DATA_BASE = 0x81000000"
definition CORE1_DATA_BASE :: u64 where "CORE1_DATA_BASE = 0x81100000"
definition CORE2_DATA_BASE :: u64 where "CORE2_DATA_BASE = 0x81200000"
definition CORE3_DATA_BASE :: u64 where "CORE3_DATA_BASE = 0x81300000"
definition MEM_BASE :: u64 where "MEM_BASE = 0x83100000"
definition CACHE_LINE_SIZE :: u64 where "CACHE_LINE_SIZE = 64"

definition core_data_base :: "u64 list" where
  "core_data_base = [CORE0_DATA_BASE, CORE1_DATA_BASE, CORE2_DATA_BASE, CORE3_DATA_BASE]"

definition WORK_READ_LINES :: nat where "WORK_READ_LINES = 4096"
definition LLC_READ_LINES :: nat where "LLC_READ_LINES = 256"
definition STAGE_ITERATIONS :: nat where "STAGE_ITERATIONS = 10"
definition TOTAL_STAGE_ITERS :: nat where "TOTAL_STAGE_ITERS = STAGE_ITERATIONS * 3"

text \<open>One load, or one store of the index, per cache line.\<close>

definition read_lines :: "'s hw \<Rightarrow> u64 \<Rightarrow> nat \<Rightarrow> 's \<Rightarrow> 's" where
  "read_lines hw base n = for_upto n (\<lambda>i s. snd (rd64 hw (base + of_nat i * CACHE_LINE_SIZE) s))"

definition write_lines :: "'s hw \<Rightarrow> u64 \<Rightarrow> nat \<Rightarrow> 's \<Rightarrow> 's" where
  "write_lines hw base n = for_upto n (\<lambda>i. wr64 hw (base + of_nat i * CACHE_LINE_SIZE) (of_nat i))"

definition count_work :: "nat \<Rightarrow> bench \<Rightarrow> bench" where
  "count_work core b =
     b\<lparr>g_work_iterations := (g_work_iterations b)[core := g_work_iterations b ! core + 1]\<rparr>"

definition prime_cache :: "'s hw \<Rightarrow> nat \<Rightarrow> 's \<Rightarrow> 's" where
  "prime_cache hw core = read_lines hw (core_data_base ! core) WORK_READ_LINES"

definition read_interference_cache :: "'s hw \<Rightarrow> nat \<Rightarrow> bench \<times> 's \<Rightarrow> bench \<times> 's" where
  "read_interference_cache hw core = (\<lambda>(b, s).
     (count_work core b, read_lines hw (core_data_base ! core) 4096 s))"

definition read_interference_mem :: "'s hw \<Rightarrow> nat \<Rightarrow> bench \<times> 's \<Rightarrow> bench \<times> 's" where
  "read_interference_mem hw core = (\<lambda>(b, s).
     (count_work core b, read_lines hw (core_data_base ! core) 8192 s))"

definition write_interference_cache :: "'s hw \<Rightarrow> nat \<Rightarrow> bench \<times> 's \<Rightarrow> bench \<times> 's" where
  "write_interference_cache hw core = (\<lambda>(b, s).
     (count_work core b, write_lines hw (core_data_base ! core) 4096 s))"

definition write_interference_mem :: "'s hw \<Rightarrow> nat \<Rightarrow> bench \<times> 's \<Rightarrow> bench \<times> 's" where
  "write_interference_mem hw core = (\<lambda>(b, s).
     (count_work core b, write_lines hw (core_data_base ! core) 8192 s))"

text \<open>\<open>core0_work\<close> to \<open>core3_work\<close>, the table \<open>core_work\<close>: core 0 does not count its iterations.\<close>

definition core_work :: "'s hw \<Rightarrow> nat \<Rightarrow> bench \<times> 's \<Rightarrow> bench \<times> 's" where
  "core_work hw core = (\<lambda>(b, s).
     (if core = 0 then b else count_work core b,
      read_lines hw (core_data_base ! core) WORK_READ_LINES s))"

definition llc_stage_work :: "'s hw \<Rightarrow> 's \<Rightarrow> 's" where
  "llc_stage_work hw = write_lines hw CORE0_DATA_BASE (LLC_READ_LINES * 3)"

definition dram_stage_work :: "'s hw \<Rightarrow> 's \<Rightarrow> 's" where
  "dram_stage_work hw = write_lines hw MEM_BASE (LLC_READ_LINES * 3)"

subsection \<open>Bring-up\<close>

definition console_8n1 :: "'s hw \<Rightarrow> 's \<Rightarrow> 's" where
  "console_8n1 hw s = fence hw (wr8 hw 0x4000000C 0x03 (fence hw (wr8 hw 0x4000000C 0x83 s)))"

definition halt_pmu :: "'s hw \<Rightarrow> 's \<Rightarrow> 's" where
  "halt_pmu hw s = fence hw (write_32b hw (u32_to_addr PMC_STATUS_ADDR) 1 s)"

definition prepare_pmu :: "'s hw \<Rightarrow> 's \<Rightarrow> 's" where
  "prepare_pmu hw s =
     (let s = halt_pmu hw s;
          s = write_32b hw (u32_to_addr PERIOD_ADDR) 0xFFFFFFFF s;
          s = write_32b hw (u32_to_addr (PERIOD_ADDR + 4)) 0xFFFFFFFF s;
          s = fence hw s
      in for_upto 128 (\<lambda>i. write_32b hw (u32_to_addr (DSPM_BASE_ADDR + 4 * of_nat i)) 0) s)"

text \<open>The images of the two sections with their sizes in bytes; the code hangs on a bad size.\<close>

definition load_firmware ::
    "'s hw \<Rightarrow> u32 list \<Rightarrow> u32 \<Rightarrow> u32 list \<Rightarrow> u32 \<Rightarrow> 's \<Rightarrow> 's option" where
  "load_firmware hw text_img text_size data_img data_size s =
     (if text_size > 0 \<and> text_size < 4096 then
        Some (fence hw (copy_words hw (u32_to_addr (DSPM_BASE_ADDR + 0x200)) data_img data_size
          (copy_words hw (u32_to_addr ISPM_BASE_ADDR) text_img text_size s)))
      else None)"

definition configure_iopmp :: "'s hw \<Rightarrow> 's \<Rightarrow> 's" where
  "configure_iopmp hw s =
     (let s = enable_iopmp hw s;
          s = mdcfg_entry_config hw 5 0 s;
          s = srcmd_entry_config hw [0] 1 0 0 s
      in set_entry_tor hw (0x1C000000 + 64) (ucast (ACCESS_READ OR ACCESS_WRITE)) 1 s)"

definition start_pmu :: "'s hw \<Rightarrow> 's \<Rightarrow> 's option" where
  "start_pmu hw s =
     (let s = write_32b hw (u32_to_addr PMC_BOOT_ADDR) ISPM_BASE_ADDR s;
          s = write_32b hw (u32_to_addr PMC_STATUS_ADDR) 0 s;
          s = fence hw s;
          (timeout, s) = poll_timeout (read_32b hw (u32_to_addr DSPM_STATUS_ADDR))
                           (\<lambda>v. v = STATUS_STARTED) 100000 s
      in if timeout = 0 then None else Some s)"

definition core_ready_addr :: "u32 \<Rightarrow> u32" where
  "core_ready_addr core = DSPM_BASE_ADDR + 0x24 + core * 0x4"

definition wait_cores_ready :: "'s hw \<Rightarrow> 's \<Rightarrow> 's" where
  "wait_cores_ready hw = fold (\<lambda>core s. snd (poll_timeout
     (read_32b hw (u32_to_addr (core_ready_addr (of_nat core)))) (\<lambda>v. v = 1) 1000000 s)) [1..<NUM_CORES]"

definition setup_all_cores :: "'s hw \<Rightarrow> u64 \<Rightarrow> 's \<Rightarrow> 's option" where
  "setup_all_cores hw trap_addr s = do {
     let s = for_upto NUM_CORES (\<lambda>c s. snd (read_32b hw
               (u32_to_addr (COUNTER_BASE_ADDR + of_nat c * COUNTER_BUNDLE_SIZE)) s)) s;
     let s = for_upto NUM_CORES (\<lambda>c. plic_set_priority hw (PMU_IRQ_CORE (of_nat c)) 1) s;
     s \<leftarrow> setup_core_interrupt hw trap_addr 0 s;
     let s = write_32b hw (u32_to_addr DSPM_CORES_READY_ADDR) 0xCAFE0001 s;
     Some (wait_cores_ready hw (fence hw s)) }"

definition start_policing :: "'s hw \<Rightarrow> bench \<times> 's \<Rightarrow> bench \<times> 's" where
  "start_policing hw = (\<lambda>(b, s).
     let s = configure_counters hw (partition_cache_4cores hw (enable_llc hw s));
         s = prime_cache hw 0 (prime_cache hw 3 (prime_cache hw 2 (prime_cache hw 1 s)));
         s = for_upto NUM_CORES (\<lambda>c. reset_counters hw (of_nat c)) s;
         b = b\<lparr>g_interference_go := 1\<rparr>;
         s = fence hw s;
         s = fence hw (write_32b hw (u32_to_addr DSPM_CMD_ADDR) CMD_TRIGGER_INTERRUPT s);
         (cyc, s) = read_mcycle hw s
     in (b\<lparr>g_core0_start_mcycle := cyc\<rparr>, fence hw s))"

subsection \<open>Measured stages\<close>

record stage_row =
  buf_llcrd :: u32
  buf_llcwr :: u32
  buf_memrd :: u32
  buf_memwr :: u32
  buf_irqs :: u32
  buf_cyc :: u32
  buf_stage :: u8

definition read_masked :: "'s hw \<Rightarrow> u32 \<Rightarrow> 's \<Rightarrow> u32 \<times> 's" where
  "read_masked hw i s =
     (case read_32b hw (u32_to_addr (COUNTER_BASE_ADDR + i * COUNTER_BUNDLE_SIZE)) s of
        (v, s) \<Rightarrow> (v AND 0x7FFFFFFF, s))"

definition stage_iteration ::
    "'s hw \<Rightarrow> (bench \<times> 's \<Rightarrow> bench \<times> 's) \<Rightarrow> ('s \<Rightarrow> 's) \<Rightarrow> u8 \<Rightarrow> bench \<times> 's \<Rightarrow> stage_row \<times> bench \<times> 's" where
  "stage_iteration hw others work stage = (\<lambda>(b, s).
     let s = reset_counters hw 0 s;
         (t0, s) = read_pmu_timer hw s;
         s = work s;
         (t1, s) = read_pmu_timer hw s;
         (lr, s) = read_masked hw 4 s;
         (lw, s) = read_masked hw 8 s;
         (mr, s) = read_masked hw 12 s;
         (mw, s) = read_masked hw 16 s;
         (b, s) = others (b, s)
     in (\<lparr>buf_llcrd = lr, buf_llcwr = lw, buf_memrd = mr, buf_memwr = mw,
          buf_irqs = g_interrupt_count b ! 0, buf_cyc = ucast (t1 - t0), buf_stage = stage\<rparr>, b, s))"

fun stage_loop ::
    "'s hw \<Rightarrow> (bench \<times> 's \<Rightarrow> bench \<times> 's) \<Rightarrow> ('s \<Rightarrow> 's) \<Rightarrow> u8 \<Rightarrow> nat \<Rightarrow> bench \<times> 's \<Rightarrow>
     stage_row list \<times> bench \<times> 's" where
  "stage_loop hw others work stage 0 bs = ([], bs)"
| "stage_loop hw others work stage (Suc n) bs =
     (let (row, bs) = stage_iteration hw others work stage bs;
          (rows, bs) = stage_loop hw others work stage n bs
      in (row # rows, bs))"

text \<open>A stage with its time: the rows, and the timer at its two ends.\<close>

definition run_stage ::
    "'s hw \<Rightarrow> (bench \<times> 's \<Rightarrow> bench \<times> 's) \<Rightarrow> ('s \<Rightarrow> 's) \<Rightarrow> u8 \<Rightarrow> bench \<times> 's \<Rightarrow>
     (stage_row list \<times> u64 \<times> u64) \<times> bench \<times> 's" where
  "run_stage hw others work stage = (\<lambda>(b, s).
     let (t0, s) = read_pmu_timer hw s;
         (rows, b, s) = stage_loop hw others work stage STAGE_ITERATIONS (b, s);
         (t1, s) = read_pmu_timer hw s
     in ((rows, t0, t1), b, s))"

definition run_stages ::
    "'s hw \<Rightarrow> (bench \<times> 's \<Rightarrow> bench \<times> 's) \<Rightarrow> bench \<times> 's \<Rightarrow>
     (stage_row list \<times> (u64 \<times> u64) list) \<times> bench \<times> 's" where
  "run_stages hw others bs =
     (let ((r1, t1), bs) = run_stage hw others (llc_stage_work hw) 0 bs;
          ((r2, t2), bs) = run_stage hw others (dram_stage_work hw) 1 bs;
          ((r3, t3), bs) = run_stage hw others (llc_stage_work hw) 2 bs
      in ((r1 @ r2 @ r3, [t1, t2, t3]), bs))"

subsection \<open>Shutdown\<close>

text \<open>Resume the cores whose pause flag is set, so that they can see that core 0 is done.\<close>

definition resume_paused_core :: "'s hw \<Rightarrow> (bench \<times> 's \<Rightarrow> bench \<times> 's) \<Rightarrow> nat \<Rightarrow> bench \<times> 's \<Rightarrow> bench \<times> 's" where
  "resume_paused_core hw others core = (\<lambda>(b, s).
     let addr = u32_to_addr (COUNTER_BASE_ADDR + of_nat core * COUNTER_BUNDLE_SIZE);
         (_, s) = read_32b hw addr s;
         (b, s) = others (b, s)
     in if g_paused b ! core \<noteq> 0 then (b, write_32b hw addr 0x41000000 s) else (b, s))"

definition shutdown :: "'s hw \<Rightarrow> (bench \<times> 's \<Rightarrow> bench \<times> 's) \<Rightarrow> bench \<times> 's \<Rightarrow> bench \<times> 's" where
  "shutdown hw others = (\<lambda>(b, s).
     let b = b\<lparr>g_core_done := (g_core_done b)[0 := 1]\<rparr>;
         s = halt_pmu hw (fence hw s)
     in fold (resume_paused_core hw others) [1..<NUM_CORES] (b, s))"

definition look_core_done :: "(bench \<times> 's \<Rightarrow> bench \<times> 's) \<Rightarrow> nat \<Rightarrow> bench \<times> 's \<Rightarrow> u32 \<times> bench \<times> 's" where
  "look_core_done others core bs = (let bs = others bs in (g_core_done (fst bs) ! core, bs))"

definition wait_cores_done :: "(bench \<times> 's \<Rightarrow> bench \<times> 's) \<Rightarrow> bench \<times> 's \<Rightarrow> bench \<times> 's" where
  "wait_cores_done others =
     fold (\<lambda>core bs. snd (poll_timeout (look_core_done others core) (\<lambda>v. v \<noteq> 0) 1000 bs)) [1..<NUM_CORES]"

subsection \<open>Report\<close>

record pmu_report =
  rep_status :: u32
  rep_poll_iters :: u32
  rep_irqs :: "u32 list"
  rep_total_cyc :: u32
  rep_breadcrumb :: u32
  rep_max_work_cycles :: u32
  rep_throttled :: "u32 list"

fun read_counters :: "'s hw \<Rightarrow> u32 list \<Rightarrow> 's \<Rightarrow> u32 list \<times> 's" where
  "read_counters hw [] s = ([], s)"
| "read_counters hw (i # is) s =
     (let (v, s) = read_32b hw (u32_to_addr (COUNTER_BASE_ADDR + i * COUNTER_BUNDLE_SIZE)) s;
          (vs, s) = read_counters hw is s
      in (v # vs, s))"

definition read_report :: "'s hw \<Rightarrow> 's \<Rightarrow> pmu_report \<times> 's" where
  "read_report hw s =
     (let (status, s) = read_32b hw (u32_to_addr DSPM_STATUS_ADDR) s;
          (vs, s) = read_counters hw [20, 21, 22, 23, 24, 25, 26, 27] s;
          (ts, s) = read_counters hw [28, 29, 30, 31] s
      in (\<lparr>rep_status = status, rep_poll_iters = vs ! 0, rep_irqs = take 4 (drop 1 vs),
           rep_total_cyc = vs ! 5, rep_breadcrumb = vs ! 6, rep_max_work_cycles = vs ! 7,
           rep_throttled = ts\<rparr>, s))"

text \<open>\<open>print_all_counters\<close>: the values of one line of its table, and the table.\<close>

definition read_counter_row :: "'s hw \<Rightarrow> u32 \<Rightarrow> 's \<Rightarrow> (u32 list \<times> u32) \<times> 's" where
  "read_counter_row hw core s =
     (let (irq_cnt, s) = read_masked hw core s;
          (llc_rd, s) = read_masked hw (4 + core) s;
          (llc_wr, s) = read_masked hw (8 + core) s;
          (mem_rd, s) = read_masked hw (12 + core) s;
          (mem_wr, s) = read_masked hw (16 + core) s;
          (l2, s) = read_32b hw (u32_to_addr (DSPM_BASE_ADDR + 0x1000)) s
      in (([irq_cnt, llc_rd, llc_wr, mem_rd, mem_wr], l2), s))"

fun print_all_counters :: "'s hw \<Rightarrow> nat list \<Rightarrow> 's \<Rightarrow> (u32 list \<times> u32) list \<times> 's" where
  "print_all_counters hw [] s = ([], s)"
| "print_all_counters hw (c # cs) s =
     (let (row, s) = read_counter_row hw (of_nat c) s; (rows, s) = print_all_counters hw cs s
      in (row # rows, s))"

text \<open>
  The merge of the four interrupt logs by time (under \<open>if (0)\<close>): the core with the smallest next
  time stamp, which must be below \<open>0xFFFFFFFF\<close>, is printed if the stamp is not before the start
  and advanced; the loop ends when there is none.
\<close>

definition irq_counts :: "bench \<Rightarrow> u32 list" where
  "irq_counts b = map (\<lambda>n. if n > MAX_IRQ_LOG then MAX_IRQ_LOG else n) (g_interrupt_count b)"

definition pick_core :: "bench \<Rightarrow> u32 list \<Rightarrow> u32 list \<Rightarrow> nat \<times> u32" where
  "pick_core b counts ci =
     fold (\<lambda>c (best_core, best_cyc).
       if ci ! c < counts ! c \<and> g_irq_log_cycle b ! c ! unat (ci ! c) < best_cyc
       then (c, g_irq_log_cycle b ! c ! unat (ci ! c)) else (best_core, best_cyc))
     [0..<NUM_CORES] (NUM_CORES, 0xFFFFFFFF)"

partial_function (option) merge_irq_log ::
    "bench \<Rightarrow> u32 list \<Rightarrow> u32 list \<Rightarrow> (bool \<times> nat \<times> u32) list option" where
  "merge_irq_log b counts ci =
     (case pick_core b counts ci of (best_core, best_cyc) \<Rightarrow>
        if best_core = NUM_CORES then Some []
        else do {
          rest \<leftarrow> merge_irq_log b counts (ci[best_core := ci ! best_core + 1]);
          Some (if best_cyc \<ge> g_core0_start_mcycle b
                then (g_irq_log_type b ! best_core ! unat (ci ! best_core) \<noteq> 0, best_core, best_cyc) # rest
                else rest) })"

definition dump_irq_log :: "bench \<Rightarrow> (bool \<times> nat \<times> u32) list option" where
  "dump_irq_log b = merge_irq_log b (irq_counts b) (replicate NUM_CORES 0)"

text \<open>The log of the firmware, decoded entry by entry.\<close>

fun dump_entries :: "'s hw \<Rightarrow> nat list \<Rightarrow> 's \<Rightarrow> log_entry list \<times> 's" where
  "dump_entries hw [] s = ([], s)"
| "dump_entries hw (i # is) s =
     (let (w0, s) = read_32b hw (u32_to_addr (log_entry_addr (of_nat i))) s;
          (w1, s) = read_32b hw (u32_to_addr (log_entry_addr (of_nat i) + 4)) s;
          (es, s) = dump_entries hw is s
      in (decode_log_entry w0 w1 # es, s))"

definition dump_log :: "'s hw \<Rightarrow> 's \<Rightarrow> log_entry list \<times> 's" where
  "dump_log hw s =
     (let (n, s) = read_32b hw (u32_to_addr DSPM_LOG_BASE) s;
          n = (if n > DSPM_LOG_MAX_ENTRIES then DSPM_LOG_MAX_ENTRIES else n)
      in dump_entries hw [0..<unat n] s)"

subsection \<open>Main\<close>

text \<open>Core 0, with the results it prints.\<close>

definition main_core0 ::
    "'s hw \<Rightarrow> (bench \<times> 's \<Rightarrow> bench \<times> 's) \<Rightarrow> u64 \<Rightarrow> u32 list \<Rightarrow> u32 \<Rightarrow> u32 list \<Rightarrow> u32 \<Rightarrow> bench \<times> 's \<Rightarrow>
     ((stage_row list \<times> (u64 \<times> u64) list) \<times> pmu_report \<times> (u32 list \<times> u32) list \<times> log_entry list \<times>
      bench \<times> 's) option" where
  "main_core0 hw others trap_addr text_img text_size data_img data_size = (\<lambda>(b, s). do {
     let s = console_8n1 hw s;
     let b = bench_reinit b;
     let s = prepare_pmu hw s;
     s \<leftarrow> load_firmware hw text_img text_size data_img data_size s;
     s \<leftarrow> start_pmu hw (configure_iopmp hw s);
     s \<leftarrow> setup_all_cores hw trap_addr s;
     let (stages, b, s) = run_stages hw others (start_policing hw (b, s));
     let (b, s) = wait_cores_done others (shutdown hw others (b, s));
     let (report, s) = read_report hw s;
     let (table, s) = print_all_counters hw [0..<NUM_CORES] s;
     let (log, s) = dump_log hw s;
     Some (stages, report, table, log, b, s) })"

definition look_go :: "(bench \<times> 's \<Rightarrow> bench \<times> 's) \<Rightarrow> bench \<times> 's \<Rightarrow> u32 \<times> bench \<times> 's" where
  "look_go others bs = (let bs = others bs in (g_interference_go (fst bs), bs))"

text \<open>Cores 1 to 3: the interference calls in the last loop are commented out in the code.\<close>

definition main_core :: "'s hw \<Rightarrow> (bench \<times> 's \<Rightarrow> bench \<times> 's) \<Rightarrow> u64 \<Rightarrow> u32 \<Rightarrow> bench \<times> 's \<Rightarrow> (bench \<times> 's) option" where
  "main_core hw others trap_addr h = (\<lambda>(b, s). do {
     (_, s) \<leftarrow> poll_until (read_32b hw (u32_to_addr DSPM_CORES_READY_ADDR)) (\<lambda>v. v \<noteq> 0xCAFE0001) s;
     (_, s) \<leftarrow> poll_until (read_32b hw (u32_to_addr DSPM_CORES_READY_ADDR)) (\<lambda>v. v = 0xCAFE0001) s;
     s \<leftarrow> setup_core_interrupt hw trap_addr h s;
     let s = fence hw (write_32b hw (u32_to_addr (core_ready_addr h)) 1 s);
     (_, b, s) \<leftarrow> poll_until (look_go others) (\<lambda>v. v \<noteq> 0) (b, s);
     (_, b, s) \<leftarrow> poll_until (look_core_done others 0) (\<lambda>v. v \<noteq> 0) (b, s);
     let s = csr_wr hw CSR_MIE 0 s;
     let (mstatus, s) = csr_rd hw CSR_MSTATUS s;
     let s = csr_wr hw CSR_MSTATUS (mstatus AND NOT (push_bit 3 1)) s;
     let s = write_32b hw (u32_to_addr (COUNTER_BASE_ADDR + h * COUNTER_BUNDLE_SIZE)) 0 s;
     s \<leftarrow> drain_plic hw (PLIC_CONTEXT_CORE h) (fence hw s);
     Some (b\<lparr>g_core_done := (g_core_done b)[unat h := 1]\<rparr>, fence hw s) })"

end
