(* ===== verification/Mempol_Log.thy ===== *)
theory Mempol_Log
  imports Mempol_Main Mempol_Run
begin

text \<open>
  The log the mempol firmware leaves in data memory and the decoder on the CVA6 side agree: the
  packing of a record, where the records lie, and what the dump reads back.
\<close>

subsection \<open>Packing\<close>

lemma bit_le_mask:
  fixes x :: u32
  assumes "x \<le> mask k" "bit x n" shows "n < k"
proof -
  have "uint x \<le> uint (- 1 AND mask k :: u32)" using assms(1) by (simp add: word_le_def)
  also have "\<dots> < 2 ^ k" by (rule and_mask_lt_2p)
  finally have "x AND mask k = x" by (simp add: mask_eq_iff)
  with assms(2) have "bit (x AND mask k) n" by simp
  then show ?thesis by (simp add: bit_simps)
qed

lemma clamp_le: "clamp_to m v \<le> m"
  by (simp add: clamp_to_def linorder_not_less)

lemma log_fields:
  fixes a b c d :: u32
  assumes "a \<le> mask 9" "b \<le> mask 9" "c \<le> mask 7" "d \<le> mask 7"
  defines "w \<equiv> push_bit 23 a OR push_bit 14 b OR push_bit 7 c OR d"
  shows "drop_bit 23 w AND mask 9 = a" "drop_bit 14 w AND mask 9 = b"
    "drop_bit 7 w AND mask 7 = c" "w AND mask 7 = d"
proof -
  note hi = bit_le_mask [OF assms(1)] bit_le_mask [OF assms(2)] bit_le_mask [OF assms(3)]
    bit_le_mask [OF assms(4)]
  show "drop_bit 23 w AND mask 9 = a"
    by (rule bit_word_eqI) (auto simp: w_def bit_simps dest: hi)
  show "drop_bit 14 w AND mask 9 = b"
    by (rule bit_word_eqI) (auto simp: w_def bit_simps dest: hi)
  show "drop_bit 7 w AND mask 7 = c"
    by (rule bit_word_eqI) (auto simp: w_def bit_simps dest: hi)
  show "w AND mask 7 = d"
    by (rule bit_word_eqI) (auto simp: w_def bit_simps dest: hi)
qed

lemma masks_32: "(0x1FF :: u32) = mask 9" "(0x7F :: u32) = mask 7" "(0x3FFFFFFF :: u32) = mask 30"
  "(0x3 :: u32) = mask 2" "(511 :: u32) = mask 9" "(127 :: u32) = mask 7"
  by (simp_all add: mask_eq_exp_minus_1)

text \<open>A token of 30 bits keeps its sign: bits 30 and 31 are copies of bit 29.\<close>

lemma small_token_bits:
  fixes t :: i32
  assumes "- (2 ^ 29) \<le> sint t" "sint t < 2 ^ 29" "29 \<le> n" "n < 32"
  shows "bit t n = bit t 29"
proof -
  have "signed_take_bit 29 (sint t) = sint t"
    using assms(1,2) by (simp add: signed_take_bit_int_eq_self)
  then have "bit (sint t) n = bit (signed_take_bit 29 (sint t)) n" by simp
  also have "\<dots> = bit (sint t) 29" using assms(3) by (simp add: bit_signed_take_bit_iff min_def)
  finally show ?thesis using assms(4) by (simp add: bit_sint_iff min_def split: if_splits)
qed


lemma decode_word0:
  "le_llc_rd (decode_log_entry (log_word0 fw) w) = clamp_to 511 (log_llc_rd_0 fw)"
  "le_llc_wr (decode_log_entry (log_word0 fw) w) = clamp_to 511 (log_llc_wr_0 fw)"
  "le_mem_rd (decode_log_entry (log_word0 fw) w) = clamp_to 127 (log_mem_rd_0 fw)"
  "le_mem_wr (decode_log_entry (log_word0 fw) w) = clamp_to 127 (log_mem_wr_0 fw)"
  unfolding decode_log_entry_def log_word0_def log_entry.simps masks_32
  by (rule log_fields; rule clamp_le)+

lemma decode_word1:
  assumes "log_decision_0 fw \<le> mask 2" "- (2 ^ 29) \<le> sint (token fw ! 0)" "sint (token fw ! 0) < 2 ^ 29"
  shows "le_decision (decode_log_entry w (log_word1 fw)) = log_decision_0 fw"
    "le_token (decode_log_entry w (log_word1 fw)) = token fw ! 0"
proof -
  let ?t = "token fw ! 0" and ?d = "log_decision_0 fw"
  have d: "bit ?d n \<Longrightarrow> n < 2" for n using assms(1) by (rule bit_le_mask)
  have t: "29 \<le> n \<Longrightarrow> n < 32 \<Longrightarrow> bit ?t n = bit ?t 29" for n
    using assms(2,3) by (rule small_token_bits)
  have sign: "(log_word1 fw AND 0x20000000 \<noteq> 0) = bit ?t 29"
  proof -
    have "(0x20000000 :: u32) = push_bit 29 1" by (simp add: push_bit_eq_mult)
    then have b29: "bit (0x20000000 :: u32) n \<longleftrightarrow> n = 29" for n
      by (simp only: bit_push_bit_iff) (auto simp: bit_1_iff)
    have "log_word1 fw AND 0x20000000 = (if bit ?t 29 then 0x20000000 else 0)"
    proof (rule bit_word_eqI)
      fix n
      show "bit (log_word1 fw AND 0x20000000) n = bit (if bit ?t 29 then 0x20000000 else 0 :: u32) n"
        unfolding log_word1_def masks_32 bit_and_iff b29
        by (cases "n = 29") (auto simp: bit_simps b29 simp del: bit_numeral_word_iff)
    qed
    then show ?thesis by simp
  qed
  have hi: "(0xC0000000 :: u32) = push_bit 30 (mask 2)"
    by (simp add: mask_eq_exp_minus_1 push_bit_eq_mult)
  show "le_decision (decode_log_entry w (log_word1 fw)) = ?d"
    unfolding decode_log_entry_def log_entry.simps log_word1_def masks_32
    by (rule bit_word_eqI) (auto simp: bit_simps dest: d)
  show "le_token (decode_log_entry w (log_word1 fw)) = ?t"
    unfolding decode_log_entry_def log_entry.simps sign hi unfolding log_word1_def masks_32
  proof (rule bit_word_eqI)
    fix n assume n: "n < LENGTH(32)"
    show "bit ((push_bit 30 ?d OR ?t AND mask 30) AND mask 30 OR
        (if bit ?t 29 then push_bit 30 (mask 2) else 0)) n = bit ?t n"
      using n t [of n] by (cases "n < 30") (auto simp: bit_simps)
  qed
qed

subsection \<open>Placement\<close>

lemma uint_log_entry_addr:
  assumes "uint n < 10000"
  shows "uint (log_entry_addr n) = 0x1042A004 + 12 * uint n"
    "uint (log_entry_addr n + 4) = 0x1042A008 + 12 * uint n"
proof -
  have n: "uint (n * 12) = 12 * uint n" using assms by (simp add: uint_word_ariths)
  show "uint (log_entry_addr n) = 0x1042A004 + 12 * uint n"
    "uint (log_entry_addr n + 4) = 0x1042A008 + 12 * uint n"
    using assms n by (simp_all add: log_entry_addr_def DSPM_LOG_BASE_def DSPM_BASE_ADDR_def uint_word_ariths)
qed

end
