(* ===== verification/Mempol_Sync.thy ===== *)
theory Mempol_Sync
  imports Mempol_Handshake Mempol_Log
begin

text \<open>
  The firmware inside the composed system. Every access of the firmware first lets the environment
  run; the lemmas below say what the firmware still knows after each access, and carry the
  invariant \<open>fw_sync\<close> through an iteration and through the main loop.
\<close>

subsection \<open>Accesses of the firmware\<close>

definition st :: "u64 \<Rightarrow> (nat \<Rightarrow> bool) \<Rightarrow> (u32 \<Rightarrow> u32) \<Rightarrow> sys \<Rightarrow> bool" where
  "st wfi G C s \<longleftrightarrow> sys_ok wfi s \<and> knows G C s"

lemma st_env: "st wfi G C s \<Longrightarrow> st wfi G C (env wfi s)"
  by (simp add: st_def env_keeps)

lemma acked_env: "st wfi G C s \<Longrightarrow> k < 4 \<Longrightarrow> acked k s \<Longrightarrow> acked k (env wfi s)"
  by (simp add: st_def env_keeps)

lemma st_frame:
  "st wfi G C s \<Longrightarrow> st wfi G C (s\<lparr>s_cycle := c\<rparr>)"
  "st wfi G C s \<Longrightarrow> st wfi G C (s\<lparr>s_mem := m\<rparr>)"
  by (simp_all add: st_def sys_ok_def knows_def hart_view_frame)

lemma acked_frame: "acked k (s\<lparr>s_cycle := c\<rparr>) = acked k s" "acked k (s\<lparr>s_mem := m\<rparr>) = acked k s"
  by (simp_all add: acked_def)

lemma cnt_wr_pmu: "cnt_wr (pmu_hw wfi) i v s = (env wfi s)\<lparr>s_cnt := (s_cnt (env wfi s))(i := v)\<rparr>"
  by (simp add: pmu_hw_def Let_def)

lemma cnt_rd_pmu: "cnt_rd (pmu_hw wfi) i s = (s_cnt (env wfi s) i, env wfi s)"
  by (simp add: pmu_hw_def Let_def)

lemma st_cnt_wr_own:
  assumes "st wfi G C s" "20 \<le> i"
  shows "st wfi G (C(i := v)) (cnt_wr (pmu_hw wfi) i v s)"
proof -
  have "\<forall>k < 4. of_nat k \<noteq> i" using assms(2) by (intro counter_ge_4) (rule order_trans, auto)
  then show ?thesis
    using st_env [OF assms(1)]
    by (simp add: cnt_wr_pmu st_def sys_ok_def knows_def hart_view_frame)
qed

lemma st_cnt_wr_perf:
  assumes "st wfi G C s" "4 \<le> i" "i < 20"
  shows "st wfi G C (cnt_wr (pmu_hw wfi) i v s)"
proof -
  have "\<forall>k < 4. of_nat k \<noteq> i" using assms(2) by (rule counter_ge_4)
  with assms(3) show ?thesis
    using st_env [OF assms(1)]
    by (auto simp: cnt_wr_pmu st_def sys_ok_def knows_def hart_view_frame)
qed

lemma acked_cnt_wr:
  assumes "st wfi G C s" "k < 4" "acked k s" "4 \<le> i"
  shows "acked k (cnt_wr (pmu_hw wfi) i v s)"
  using acked_env [OF assms(1-3)] counter_ge_4 [OF assms(4)] assms(2)
  by (auto simp: cnt_wr_pmu acked_def)

lemma hart_view_cmd:
  "h < 4 \<Longrightarrow> k < 4 \<Longrightarrow> hart_view (s\<lparr>s_cnt := (s_cnt s)(of_nat h := v)\<rparr>) k =
     (if k = h then (v, snd (hart_view s h)) else hart_view s k)"
  by (auto simp: hart_view_def of_nat_4_inject)

lemma below_20: "h < 4 \<Longrightarrow> 20 \<le> (j :: u32) \<Longrightarrow> j \<noteq> of_nat h"
proof -
  assume "h < 4" "20 \<le> j"
  have "of_nat h < (20 :: u32)" using of_nat_4_less [OF \<open>h < 4\<close>] by (rule less_trans) simp
  with \<open>20 \<le> j\<close> show ?thesis by auto
qed

text \<open>A pause command to an acknowledged core that runs, a resume command to one that is paused.\<close>

lemma acked_chan_cmd:
  assumes "chan_ok wfi v" "fst v = CVA_ACK_MASK" "c = (if goal v then CMD_RESUME else CMD_PAUSE)"
  shows "chan_ok wfi (c, snd v)" "goal (c, snd v) = (\<not> goal v)"
proof -
  obtain ch pc p sv where v: "v = (ch, pc, p, sv)" by (cases v)
  have "chan_ok wfi (c, snd v) \<and> goal (c, snd v) = (\<not> goal v)"
  proof (cases "p = 1")
    case True
    with assms have "c = CMD_RESUME" by (simp add: v goal_def)
    with True assms show ?thesis
      using command_classes(9) by (simp add: v chan_ok_def goal_def)
  next
    case False
    with assms have "c = CMD_PAUSE" "p = 0" by (simp_all add: v goal_def chan_ok_def)
    with assms show ?thesis by (simp add: v chan_ok_def goal_def)
  qed
  then show "chan_ok wfi (c, snd v)" "goal (c, snd v) = (\<not> goal v)" by simp_all
qed

lemma st_cnt_wr_cmd:
  assumes "st wfi G C s" "h < 4" "acked h s" "v = (if G h then CMD_RESUME else CMD_PAUSE)"
  shows "st wfi (G(h := \<not> G h)) C (cnt_wr (pmu_hw wfi) (of_nat h) v s)"
proof -
  let ?s = "env wfi s"
  have st: "st wfi G C ?s" using assms(1) by (rule st_env)
  have ack: "fst (hart_view ?s h) = CVA_ACK_MASK"
    using acked_env [OF assms(1-3)] by (simp add: acked_def hart_view_def)
  have ok: "chan_ok wfi (hart_view ?s h)" and G: "goal (hart_view ?s h) = G h"
    using st assms(2) by (simp_all add: st_def sys_ok_def knows_def)
  have new: "chan_ok wfi (v, snd (hart_view ?s h))" "goal (v, snd (hart_view ?s h)) = (\<not> G h)"
    using acked_chan_cmd [OF ok ack] G assms(4) by simp_all
  have idx: "of_nat h = (of_nat h :: u32)" by simp
  show ?thesis
    using st new below_20 [OF assms(2)] assms(2)
    by (auto simp: cnt_wr_pmu st_def sys_ok_def knows_def hart_view_cmd)
qed

lemma st_rd32: "st wfi G C s \<Longrightarrow> st wfi G C (snd (rd32 (pmu_hw wfi) a s))"
  by (simp add: pmu_hw_def st_env Let_def)

lemma st_wr32: "st wfi G C s \<Longrightarrow> counter_index a = None \<Longrightarrow> st wfi G C (wr32 (pmu_hw wfi) a v s)"
  by (simp add: pmu_hw_def st_env write_word_def st_frame)

lemma st_csr: "st wfi G C s \<Longrightarrow> st wfi G C (snd (csr_rd (pmu_hw wfi) r s))"
  "st wfi G C s \<Longrightarrow> st wfi G C (csr_wr (pmu_hw wfi) r x s)"
  by (simp_all add: pmu_hw_def st_env Let_def st_frame)

lemma st_cnt_rd:
  assumes "st wfi G C s"
  shows "st wfi G C (snd (cnt_rd (pmu_hw wfi) i s))"
    and "20 \<le> i \<Longrightarrow> fst (cnt_rd (pmu_hw wfi) i s) = C i"
    and "k < 4 \<Longrightarrow> acked k s \<Longrightarrow> acked k (snd (cnt_rd (pmu_hw wfi) i s))"
  using st_env [OF assms] acked_env [OF assms] by (simp_all add: pmu_hw_def Let_def st_def knows_def)

lemma read_mcycle_pmu: "snd (read_mcycle (pmu_hw wfi) s) = snd (csr_rd (pmu_hw wfi) CSR_MCYCLE s)"
  by (simp add: read_mcycle_def split_beta)

lemma read_perf_pmu:
  "snd (read_perf (pmu_hw wfi) b c s) =
     snd (rd32 (pmu_hw wfi) (u32_to_addr (COUNTER_BASE_ADDR + (b + c) * COUNTER_BUNDLE_SIZE)) s)"
  by (simp add: read_perf_def READ_MEM_def split_beta)

lemma st_read_channel:
  assumes "st wfi G C s" "h < 4"
    "fst (READ_MEM (pmu_hw wfi) (counter_addr (of_nat h)) s) AND CVA_ACK_MASK = CVA_ACK_MASK"
  shows "acked h (snd (READ_MEM (pmu_hw wfi) (counter_addr (of_nat h)) s))"
proof -
  let ?s = "env wfi s"
  have val: "READ_MEM (pmu_hw wfi) (counter_addr (of_nat h)) s = (s_cnt ?s (of_nat h), ?s)"
    using assms(2)
    by (simp add: READ_MEM_def pmu_hw_def Let_def read_word_def counter_index_addr unat_of_nat_4)
  have "chan_ok wfi (hart_view ?s h)"
    using st_env [OF assms(1)] assms(2) by (simp add: st_def sys_ok_def)
  then have "s_cnt ?s (of_nat h) \<in> {CVA_ACK_MASK, CMD_PAUSE, CMD_RESUME}"
    by (auto simp: chan_ok_def hart_view_def)
  with assms(3) show ?thesis by (auto simp: val acked_def channel_defs)
qed

subsection \<open>The invariant of the firmware\<close>

text \<open>
  \<open>fw_known fw G C\<close>: for every core, the \<open>throttled\<close> flag is the parity of the number of commands
  sent, the number is the one published in the counter file, and it agrees with the goal of the
  core.
\<close>

definition fw_known :: "mempol_fw \<Rightarrow> (nat \<Rightarrow> bool) \<Rightarrow> (u32 \<Rightarrow> u32) \<Rightarrow> bool" where
  "fw_known fw G C \<longleftrightarrow> length (irq_sent fw) = 4 \<and>
     (\<forall>k < 4. C (28 + of_nat k) = irq_sent fw ! k AND 1 \<and> C (21 + of_nat k) = irq_sent fw ! k \<and>
       (G k \<longleftrightarrow> C (28 + of_nat k) \<noteq> 0))"

definition fw_sync :: "u64 \<Rightarrow> mempol_fw \<times> sys \<Rightarrow> bool" where
  "fw_sync wfi = (\<lambda>(fw, s). \<exists>G C. st wfi G C s \<and> fw_known fw G C)"

lemma fw_syncI: "st wfi G C s \<Longrightarrow> fw_known fw G C \<Longrightarrow> fw_sync wfi (fw, s)"
  by (auto simp: fw_sync_def)

lemma fw_known_irq: "irq_sent fw' = irq_sent fw \<Longrightarrow> fw_known fw' G C = fw_known fw G C"
  by (simp add: fw_known_def)

text \<open>Counters 20, 25, 26 and 27 are published for the user only.\<close>

definition info_counter :: "u32 \<Rightarrow> bool" where
  "info_counter i \<longleftrightarrow> i = 20 \<or> i = 25 \<or> i = 26 \<or> i = 27"

lemma info_ge_20: "info_counter i \<Longrightarrow> 20 \<le> i"
  by (auto simp: info_counter_def)

lemma fw_known_info: "info_counter i \<Longrightarrow> fw_known fw G C \<Longrightarrow> fw_known fw G (C(i := v))"
proof -
  assume "info_counter i"
  then have "k < 4 \<Longrightarrow> 28 + of_nat k \<noteq> i \<and> 21 + of_nat k \<noteq> i" for k
    using less_4_cases [of k] by (auto simp: info_counter_def)
  then show "fw_known fw G C \<Longrightarrow> fw_known fw G (C(i := v))"
    unfolding fw_known_def by auto
qed

lemma fw_sync_map:
  assumes "fw_sync wfi (fw, s)"
    and "\<And>G C. st wfi G C s \<Longrightarrow> fw_known fw G C \<Longrightarrow> \<exists>G' C'. st wfi G' C' s' \<and> fw_known fw' G' C'"
  shows "fw_sync wfi (fw', s')"
  using assms by (auto simp: fw_sync_def)

lemma sync_info:
  assumes "fw_sync wfi (fw, s)" "info_counter i"
  shows "fw_sync wfi (fw, cnt_wr (pmu_hw wfi) i v s)"
  using assms(1)
  by (rule fw_sync_map) (blast intro: st_cnt_wr_own info_ge_20 fw_known_info assms(2))

lemma sync_perf:
  "fw_sync wfi (fw, s) \<Longrightarrow> 4 \<le> i \<Longrightarrow> i < 20 \<Longrightarrow> fw_sync wfi (fw, cnt_wr (pmu_hw wfi) i v s)"
  by (erule fw_sync_map) (blast intro: st_cnt_wr_perf)

lemma sync_rd32: "fw_sync wfi (fw, s) \<Longrightarrow> fw_sync wfi (fw, snd (rd32 (pmu_hw wfi) a s))"
  by (erule fw_sync_map) (blast intro: st_rd32)

lemma sync_wr32:
  "fw_sync wfi (fw, s) \<Longrightarrow> counter_index a = None \<Longrightarrow> fw_sync wfi (fw, wr32 (pmu_hw wfi) a v s)"
  by (erule fw_sync_map) (blast intro: st_wr32)

lemma sync_csr: "fw_sync wfi (fw, s) \<Longrightarrow> fw_sync wfi (fw, snd (csr_rd (pmu_hw wfi) r s))"
  by (erule fw_sync_map) (blast intro: st_csr)

lemma sync_irq: "irq_sent fw' = irq_sent fw \<Longrightarrow> fw_sync wfi (fw, s) \<Longrightarrow> fw_sync wfi (fw', s)"
  unfolding fw_sync_def fw_known_def by simp

lemma info_counters [simp]:
  "info_counter CNT_BREADCRUMB" "info_counter CNT_POLL_PERIOD" "info_counter CNT_TOTAL_CYCLES"
  "info_counter CNT_MAX_WORK_CYCLES"
  by (simp_all add: info_counter_def cnt_index_defs)

lemma perf_index:
  assumes "h < 4"
  shows "4 \<le> CNT_LLC_RD_BASE + of_nat h" "CNT_LLC_RD_BASE + of_nat h < 20"
    "4 \<le> CNT_LLC_WR_BASE + of_nat h" "CNT_LLC_WR_BASE + of_nat h < 20"
    "4 \<le> CNT_MEM_RD_BASE + of_nat h" "CNT_MEM_RD_BASE + of_nat h < 20"
    "4 \<le> CNT_MEM_WR_BASE + of_nat h" "CNT_MEM_WR_BASE + of_nat h < 20"
  using less_4_cases [OF assms] by (auto simp: cnt_index_defs)

lemma sync_sample:
  assumes "fw_sync wfi (fw, s)" "h < 4"
  shows "fw_sync wfi (snd (sample_core (pmu_hw wfi) h (fw, s)))"
proof -
  let ?fw = "fst (snd (sample_core (pmu_hw wfi) h (fw, s)))"
  have "fw_sync wfi (fw, snd (snd (sample_core (pmu_hw wfi) h (fw, s))))"
    unfolding sample_core_def Let_def split_beta fst_conv snd_conv read_perf_pmu
    by (intro sync_info sync_perf sync_rd32 perf_index assms info_counters)
  then have "fw_sync wfi (?fw, snd (snd (sample_core (pmu_hw wfi) h (fw, s))))"
    by (rule sync_irq [rotated]) (simp add: sample_core_frame)
  then show ?thesis by simp
qed

subsection \<open>Commands\<close>

lemma parity_Suc: "((n :: u32) + 1) AND 1 = (if n AND 1 = 0 then 1 else 0)"
  by (cases "even n") (simp_all add: and_one_eq mod_2_eq_odd)

text \<open>After a command the counters of the core say what \<open>fw_known\<close> asks, for the new count.\<close>

lemma fw_known_send:
  assumes "fw_known fw G C" "h < 4" "irq_sent fw' = (irq_sent fw)[h := irq_sent fw ! h + 1]"
  shows "fw_known fw' (G(h := \<not> G h))
    (C(28 + of_nat h := (if G h then 0 else 1), 21 + of_nat h := irq_sent fw ! h + 1))"
proof -
  let ?n = "irq_sent fw ! h"
  let ?C = "C(28 + of_nat h := (if G h then 0 else 1), 21 + of_nat h := ?n + 1)"
  have len: "length (irq_sent fw) = 4"
    and known: "\<And>k. k < 4 \<Longrightarrow> C (28 + of_nat k) = irq_sent fw ! k AND 1 \<and>
      C (21 + of_nat k) = irq_sent fw ! k \<and> (G k \<longleftrightarrow> C (28 + of_nat k) \<noteq> 0)"
    using assms(1) by (simp_all add: fw_known_def)
  have apart: "28 + of_nat k \<noteq> (21 + of_nat l :: u32)" if "k < 4" "l < 4" for k l
    using less_4_cases [OF that(1)] less_4_cases [OF that(2)] by auto
  have par: "(?n + 1) AND 1 = (if G h then 0 else 1)"
    using known [OF assms(2)] by (simp add: parity_Suc)
  have "?C (28 + of_nat k) = irq_sent fw' ! k AND 1 \<and> ?C (21 + of_nat k) = irq_sent fw' ! k \<and>
      ((G(h := \<not> G h)) k \<longleftrightarrow> ?C (28 + of_nat k) \<noteq> 0)" if k: "k < 4" for k
  proof (cases "k = h")
    case True
    with assms(2,3) len par apart [of h h] show ?thesis by simp
  next
    case False
    with k assms(2) have "of_nat k \<noteq> (of_nat h :: u32)" by (simp add: of_nat_4_inject)
    with False k assms(2,3) known [OF k] apart [of k h] apart [of h k] show ?thesis by auto
  qed
  with assms(3) len show ?thesis by (simp add: fw_known_def)
qed

lemma own_index:
  assumes "h < 4"
  shows "20 \<le> CNT_THROTTLED_BASE + of_nat h" "20 \<le> CNT_IRQ_SENT_BASE + of_nat h"
  using less_4_cases [OF assms] by (auto simp: cnt_index_defs)

lemma crumb_index: "20 \<le> CNT_BREADCRUMB" "4 \<le> CNT_BREADCRUMB"
  by (simp_all add: cnt_index_defs)

text \<open>Both commands, as the same four counter writes with their own values.\<close>

lemma sync_send:
  assumes "st wfi G C s" "fw_known fw G C" "acked h s" "h < 4"
    "c = (if G h then CMD_RESUME else CMD_PAUSE)" "th = (if G h then 0 else 1)"
    "irq_sent fw' = (irq_sent fw)[h := irq_sent fw ! h + 1]"
  shows "fw_sync wfi (fw', cnt_wr (pmu_hw wfi) (CNT_IRQ_SENT_BASE + of_nat h) (irq_sent fw ! h + 1)
    (cnt_wr (pmu_hw wfi) (CNT_THROTTLED_BASE + of_nat h) th
      (cnt_wr (pmu_hw wfi) (CNT_IRQ_BASE + of_nat h) c
        (cnt_wr (pmu_hw wfi) CNT_BREADCRUMB x s))))"
proof -
  let ?C = "C(CNT_BREADCRUMB := x)"
  let ?s = "cnt_wr (pmu_hw wfi) CNT_BREADCRUMB x s"
  have crumb: "st wfi G ?C ?s" using assms(1) crumb_index(1) by (rule st_cnt_wr_own)
  have "acked h ?s" using assms(1,4,3) crumb_index(2) by (rule acked_cnt_wr)
  with crumb assms(4,5) have "st wfi (G(h := \<not> G h)) ?C (cnt_wr (pmu_hw wfi) (of_nat h) c ?s)"
    by (intro st_cnt_wr_cmd)
  then have "st wfi (G(h := \<not> G h)) ?C (cnt_wr (pmu_hw wfi) (CNT_IRQ_BASE + of_nat h) c ?s)"
    by (simp add: CNT_IRQ_BASE_def)
  then have "st wfi (G(h := \<not> G h))
      (?C(CNT_THROTTLED_BASE + of_nat h := th, CNT_IRQ_SENT_BASE + of_nat h := irq_sent fw ! h + 1))
      (cnt_wr (pmu_hw wfi) (CNT_IRQ_SENT_BASE + of_nat h) (irq_sent fw ! h + 1)
        (cnt_wr (pmu_hw wfi) (CNT_THROTTLED_BASE + of_nat h) th
          (cnt_wr (pmu_hw wfi) (CNT_IRQ_BASE + of_nat h) c ?s)))"
    by (intro st_cnt_wr_own own_index assms(4))
  moreover have "fw_known fw G ?C" using assms(2) by (intro fw_known_info) simp_all
  then have "fw_known fw' (G(h := \<not> G h))
      (?C(28 + of_nat h := th, 21 + of_nat h := irq_sent fw ! h + 1))"
    unfolding assms(6) using assms(4,7) by (rule fw_known_send)
  ultimately show ?thesis
    unfolding CNT_THROTTLED_BASE_def CNT_IRQ_SENT_BASE_def by (rule fw_syncI)
qed

lemma sync_throttle:
  assumes "fw_sync wfi (fw, s)" "h < 4"
  shows "fw_sync wfi (throttle_core (pmu_hw wfi) h (fw, s))"
proof -
  let ?hw = "pmu_hw wfi"
  obtain G C where st: "st wfi G C s" and kn: "fw_known fw G C" using assms(1) by (auto simp: fw_sync_def)
  have len: "length (irq_sent fw) = 4" using kn by (simp add: fw_known_def)
  obtain ch s1 where rd: "READ_MEM ?hw (counter_addr (of_nat h)) s = (ch, s1)"
    by (cases "READ_MEM ?hw (counter_addr (of_nat h)) s")
  have st1: "st wfi G C s1" using st_rd32 [OF st] rd by (metis READ_MEM_def snd_conv)
  show ?thesis
  proof (cases "ch AND CVA_ACK_MASK = CVA_ACK_MASK")
    case False
    then have "throttle_core ?hw h (fw, s) = (fw, s1)"
      by (simp add: throttle_core_def rd Let_def)
    then show ?thesis using st1 kn by (simp add: fw_syncI)
  next
    case True
    let ?s2 = "cnt_wr ?hw CNT_BREADCRUMB (40 + of_nat h) s1"
    let ?C = "C(CNT_BREADCRUMB := 40 + of_nat h)"
    obtain th s3 where thr: "cnt_rd ?hw (CNT_THROTTLED_BASE + of_nat h) ?s2 = (th, s3)"
      by (cases "cnt_rd ?hw (CNT_THROTTLED_BASE + of_nat h) ?s2")
    have ack1: "acked h s1" using st_read_channel [OF st assms(2)] True rd by simp
    have st2: "st wfi G ?C ?s2" using st1 crumb_index(1) by (rule st_cnt_wr_own)
    have ack2: "acked h ?s2" using st1 assms(2) ack1 crumb_index(2) by (rule acked_cnt_wr)
    have kn2: "fw_known fw G ?C" using kn by (intro fw_known_info) simp_all
    have st3: "st wfi G ?C s3" and ack3: "acked h s3"
      and th: "th = ?C (CNT_THROTTLED_BASE + of_nat h)"
      using st_cnt_rd(1) [OF st2] st_cnt_rd(2) [OF st2 own_index(1) [OF assms(2)]]
        st_cnt_rd(3) [OF st2 assms(2) ack2] thr by (metis fst_conv snd_conv)+
    have goal: "G h \<longleftrightarrow> th \<noteq> 0"
      using kn2 assms(2) unfolding th CNT_THROTTLED_BASE_def fw_known_def by blast
    have eval: "throttle_core ?hw h (fw, s) =
      (if sint (token fw ! h) < 0 \<and> th = 0 then send_pause ?hw h (fw, s3)
       else if sint (token fw ! h) \<ge> 0 \<and> th \<noteq> 0 then send_resume ?hw h (fw, s3) else (fw, s3))"
      using True by (simp add: throttle_core_def rd thr Let_def)
    note send = sync_send [OF st3 kn2 ack3 assms(2)]
    have "th = 0 \<Longrightarrow> fw_sync wfi (send_pause ?hw h (fw, s3))"
      unfolding send_pause_def Let_def split_beta fst_conv snd_conv
      using goal len assms(2) by (simp add: send)
    moreover have "th \<noteq> 0 \<Longrightarrow> fw_sync wfi (send_resume ?hw h (fw, s3))"
      unfolding send_resume_def Let_def split_beta fst_conv snd_conv
      using goal len assms(2) by (simp add: send)
    ultimately show ?thesis unfolding eval using fw_syncI [OF st3 kn2] by simp
  qed
qed

lemma sync_police:
  assumes "fw_sync wfi fs" "h < 4"
  shows "fw_sync wfi (police_core (pmu_hw wfi) h fs)"
proof -
  obtain fw s where fs: "fs = (fw, s)" by (cases fs)
  obtain x fw1 s1 where smp: "sample_core (pmu_hw wfi) h (fw, s) = (x, fw1, s1)"
    by (cases "sample_core (pmu_hw wfi) h (fw, s)")
  have "fw_sync wfi (fw1, s1)" using sync_sample [of wfi fw s h] assms by (simp add: fs smp)
  then have "fw_sync wfi (update_token h x fw1, s1)"
    by (rule sync_irq [rotated]) (simp add: update_token_frame)
  then show ?thesis using assms(2) by (simp add: police_core_def fs smp sync_throttle)
qed

lemma sync_police_first: "fw_sync wfi fs \<Longrightarrow> k \<le> 4 \<Longrightarrow> fw_sync wfi (police_first (pmu_hw wfi) k fs)"
  by (induction k) (simp_all add: sync_police)

subsection \<open>Iterations\<close>

lemma sync_iter_begin: "fw_sync wfi fs \<Longrightarrow> fw_sync wfi (iter_begin (pmu_hw wfi) fs)"
proof -
  assume "fw_sync wfi fs"
  then have "fw_sync wfi (fst (iter_begin (pmu_hw wfi) fs), snd fs)"
    by (cases fs) (auto intro: sync_irq simp: iter_begin_frame)
  then show ?thesis
    by (simp add: iter_begin_def split_beta sync_info)
qed

lemma sync_mempol_police: "fw_sync wfi fs \<Longrightarrow> fw_sync wfi (mempol_police (pmu_hw wfi) fs)"
proof -
  assume "fw_sync wfi fs"
  then have "fw_sync wfi (police_first (pmu_hw wfi) NUM_POLICED_CORES (iter_begin (pmu_hw wfi) fs))"
    by (intro sync_police_first sync_iter_begin) (simp_all add: NUM_POLICED_CORES_def)
  then show ?thesis by (simp add: mempol_police_eq split_beta sync_info)
qed

lemma sync_measure_work: "fw_sync wfi fs \<Longrightarrow> fw_sync wfi (measure_work (pmu_hw wfi) fs)"
proof -
  assume sync: "fw_sync wfi fs"
  let ?fs = "measure_work (pmu_hw wfi) fs"
  have "fw_sync wfi (fst fs, snd (read_mcycle (pmu_hw wfi) (snd fs)))"
    using sync by (simp add: read_mcycle_pmu sync_csr)
  then have "fw_sync wfi (fst fs, snd ?fs)"
    by (auto simp: measure_work_def Let_def split_beta intro: sync_info)
  then have "fw_sync wfi (fst ?fs, snd ?fs)"
    by (rule sync_irq [rotated]) (simp add: measure_work_frame)
  then show ?thesis by simp
qed

text \<open>The log lies in the data memory, above every counter.\<close>

lemma counter_index_dspm:
  assumes "0x10428000 \<le> uint a"
  shows "counter_index (u32_to_addr a) = None"
  unfolding counter_index_def find_None_iff
proof
  assume "\<exists>x. x \<in> set (map of_nat [0..<32]) \<and> u32_to_addr (counter_addr x) = u32_to_addr a"
  then obtain i :: u32 where "i \<in> of_nat ` {0..<32}" and eq: "counter_addr i = a"
    unfolding set_map set_upt u32_to_addr_inject by blast
  then have "unat i < 32" by (auto simp: unat_of_nat_32)
  then have "unat (counter_addr i) < 0x10428000"
    by (simp add: counter_addr_bundle unat_bundle_reg)
  then have "uint (counter_addr i) < 0x10428000"
    unfolding uint_nat by linarith
  with assms show False unfolding eq by linarith
qed

lemma dspm_not_counter:
  assumes "a \<in> dspm"
  obtains x :: u32 where "a = u32_to_addr x" "0x10428000 \<le> uint x" "counter_index a = None"
proof -
  obtain x where x: "a = u32_to_addr x" "DSPM_BASE_ADDR \<le> x"
    using assms by (auto simp: dspm_def)
  then have "0x10428000 \<le> uint x" by (simp add: memory_map_defs word_le_def)
  with x that show ?thesis using counter_index_dspm by blast
qed

lemma env_dspm: "a \<in> dspm \<Longrightarrow> read_word (env wfi s) a = read_word s a"
  by (erule dspm_not_counter) (simp add: read_word_def env_frame)

text \<open>The data memory keeps its words while the harts act, as the firmware sees it.\<close>

interpretation apmu_data: data_memory "pmu_hw wfi" dspm read_word for wfi
proof
  fix a b :: u64 and s :: sys and v :: u32
  assume b: "b \<in> dspm"
  then have "counter_index b = None" by (blast elim: dspm_not_counter)
  then show "read_word (wr32 (pmu_hw wfi) a v s) b = (if b = a then v else read_word s b)"
    using b env_dspm [OF b, of wfi s]
    by (auto simp: pmu_hw_def read_word_def write_word_def split: option.split)
next
  fix b x :: u64 and s :: sys and i v :: u32
  assume b: "b \<in> dspm"
  then have none: "counter_index b = None" by (blast elim: dspm_not_counter)
  show "read_word (snd (rd32 (pmu_hw wfi) x s)) b = read_word s b"
    using b by (simp add: pmu_hw_def Let_def env_dspm)
  have frame: "read_word (t\<lparr>s_cnt := c\<rparr>) b = read_word t b" "read_word (t\<lparr>s_cycle := n\<rparr>) b = read_word t b"
    for t c n using none by (simp_all add: read_word_def)
  show "read_word (cnt_wr (pmu_hw wfi) i v s) b = read_word s b"
    "read_word (snd (csr_rd (pmu_hw wfi) i s)) b = read_word s b"
    using b by (simp_all add: pmu_hw_def Let_def frame env_dspm)
qed (simp add: pmu_hw_def Let_def env_dspm)

lemma sync_WRITE_MEM:
  "fw_sync wfi (fw, s) \<Longrightarrow> 0x10428000 \<le> uint a \<Longrightarrow> fw_sync wfi (fw, WRITE_MEM (pmu_hw wfi) a v s)"
  unfolding WRITE_MEM_def by (intro sync_wr32 counter_index_dspm)

lemma sync_write_log: "fw_sync wfi fs \<Longrightarrow> fw_sync wfi (write_log (pmu_hw wfi) fs)"
proof (cases "log_count (fst fs) < DSPM_LOG_MAX_ENTRIES")
  case False
  assume "fw_sync wfi fs"
  with False show ?thesis by (simp add: write_log_def split_beta)
next
  case True
  assume sync: "fw_sync wfi fs"
  have n: "uint (log_count (fst fs)) < 10000"
    using True by (simp add: DSPM_LOG_MAX_ENTRIES_def word_less_def)
  have "0 \<le> uint (log_count (fst fs))" by simp
  then have "0x10428000 \<le> uint (log_entry_addr (log_count (fst fs)))"
    "0x10428000 \<le> uint (log_entry_addr (log_count (fst fs)) + 4)"
    "0x10428000 \<le> uint DSPM_LOG_BASE"
    using n by (simp_all add: uint_log_entry_addr DSPM_LOG_BASE_def DSPM_BASE_ADDR_def)
  with sync True have "fw_sync wfi (fst fs, snd (write_log (pmu_hw wfi) fs))"
    by (simp add: write_log_def split_beta Let_def sync_WRITE_MEM)
  then have "fw_sync wfi (fst (write_log (pmu_hw wfi) fs), snd (write_log (pmu_hw wfi) fs))"
    by (rule sync_irq [rotated]) (simp add: write_log_frame)
  then show ?thesis by simp
qed

lemma sync_read_mcycle: "fw_sync wfi (fw, s) \<Longrightarrow> fw_sync wfi (fw, snd (read_mcycle (pmu_hw wfi) s))"
  by (simp add: read_mcycle_pmu sync_csr)

lemma sync_pad_iteration:
  assumes "pad_iteration (pmu_hw wfi) fs = Some fs'" "fw_sync wfi fs"
  shows "fw_sync wfi fs'"
proof -
  obtain fw s where fs: "fs = (fw, s)" by (cases fs)
  let ?p = "\<lambda>now. \<not> (now - iter_start fw < poll_period fw)"
  let ?hw = "pmu_hw wfi"
  from assms(1) [unfolded fs pad_iteration_def] obtain now s1 where
    poll: "poll_until (read_mcycle ?hw) ?p s = Some (now, s1)"
    and snd: "snd fs' = cnt_wr ?hw CNT_BREADCRUMB 90
      (cnt_wr ?hw CNT_TOTAL_CYCLES (fst (read_mcycle ?hw (cnt_wr ?hw CNT_BREADCRUMB 80 s1)) - cyc_start fw)
        (snd (read_mcycle ?hw (cnt_wr ?hw CNT_BREADCRUMB 80 s1))))"
    by (auto simp: split_beta Let_def bind_eq_Some_conv simp del: not_less)
  have "fw_sync wfi (fw, s1)"
    using poll by (rule poll_until_invariant [where I = "\<lambda>s. fw_sync wfi (fw, s)"])
      (use assms(2) fs sync_read_mcycle in auto)
  then have "fw_sync wfi (fw, snd fs')"
    unfolding snd by (intro sync_info sync_read_mcycle info_counters)
  then have "fw_sync wfi (fst fs', snd fs')"
    by (rule sync_irq [rotated]) (simp add: pad_iteration_frame [OF assms(1)] fs)
  then show ?thesis by simp
qed

lemma sync_mempol_iter:
  "mempol_iter (pmu_hw wfi) fs = Some fs' \<Longrightarrow> fw_sync wfi fs \<Longrightarrow> fw_sync wfi fs'"
  unfolding mempol_iter_def
  by (erule sync_pad_iteration) (intro sync_write_log sync_measure_work sync_mempol_police)

lemma sync_mempol_run:
  "mempol_run (pmu_hw wfi) n fs = Some fs' \<Longrightarrow> fw_sync wfi fs \<Longrightarrow> fw_sync wfi fs'"
proof (induction n arbitrary: fs)
  case 0
  then show ?case by simp
next
  case (Suc n)
  then obtain fs1 where "mempol_iter (pmu_hw wfi) fs = Some fs1" "mempol_run (pmu_hw wfi) n fs1 = Some fs'"
    unfolding mempol_run_Suc by blast
  with Suc.IH [of fs1] Suc.prems(2) show ?case by (blast intro: sync_mempol_iter)
qed


subsection \<open>What the invariant says\<close>

definition core_in_step :: "u64 \<Rightarrow> mempol_fw \<times> sys \<Rightarrow> nat \<Rightarrow> bool" where
  "core_in_step wfi = (\<lambda>(fw, s) k.
     (s_cnt s (28 + of_nat k) \<noteq> 0 \<longleftrightarrow> odd (unat (irq_sent fw ! k))) \<and>
     s_cnt s (21 + of_nat k) = irq_sent fw ! k \<and>
     (in_wfi wfi (h_pc (s_harts s k)) \<longleftrightarrow> g_paused (s_bench s) ! k = 1) \<and>
     (if s_cnt s (of_nat k) = CVA_ACK_MASK
      then (g_paused (s_bench s) ! k = 1 \<longleftrightarrow> s_cnt s (28 + of_nat k) \<noteq> 0)
      else s_cnt s (of_nat k) = (if s_cnt s (28 + of_nat k) \<noteq> 0 then CMD_PAUSE else CMD_RESUME) \<and>
           (g_paused (s_bench s) ! k = 1 \<longleftrightarrow> s_cnt s (28 + of_nat k) = 0)))"

lemma odd_parity: "(n :: u32) AND 1 \<noteq> 0 \<longleftrightarrow> odd (unat n)"
  by (simp add: and_one_eq mod_2_eq_odd bit_unsigned_iff flip: bit_0)

lemma sync_core:
  assumes "fw_sync wfi (fw, s)" "k < 4"
  shows "core_in_step wfi (fw, s) k"
proof -
  obtain G C where st: "st wfi G C s" and kn: "fw_known fw G C" using assms(1) by (auto simp: fw_sync_def)
  have own: "20 \<le> (28 + of_nat k :: u32)" "20 \<le> (21 + of_nat k :: u32)"
    using less_4_cases [OF assms(2)] by auto
  have C: "s_cnt s (28 + of_nat k) = C (28 + of_nat k)" "s_cnt s (21 + of_nat k) = C (21 + of_nat k)"
    using st own by (auto simp: st_def knows_def)
  have fw: "C (28 + of_nat k) = irq_sent fw ! k AND 1" "C (21 + of_nat k) = irq_sent fw ! k"
    "G k \<longleftrightarrow> C (28 + of_nat k) \<noteq> 0"
    using kn assms(2) unfolding fw_known_def by blast+
  have ok: "chan_ok wfi (hart_view s k)" and g: "goal (hart_view s k) = G k"
    using st assms(2) by (simp_all add: st_def sys_ok_def knows_def)
  show ?thesis
    using ok g fw C odd_parity [of "irq_sent fw ! k"]
    by (auto simp: core_in_step_def hart_view_def chan_ok_def goal_def)
qed

text \<open>The states in which the main loop is entered after a clean start.\<close>

definition ready_state :: "u64 \<Rightarrow> mempol_fw \<times> sys \<Rightarrow> bool" where
  "ready_state wfi = (\<lambda>(fw, s).
     irq_sent fw = [0, 0, 0, 0] \<and> g_paused (s_bench s) = [0, 0, 0, 0] \<and>
     length (g_saved_mepc (s_bench s)) = 4 \<and>
     (\<forall>k < 4. s_cnt s (of_nat k) = CVA_ACK_MASK \<and> \<not> in_wfi wfi (h_pc (s_harts s k)) \<and>
        s_cnt s (21 + of_nat k) = 0 \<and> s_cnt s (28 + of_nat k) = 0))"

lemma ready_sync: "ready_state wfi fs \<Longrightarrow> fw_sync wfi fs"
proof -
  assume ready: "ready_state wfi fs"
  obtain fw s where fs: "fs = (fw, s)" by (cases fs)
  have zero: "k < 4 \<Longrightarrow> [0, 0, 0, 0 :: u32] ! k = 0" for k :: nat
    by (drule less_4_cases) auto
  have "chan_ok wfi (hart_view s k) \<and> \<not> goal (hart_view s k)" if "k < 4" for k
    using ready zero [OF that] that by (auto simp: fs ready_state_def hart_view_def chan_ok_def goal_def)
  then have "st wfi (\<lambda>k. False) (s_cnt s) s"
    using ready by (auto simp: st_def sys_ok_def knows_def fs ready_state_def bench_wf_def)
  moreover have "fw_known fw (\<lambda>k. False) (s_cnt s)"
    using ready zero by (auto simp: fw_known_def fs ready_state_def)
  ultimately show ?thesis unfolding fs by (rule fw_syncI)
qed

text \<open>
  The flag after the check of a core that has acknowledged is the sign of its bucket, and so is what
  the core does next.
\<close>

lemma throttled_after:
  assumes "h < 4"
    "fst (READ_MEM (pmu_hw wfi) (counter_addr (of_nat h)) s) AND CVA_ACK_MASK = CVA_ACK_MASK"
  shows "s_cnt (snd (throttle_core (pmu_hw wfi) h (fw, s))) (28 + of_nat h) \<noteq> 0 \<longleftrightarrow> sint (token fw ! h) < 0"
proof -
  have idx: "28 + of_nat h \<noteq> (21 + of_nat h :: u32)" "20 \<le> (28 + of_nat h :: u32)"
    "28 + of_nat h \<noteq> (26 :: u32)" "28 + of_nat h \<noteq> (of_nat h :: u32)"
    using less_4_cases [OF assms(1)] by auto
  obtain ch s1 where rd: "READ_MEM (pmu_hw wfi) (counter_addr (of_nat h)) s = (ch, s1)"
    by (cases "READ_MEM (pmu_hw wfi) (counter_addr (of_nat h)) s")
  have ack: "ch AND CVA_ACK_MASK = CVA_ACK_MASK" using assms(2) rd by simp
  show ?thesis
    using idx ack
    by (cases "sint (token fw ! h) < 0")
      (simp_all add: throttle_core_def rd Let_def split_beta send_pause_def send_resume_def
        cnt_index_defs cnt_wr_pmu cnt_rd_pmu env_counter)
qed

end
