(* ===== verification/Mempol_Theorems.thy ===== *)
theory Mempol_Theorems
  imports Mempol_Sync
begin

text \<open>
  The properties of the mempol regulator: what the token bucket guarantees about the memory traffic
  of a core, that the firmware keeps running, that pausing and resuming stay in step for every
  interleaving of the cores, and what goes wrong when the counters are stale or the shutdown races
  with a pause command. First the machines on which the properties are tried.
\<close>

subsection \<open>Concrete machines\<close>

text \<open>
  A hardware that answers every load with the same word and whose cycle counter advances by \<open>d\<close>.
\<close>

definition steady_hw :: "u32 \<Rightarrow> u64 \<Rightarrow> u64 hw" where
  "steady_hw v d = \<lparr>rd32 = (\<lambda>a s. (v, s)), wr32 = (\<lambda>a v s. s), rd64 = (\<lambda>a s. (ucast v, s)),
     wr64 = (\<lambda>a v s. s), wr8 = (\<lambda>a v s. s), csr_rd = (\<lambda>r s. (s, s + d)), csr_wr = (\<lambda>r v s. s),
     cnt_rd = (\<lambda>i s. (0, s)), cnt_wr = (\<lambda>i v s. s), fence = id\<rparr>"

text \<open>The composed system after a clean start, with traffic \<open>v\<close> in every counter.\<close>

definition fresh_bench :: bench where
  "fresh_bench = \<lparr>g_paused = [0, 0, 0, 0], counter_val = [0, 0, 0, 0],
     g_interrupt_count = [0, 0, 0, 0], g_work_iterations = [0, 0, 0, 0],
     g_saved_mepc = [0, 0, 0, 0], g_core_done = [0, 0, 0, 0], g_interference_go = 1,
     g_mcause = 0, g_mepc = 0, g_claimed_irq = 0, g_irq_log_cycle = [[], [], [], []],
     g_irq_log_type = [[], [], [], []], g_core0_start_mcycle = 0\<rparr>"

definition fresh_sys :: "u32 \<Rightarrow> act list list \<Rightarrow> sys" where
  "fresh_sys v sched = \<lparr>s_cnt = (\<lambda>i. if i < 4 then CVA_ACK_MASK else if i < 20 then v else 0),
     s_mem = (\<lambda>a. 0), s_cycle = 0, s_harts = (\<lambda>k. \<lparr>h_pc = 0x80001000, h_mepc = 0, h_claim = 0\<rparr>),
     s_bench = fresh_bench, s_sched = sched\<rparr>"

text \<open>The same with a command for hart \<open>h\<close> in its channel.\<close>

definition commanded_sys :: "nat \<Rightarrow> u32 \<Rightarrow> sys" where
  "commanded_sys h c = (fresh_sys 0 [])\<lparr>s_cnt := (s_cnt (fresh_sys 0 []))(of_nat h := c)\<rparr>"

lemma fresh_view: "k < 4 \<Longrightarrow> hart_view (fresh_sys v sched) k = (CVA_ACK_MASK, 0x80001000, 0, 0)"
  by (drule less_4_cases) (auto simp: hart_view_def fresh_sys_def fresh_bench_def)

lemma commanded_view:
  "h < 4 \<Longrightarrow> k < 4 \<Longrightarrow> hart_view (commanded_sys h c) k =
     (if k = h then c else CVA_ACK_MASK, 0x80001000, 0, 0)"
  by (simp add: commanded_sys_def hart_view_cmd fresh_view)

lemma commanded_wf: "bench_wf (s_bench (commanded_sys h c))"
  by (simp add: commanded_sys_def fresh_sys_def fresh_bench_def bench_wf_def)

lemma fresh_ready: "ready_state 0x80002000 (mempol_init, fresh_sys v sched)"
  unfolding ready_state_def
  by (auto simp: fresh_sys_def fresh_bench_def mempol_init_def in_wfi_def dest!: less_4_cases)

lemma steady_sample:
  "fst (sample_core (steady_hw v d) idx fs) =
     (v AND 0x7FFFFFFF, v AND 0x7FFFFFFF, v AND 0x7FFFFFFF, v AND 0x7FFFFFFF)"
  by (simp add: sample_core_def split_beta Let_def read_perf_def READ_MEM_def steady_hw_def)

lemma steady_samples:
  "mempol_run (steady_hw v d) n fs = Some fs' \<Longrightarrow> polled_samples (steady_hw v d) idx n fs =
     replicate n (v AND 0x7FFFFFFF, v AND 0x7FFFFFFF, v AND 0x7FFFFFFF, v AND 0x7FFFFFFF)"
  by (induction n arbitrary: fs)
    (auto simp: polled_sample_def steady_sample bind_eq_Some_conv)

interpretation steady: advancing_cycles "steady_hw v 500" "\<lambda>s. ucast s" for v
proof
  fix s :: u64
  have step: "(ucast (s + 500) :: u32) = ucast s + 500"
    by (rule word_uint_eqI)
      (simp add: unsigned_ucast_eq take_bit_eq_mod uint_word_ariths mod_simps mod_mod_cancel)
  show "fst (read_mcycle (steady_hw v 500) s) = ucast s"
    by (simp add: read_mcycle_def steady_hw_def)
  have "ucast (snd (read_mcycle (steady_hw v 500) s)) - (ucast s :: u32) = 500"
    using step by (simp add: read_mcycle_def steady_hw_def)
  then show "1 \<le> uint (ucast (snd (read_mcycle (steady_hw v 500) s)) - (ucast s :: u32))"
    "uint (ucast (snd (read_mcycle (steady_hw v 500) s)) - (ucast s :: u32)) \<le> 2 ^ 31"
    by simp_all
qed

subsection \<open>Regulation\<close>

lemma run_traffic:
  assumes "mempol_run hw n fs = Some fs'" "idx < 4" "length (token (fst fs)) = 4"
    "params (fst fs) = params mempol_init" "sint (token (fst fs) ! idx) \<le> 344000"
    "in_range_run (fst fs) (sint (token (fst fs) ! idx)) (polled_samples hw idx n fs)"
  shows "sint (token (fst fs') ! idx) = bucket_run 344000 172000 (sint (token (fst fs) ! idx))
      (map (cost mempol_init) (polled_samples hw idx n fs))"
proof -
  have cap: "capacity (fst fs) = 344000" "refill (fst fs) = 172000" "config_ok (fst fs)"
    "cost (fst fs) = cost mempol_init"
    using mempol_init_params refill_capacity_params [OF assms(4)] cost_params [OF assms(4)] by simp_all
  have "sint (charge_run (fst fs) (token (fst fs) ! idx) (polled_samples hw idx n fs)) =
      bucket_run (capacity (fst fs)) (refill (fst fs)) (sint (token (fst fs) ! idx))
        (map (cost (fst fs)) (polled_samples hw idx n fs))"
    using assms(5,6) cap by (intro charge_run_refines) simp_all
  then show ?thesis
    using cap mempol_run_token [OF assms(1-3)] by simp
qed


lemma cost_init:
  "cost mempol_init (a, b, c, d) = 10000 * uint a + 6120 * uint c + 4400 * uint d"
  by (simp add: cost_def mempol_init_def)

lemma init_fields:
  "token mempol_init = [0, 0, 0, 0]" "poll_period mempol_init = 2000"
  "irq_sent mempol_init = [0, 0, 0, 0]" "log_count mempol_init = 0" "log_decision_0 mempol_init = 0"
  by (simp_all add: mempol_init_def)

lemma replicate_23: "replicate 2 x = [x, x]" "replicate 3 x = [x, x, x]"
  by (simp_all add: eval_nat_numeral)

lemma Suc_3: "Suc 3 = 4"
  by simp

lemma steady_run:
  "\<exists>fs'. mempol_run (steady_hw v 500) n (mempol_init, 0) = Some fs'"
  by (rule steady.run_returns) (simp add: mempol_init_def)


text \<open>C2. The 32-bit bucket is the integer bucket: after \<open>n\<close> periods the token of a core is what the
  integer specification \<open>bucket_run\<close> (add 172000, subtract the weighted traffic, cap at 344000)
  gives on the same samples.\<close>

theorem mempol_token_refines_bucket:
  assumes "mempol_run hw n fs = Some fs'" "idx < 4" "length (token (fst fs)) = 4"
    "params (fst fs) = params mempol_init" "sint (token (fst fs) ! idx) \<le> 344000"
    "in_range_run (fst fs) (sint (token (fst fs) ! idx)) (polled_samples hw idx n fs)"
  shows "sint (token (fst fs') ! idx) = bucket_run 344000 172000 (sint (token (fst fs) ! idx))
    (map (cost mempol_init) (polled_samples hw idx n fs))"
  by (rule run_traffic [OF assms])

theorem mempol_token_refines_bucket_witness:
  "\<exists>fs'. mempol_run (steady_hw 10 500) 2 (mempol_init, 0) = Some fs' \<and>
     sint (token (fst fs') ! 3) = - 66400"
proof -
  obtain fs' where run: "mempol_run (steady_hw 10 500) 2 (mempol_init, 0) = Some fs'"
    using steady_run by blast
  have xs: "polled_samples (steady_hw 10 500) 3 2 (mempol_init, 0) = [(10, 10, 10, 10), (10, 10, 10, 10)]"
    using steady_samples [OF run] by (simp add: replicate_23)
  have "in_range_run mempol_init 0 [(10, 10, 10, 10), (10, 10, 10, 10)]"
    by (simp add: cost_init bucket_step_def mempol_init_params)
  then have "sint (token (fst fs') ! 3) = - 66400"
    using mempol_token_refines_bucket [OF run, of 3] unfolding fst_conv xs
    by (simp add: cost_init init_fields bucket_step_def)
  with run show ?thesis by blast
qed

lemma token_cap_init: "params fw = params mempol_init \<Longrightarrow> sint (token_cap fw) = 344000"
  using refill_capacity_params(3) [of fw mempol_init] mempol_init_params sint_token_cap by simp

lemma iter_token_cap:
  assumes "mempol_iter hw fs = Some fs'" "idx < 4" "length (token (fst fs)) = 4"
    "params (fst fs) = params mempol_init"
  shows "sint (token (fst fs') ! idx) \<le> 344000"
  using mempol_iter_token [OF assms(1-3)] token_cap_init [OF assms(4)] charge_le_cap
  by metis

text \<open>C3. No core ever holds more than the cap: after at least one period, whatever the hardware
  returned and even if the bucket arithmetic wrapped around, the token is at most 344000.\<close>

theorem mempol_token_le_cap:
  assumes "mempol_run hw (Suc n) fs = Some fs'" "idx < 4" "length (token (fst fs)) = 4"
    "params (fst fs) = params mempol_init"
  shows "sint (token (fst fs') ! idx) \<le> 344000"
  using assms
proof (induction n arbitrary: fs)
  case 0
  then obtain fs1 where "mempol_iter hw fs = Some fs1" "mempol_run hw 0 fs1 = Some fs'"
    unfolding mempol_run_Suc by blast
  with 0 show ?case using iter_token_cap [of hw fs fs1 idx] by simp
next
  case (Suc n)
  then obtain fs1 where it: "mempol_iter hw fs = Some fs1" and run: "mempol_run hw (Suc n) fs1 = Some fs'"
    unfolding mempol_run_Suc [of hw "Suc n"] by blast
  show ?case
    using run Suc.prems mempol_iter_frame [OF it] by (intro Suc.IH [of fs1]) simp_all
qed

theorem mempol_token_le_cap_witness:
  "\<exists>fs'. mempol_run (steady_hw 0x7FFFFFFF 500) 4 (mempol_init, 0) = Some fs' \<and>
     sint (token (fst fs') ! 2) \<le> 344000"
proof -
  obtain fs' where run: "mempol_run (steady_hw 0x7FFFFFFF 500) (Suc 3) (mempol_init, 0) = Some fs'"
    using steady_run by blast
  have "sint (token (fst fs') ! 2) \<le> 344000"
    using mempol_token_le_cap [OF run, of 2] by (simp add: init_fields)
  moreover have "mempol_run (steady_hw 0x7FFFFFFF 500) 4 (mempol_init, 0) = Some fs'"
    using run unfolding Suc_3 .
  ultimately show ?thesis by blast
qed

text \<open>C4. The firmware keeps polling: in the composed system, for every schedule of the harts, every
  number of iterations of the main loop completes.\<close>

theorem mempol_keeps_polling:
  assumes "poll_period (fst fs) = 2000"
  shows "\<exists>fs'. mempol_run (pmu_hw wfi) n fs = Some fs'"
  using assms by (intro apmu.run_returns) simp

theorem mempol_keeps_polling_witness:
  "\<exists>fs'. mempol_run (pmu_hw 0x80002000) 50 (mempol_init, fresh_sys 9 [[Irq 1 157], [Traffic 5 3]]) = Some fs'"
  by (rule mempol_keeps_polling) (simp add: init_fields)




subsection \<open>Pause and resume\<close>

text \<open>C6. Pausing and resuming stay in step. From a clean start and for every schedule (harts that
  run, take interrupts in any order with any claim, and produce traffic between any two accesses of
  the firmware), after any number of iterations every core satisfies \<open>core_in_step\<close>: its
  \<open>throttled\<close> flag is the parity of the commands sent to it, the published count is that number, it
  is in \<open>wfi_loop\<close> exactly when its pause flag is set, an acknowledged core is paused exactly when
  it is throttled, and a command in the channel is the one that leads there.\<close>

theorem pause_resume_in_step:
  assumes "ready_state wfi fs" "mempol_run (pmu_hw wfi) n fs = Some (fw, s)" "k < 4"
  shows "core_in_step wfi (fw, s) k"
  using sync_mempol_run [OF assms(2) ready_sync [OF assms(1)]] assms(3) by (rule sync_core)

theorem pause_resume_in_step_witness:
  "\<exists>fw s. mempol_run (pmu_hw 0x80002000) 20
      (mempol_init, fresh_sys 100 [[Irq 0 156], [Traffic 4 8, Irq 2 158]]) = Some (fw, s) \<and>
     core_in_step 0x80002000 (fw, s) 2"
proof -
  have "\<exists>fs'. mempol_run (pmu_hw 0x80002000) 20
      (mempol_init, fresh_sys 100 [[Irq 0 156], [Traffic 4 8, Irq 2 158]]) = Some fs'"
    by (rule apmu.run_returns) (simp add: init_fields)
  then obtain fw s where run: "mempol_run (pmu_hw 0x80002000) 20
      (mempol_init, fresh_sys 100 [[Irq 0 156], [Traffic 4 8, Irq 2 158]]) = Some (fw, s)" by auto
  have "core_in_step 0x80002000 (fw, s) 2"
    using pause_resume_in_step [OF fresh_ready run, of 2] by simp
  with run show ?thesis by blast
qed




text \<open>C8. The trap handler of the CVA6 cores implements the protocol: an interrupt taken by hart \<open>h\<close>
  with the claim \<open>c\<close> changes the channel, program counter, pause flag and saved program counter of
  \<open>h\<close> as \<open>obey\<close> says, and of no other hart. In particular a claim that is not the hart's own
  interrupt changes none of the four.\<close>

theorem handler_refines_obey:
  assumes "h < 4" "k < 4" "bench_wf (s_bench s)"
  shows "hart_view (take_irq wfi h c s) k =
    (if k = h then obey wfi (c = PMU_IRQ_CORE (of_nat h)) (hart_view s h) else hart_view s k)"
  by (rule take_irq_view [OF assms])

theorem handler_refines_obey_witness:
  "hart_view (take_irq 0x80002000 2 158 (commanded_sys 2 CMD_PAUSE)) 2 =
     (CVA_ACK_MASK, 0x80002000, 1, 0x80001000)"
  using handler_refines_obey [of 2 2 "commanded_sys 2 CMD_PAUSE" "0x80002000" 158]
  by (simp add: commanded_view commanded_wf obey_def PMU_IRQ_CORE_def PMU_IRQ_BASE_def)

definition take_irqs :: "u64 \<Rightarrow> (nat \<times> u32) list \<Rightarrow> sys \<Rightarrow> sys" where
  "take_irqs wfi = fold (\<lambda>(h, c). step_act wfi (Irq h c))"

lemma take_irqs_app_pc:
  "sys_ok wfi s \<Longrightarrow> k < 4 \<Longrightarrow> app_pc (hart_view (take_irqs wfi irqs s) k) = app_pc (hart_view s k)"
proof (induction irqs arbitrary: s)
  case Nil
  then show ?case by (simp add: take_irqs_def)
next
  case (Cons i irqs)
  obtain h c where i: "i = (h, c)" by (cases i)
  have "app_pc (hart_view (step_act wfi (Irq h c) s) k) = app_pc (hart_view s k)"
    using Cons.prems take_irq_view [of h k s wfi c] by (auto simp: sys_ok_def obey_app_pc)
  then show ?case
    using Cons.IH [OF step_act_keeps(1) [OF Cons.prems(1), of "Irq h c"] Cons.prems(2)]
    by (simp add: take_irqs_def i)
qed

text \<open>C9. Interrupts are transparent to the program of a core: through any sequence of interrupts of
  any harts, pausing and resuming included, the program counter the core is at, or will go back to
  when it is resumed, does not change.\<close>

theorem interrupts_transparent:
  assumes "sys_ok wfi s" "k < 4"
  shows "app_pc (hart_view (take_irqs wfi irqs s) k) = app_pc (hart_view s k)"
  by (rule take_irqs_app_pc [OF assms])

lemma fresh_ok: "sys_ok 0x80002000 (fresh_sys v sched)"
  using ready_sync [OF fresh_ready] by (auto simp: fw_sync_def st_def)

theorem interrupts_transparent_witness:
  "app_pc (hart_view (take_irqs 0x80002000 [(1, 157), (3, 159), (1, 157), (0, 5)] (fresh_sys 4 [])) 1) =
     0x80001000"
  using interrupts_transparent [OF fresh_ok, of 1]
  by (simp add: fresh_view app_pc_def)

text \<open>C10. A command is carried out and acknowledged by one interrupt: in every state the protocol
  reaches, a hart that takes its own interrupt acknowledges, and is paused in \<open>wfi_loop\<close> exactly when
  the command in its channel (or, without a command, its state before) asks for it.\<close>

theorem command_carried_out:
  assumes "sys_ok wfi s" "h < 4"
  shows "s_cnt (take_irq wfi h (PMU_IRQ_CORE (of_nat h)) s) (of_nat h) = CVA_ACK_MASK \<and>
    in_wfi wfi (h_pc (s_harts (take_irq wfi h (PMU_IRQ_CORE (of_nat h)) s) h)) = goal (hart_view s h)"
proof -
  let ?s = "take_irq wfi h (PMU_IRQ_CORE (of_nat h)) s"
  have view: "hart_view ?s h = obey wfi True (hart_view s h)" and ok: "chan_ok wfi (hart_view s h)"
    using assms take_irq_view [of h h s wfi] by (simp_all add: sys_ok_def)
  have ack: "fst (hart_view ?s h) = CVA_ACK_MASK" unfolding view by (rule obey_acks [OF ok])
  have "chan_ok wfi (hart_view ?s h)" "goal (hart_view ?s h) = goal (hart_view s h)"
    unfolding view by (rule obey_chan_ok [OF ok], rule obey_goal [OF ok])
  with ack show ?thesis
    by (auto simp: hart_view_def chan_ok_def goal_def)
qed

theorem command_carried_out_witness:
  "in_wfi 0x80002000 (h_pc (s_harts (take_irq 0x80002000 3 159 (commanded_sys 3 CMD_PAUSE)) 3))"
proof -
  have "chan_ok 0x80002000 (hart_view (commanded_sys 3 CMD_PAUSE) k)" if "k < 4" for k
    using that by (simp add: commanded_view chan_ok_def in_wfi_def)
  then have "sys_ok 0x80002000 (commanded_sys 3 CMD_PAUSE)"
    by (simp add: sys_ok_def commanded_wf)
  from command_carried_out [OF this, of 3] show ?thesis
    by (simp add: commanded_view goal_def PMU_IRQ_CORE_def PMU_IRQ_BASE_def)
qed


subsection \<open>Stale counters and shutdown\<close>

lemma env_quiet: "s_sched s = [] \<Longrightarrow> env wfi s = s"
  by (simp add: env_def)

lemma read_channel_quiet:
  "s_sched s = [] \<Longrightarrow> h < 4 \<Longrightarrow> READ_MEM (pmu_hw wfi) (COUNTER_BASE_ADDR + of_nat h * COUNTER_BUNDLE_SIZE) s =
     (s_cnt s (of_nat h), s)"
  by (simp add: READ_MEM_def pmu_hw_def Let_def env_quiet read_word_def counter_index_addr unat_of_nat_4)

text \<open>C11. A defect: neither the firmware nor \<open>pmu_bench.c\<close> clears the \<open>throttled\<close> counters 28 to 31.
  With a flag left over from an earlier run, the firmware sends a resume command to a core that was
  never paused as soon as it has acknowledged and its bucket is not negative; the core's next
  interrupt then jumps to whatever \<open>g_saved_mepc\<close> holds, 0 after the reinitialisation of \<open>main\<close>.\<close>

theorem stale_throttled_flag_derails_core:
  assumes "h < 4" "s_sched s = []" "bench_wf (s_bench s)" "s_cnt s (of_nat h) = CVA_ACK_MASK"
    "s_cnt s (28 + of_nat h) \<noteq> 0" "0 \<le> sint (token fw ! h)"
  shows "h_pc (s_harts (take_irq wfi h (PMU_IRQ_CORE (of_nat h))
      (snd (throttle_core (pmu_hw wfi) h (fw, s)))) h) = g_saved_mepc (s_bench s) ! h"
proof -
  let ?s = "snd (throttle_core (pmu_hw wfi) h (fw, s))"
  have idx: "28 + of_nat h \<noteq> (26 :: u32)" "of_nat h \<noteq> (26 :: u32)" "of_nat h \<noteq> (21 + of_nat h :: u32)"
    "of_nat h \<noteq> (28 + of_nat h :: u32)"
    using less_4_cases [OF assms(1)] by auto
  have "s_cnt ?s (of_nat h) = CMD_RESUME \<and> s_bench ?s = s_bench s"
    using idx assms(2,4-6) read_channel_quiet [OF assms(2,1)]
    by (simp add: throttle_core_def Let_def split_beta send_pause_def send_resume_def cnt_index_defs
        cnt_wr_pmu cnt_rd_pmu env_quiet del: of_nat_eq_iff)
  then show ?thesis
    using take_irq_view [of h h ?s wfi "PMU_IRQ_CORE (of_nat h)"] assms(1,3)
    by (simp add: hart_view_def obey_def)
qed

theorem stale_throttled_flag_derails_core_witness:
  "h_pc (s_harts (take_irq 0x80002000 1 157 (snd (throttle_core (pmu_hw 0x80002000) 1
      (mempol_init, (fresh_sys 0 [])\<lparr>s_cnt := (s_cnt (fresh_sys 0 []))(29 := 1)\<rparr>)))) 1) = 0"
  using stale_throttled_flag_derails_core [of 1 "(fresh_sys 0 [])\<lparr>s_cnt := (s_cnt (fresh_sys 0 []))(29 := 1)\<rparr>"
      mempol_init "0x80002000"]
  by (simp add: init_fields PMU_IRQ_CORE_def PMU_IRQ_BASE_def)
    (simp add: fresh_sys_def fresh_bench_def bench_wf_def)

lemma cva_rd_channel:
  "k < 4 \<Longrightarrow> rd32 (cva_hw 0) (u32_to_addr (COUNTER_BASE_ADDR + of_nat k * COUNTER_BUNDLE_SIZE)) s =
     (s_cnt s (of_nat k), s)"
  "k < 4 \<Longrightarrow> wr32 (cva_hw 0) (u32_to_addr (COUNTER_BASE_ADDR + of_nat k * COUNTER_BUNDLE_SIZE)) v s =
     s\<lparr>s_cnt := (s_cnt s)(of_nat k := v)\<rparr>"
proof -
  assume k: "k < 4"
  have "u32_to_addr (counter_addr (of_nat k)) \<noteq> u32_to_addr (plic_claim_addr (PLIC_CONTEXT_CORE (of_nat 0)))"
    using claim_not_counter [of 0] counter_index_addr [of "of_nat k"] k
    by (auto simp: unat_of_nat_4 simp del: of_nat_0)
  then show "rd32 (cva_hw 0) (u32_to_addr (counter_addr (of_nat k))) s = (s_cnt s (of_nat k), s)"
    "wr32 (cva_hw 0) (u32_to_addr (counter_addr (of_nat k))) v s = s\<lparr>s_cnt := (s_cnt s)(of_nat k := v)\<rparr>"
    using k by (simp_all add: cva_hw_def read_word_def write_word_def counter_index_addr unat_of_nat_4)
qed

lemma resume_paused_core_eval:
  "k < 4 \<Longrightarrow> resume_paused_core (cva_hw 0) id k (b, s) =
     (b, if g_paused b ! k \<noteq> 0 then s\<lparr>s_cnt := (s_cnt s)(of_nat k := CMD_RESUME)\<rparr> else s)"
  by (simp add: resume_paused_core_def Let_def read_32b_def write_32b_def cva_rd_channel CMD_RESUME_def)





lemma take_irqs_stuck:
  assumes "bench_wf (s_bench s)" "k < 4" "fst (hart_view s k) = CVA_ACK_MASK"
  shows "hart_view (take_irqs wfi irqs s) k = hart_view s k"
  using assms(1,3)
proof (induction irqs arbitrary: s)
  case Nil
  then show ?case by (simp add: take_irqs_def)
next
  case (Cons i irqs)
  obtain h c where i: "i = (h, c)" by (cases i)
  let ?s = "step_act wfi (Irq h c) s"
  have view: "hart_view ?s k = hart_view s k"
    using Cons.prems assms(2) take_irq_view [of h k s wfi c] by (auto simp: obey_acked)
  have "bench_wf (s_bench ?s)" using Cons.prems(1) by (simp add: take_irq_frame)
  with Cons.IH [of ?s] Cons.prems view show ?case by (simp add: take_irqs_def i)
qed

text \<open>C13. A defect of the same loop: it looks only at the pause flags. A core whose pause command is
  still in the channel is not resumed; its interrupt then pauses it, and no further interrupt of any
  core brings it out of \<open>wfi_loop\<close>, since the halted APMU sends no more commands. Such a core never
  reports that it is done.\<close>

theorem shutdown_misses_pending_pause:
  assumes "sys_ok wfi s" "k < 4" "s_cnt s (of_nat k) = CMD_PAUSE"
  shows "in_wfi wfi (h_pc (s_harts (take_irqs wfi ((k, PMU_IRQ_CORE (of_nat k)) # irqs)
    (snd (resume_paused_core (cva_hw 0) id k (s_bench s, s)))) k))"
proof -
  let ?s = "take_irq wfi k (PMU_IRQ_CORE (of_nat k)) s"
  have wf: "bench_wf (s_bench s)" and ok: "chan_ok wfi (hart_view s k)"
    using assms(1,2) by (simp_all add: sys_ok_def)
  have view: "hart_view ?s k = obey wfi True (hart_view s k)"
    using assms(2) wf by (simp add: take_irq_view)
  have p: "g_paused (s_bench s) ! k = 0"
    using ok assms(3) by (auto simp: chan_ok_def hart_view_def)
  obtain pc q sv where "hart_view s k = (CMD_PAUSE, pc, q, sv)"
    using assms(3) by (simp add: hart_view_def)
  then have "hart_view ?s k = (CVA_ACK_MASK, wfi, 1, pc)" by (simp add: view obey_def)
  then have "fst (hart_view ?s k) = CVA_ACK_MASK" "in_wfi wfi (fst (snd (hart_view ?s k)))"
    by (simp_all add: in_wfi_def)
  moreover have "bench_wf (s_bench ?s)" using wf assms(2) by (simp add: take_irq_frame)
  ultimately have "in_wfi wfi (fst (snd (hart_view (take_irqs wfi irqs ?s) k)))"
    using take_irqs_stuck [of ?s k wfi irqs] assms(2) by simp
  then show ?thesis
    using p assms(2) by (simp add: resume_paused_core_eval take_irqs_def hart_view_def)
qed

theorem shutdown_misses_pending_pause_witness:
  "in_wfi 0x80002000 (h_pc (s_harts (take_irqs 0x80002000 [(3, 159), (3, 159), (1, 157)]
    (snd (resume_paused_core (cva_hw 0) id 3 (s_bench (commanded_sys 3 CMD_PAUSE), commanded_sys 3 CMD_PAUSE)))) 3))"
proof -
  have "chan_ok 0x80002000 (hart_view (commanded_sys 3 CMD_PAUSE) k)" if "k < 4" for k
    using that by (simp add: commanded_view chan_ok_def in_wfi_def)
  then have ok: "sys_ok 0x80002000 (commanded_sys 3 CMD_PAUSE)"
    by (simp add: sys_ok_def commanded_wf)
  have "s_cnt (commanded_sys 3 CMD_PAUSE) (of_nat 3) = CMD_PAUSE"
    using commanded_view [of 3 3 CMD_PAUSE] by (simp add: hart_view_def)
  from shutdown_misses_pending_pause [OF ok _ this, of "[(3, 159), (1, 157)]"] show ?thesis
    by (simp add: PMU_IRQ_CORE_def PMU_IRQ_BASE_def)
qed


subsection \<open>The log\<close>

text \<open>The log of core 0 has one record per polling period until it is full, and then stays: after
  \<open>n\<close> iterations from an empty log its count is \<open>min 10000 n\<close>.\<close>

theorem log_count_exact:
  assumes "mempol_run hw n fs = Some fs'" "log_count (fst fs) = 0"
  shows "unat (log_count (fst fs')) = min 10000 n"
  using mempol_run_log_count [OF assms(1)] assms(2) by simp

theorem log_count_exact_witness:
  "\<exists>fs'. mempol_run (steady_hw 7 500) 12345 (mempol_init, 0) = Some fs' \<and>
     unat (log_count (fst fs')) = 10000"
proof -
  obtain fs' where run: "mempol_run (steady_hw 7 500) 12345 (mempol_init, 0) = Some fs'"
    using steady_run by blast
  have "unat (log_count (fst fs')) = 10000"
    using log_count_exact [OF run] by (simp add: init_fields)
  with run show ?thesis by blast
qed



lemma dspm_read_back:
  assumes "0x10428000 \<le> uint x" "0x10428000 \<le> uint y"
  shows "read_word (wr32 (pmu_hw wfi) (u32_to_addr x) v s) (u32_to_addr y) =
    (if y = x then v else read_word s (u32_to_addr y))"
  using assms counter_index_dspm [OF assms(2)] env_frame(2) [of y wfi s]
  by (auto simp: pmu_hw_def read_write_word u32_to_addr_inject) (simp add: read_word_def)

lemma cva_read_dspm:
  assumes "h < 4" "0x10428000 \<le> uint x"
  shows "rd32 (cva_hw h) (u32_to_addr x) s = (read_word s (u32_to_addr x), s)"
proof -
  have "uint (plic_claim_addr (PLIC_CONTEXT_CORE (of_nat h))) < 0x10000000"
    using less_4_cases [OF assms(1)] by (auto simp: plic_claim_addr_def PLIC_CONTEXT_CORE_def plic_consts)
  with assms(2) have "x \<noteq> plic_claim_addr (PLIC_CONTEXT_CORE (of_nat h))" by auto
  then show ?thesis by (simp add: cva_hw_def u32_to_addr_inject)
qed

text \<open>C31. What the firmware logs is what the dump decodes: after \<open>write_log\<close>, with the harts acting in
  between, the dump of that record on core 0 gives the traffic of core 0 clamped to the widths of
  its fields, the decision, and the token with its sign.\<close>

theorem log_read_back:
  assumes "uint (log_count fw) < 10000" "log_decision_0 fw \<le> 3" "- (2 ^ 29) \<le> sint (token fw ! 0)"
    "sint (token fw ! 0) < 2 ^ 29"
  shows "fst (dump_entries (cva_hw 0) [unat (log_count fw)] (snd (write_log (pmu_hw wfi) (fw, s)))) =
    [\<lparr>le_llc_rd = clamp_to 511 (log_llc_rd_0 fw), le_llc_wr = clamp_to 511 (log_llc_wr_0 fw),
      le_mem_rd = clamp_to 127 (log_mem_rd_0 fw), le_mem_wr = clamp_to 127 (log_mem_wr_0 fw),
      le_decision = log_decision_0 fw, le_token = token fw ! 0\<rparr>]"
proof -
  let ?n = "log_count fw" and ?s = "snd (write_log (pmu_hw wfi) (fw, s))"
  have lt: "?n < DSPM_LOG_MAX_ENTRIES" using assms(1) by (simp add: word_less_def DSPM_LOG_MAX_ENTRIES_def)
  note addr = uint_log_entry_addr [OF assms(1)]
  have base: "uint DSPM_LOG_BASE = 0x1042A000" by (simp add: DSPM_LOG_BASE_def DSPM_BASE_ADDR_def)
  have n0: "0 \<le> uint ?n" by simp
  have neq: "log_entry_addr ?n \<noteq> log_entry_addr ?n + 4" "log_entry_addr ?n \<noteq> DSPM_LOG_BASE"
    "log_entry_addr ?n + 4 \<noteq> DSPM_LOG_BASE"
  proof -
    have "uint (log_entry_addr ?n) \<noteq> uint (log_entry_addr ?n + 4)"
      "uint (log_entry_addr ?n) \<noteq> uint DSPM_LOG_BASE" "uint (log_entry_addr ?n + 4) \<noteq> uint DSPM_LOG_BASE"
      unfolding addr base using n0 by linarith+
    then show "log_entry_addr ?n \<noteq> log_entry_addr ?n + 4" "log_entry_addr ?n \<noteq> DSPM_LOG_BASE"
      "log_entry_addr ?n + 4 \<noteq> DSPM_LOG_BASE" by metis+
  qed
  have w: "read_word ?s (u32_to_addr (log_entry_addr ?n)) = log_word0 fw"
    "read_word ?s (u32_to_addr (log_entry_addr ?n + 4)) = log_word1 fw"
    using lt neq addr base n0
    by (simp_all add: write_log_def Let_def WRITE_MEM_def dspm_read_back)
  have d: "log_decision_0 fw \<le> mask 2" using assms(2) by (simp add: mask_eq_exp_minus_1)
  show ?thesis
    using addr n0
    by (simp add: read_32b_def cva_read_dspm w)
      (simp add: log_entry.equality decode_word0 decode_word1 [OF d assms(3,4)])
qed

theorem log_read_back_witness:
  "fst (dump_entries (cva_hw 0) [5] (snd (write_log (pmu_hw 0x80002000)
     (mempol_init\<lparr>log_count := 5, token := [- 86000, 0, 0, 0], log_decision_0 := 1, log_llc_rd_0 := 600,
        log_mem_rd_0 := 31\<rparr>, fresh_sys 0 [])))) =
   [\<lparr>le_llc_rd = 511, le_llc_wr = 0, le_mem_rd = 31, le_mem_wr = 0, le_decision = 1, le_token = - 86000\<rparr>]"
  using log_read_back [of "mempol_init\<lparr>log_count := 5, token := [- 86000, 0, 0, 0], log_decision_0 := 1,
      log_llc_rd_0 := 600, log_mem_rd_0 := 31\<rparr>" "0x80002000" "fresh_sys 0 []"]
  by (simp add: mempol_init_def clamp_to_def)

end
