(* ===== verification/Bringup_Theorems.thy ===== *)
theory Bringup_Theorems
  imports Mempol_Theorems
begin

text \<open>
  The properties of the bring-up code on the CVA6 side: interrupt setup, loading the firmware,
  programming the counters, the I/O protection unit, the cache registers and the UART. Stores and
  loads are those of the composed system.
\<close>

subsection \<open>Addresses of registers\<close>



lemma uint_claim_addr:
  "h < 4 \<Longrightarrow> uint (plic_claim_addr (PLIC_CONTEXT_CORE (of_nat h))) = 0xC200004 + 0x2000 * int h"
  by (drule less_4_cases) (auto simp: plic_claim_addr_def PLIC_CONTEXT_CORE_def plic_consts)

lemma uint_ie_addr:
  assumes "k < 4" "uint src < 1024"
  shows "uint (plic_ie_addr (PLIC_CONTEXT_CORE (of_nat k)) src) = 0xC002000 + 0x100 * int k + 4 * (uint src div 32)"
proof -
  have "uint (drop_bit 5 src) = uint src div 32" by (simp add: drop_bit_eq_div uint_div)
  moreover have "uint src < 1024" "0 \<le> uint src" using assms(2) by simp_all
  moreover from this have "uint src div 32 \<le> 31" "0 \<le> uint src div 32" by presburger+
  ultimately show ?thesis
    using less_4_cases [OF assms(1)]
    by (auto simp: plic_ie_addr_def PLIC_CONTEXT_CORE_def plic_consts uint_word_ariths)
qed

lemma plain_if_not_claim:
  "h < 4 \<Longrightarrow> uint a \<noteq> 0xC200004 + 0x2000 * int h \<Longrightarrow> u32_to_addr a \<in> plain_addresses h"
  using uint_claim_addr [of h] by (auto simp: plain_addresses_def u32_to_addr_inject)

subsection \<open>Interrupt controller\<close>

text \<open>Enabling or disabling one interrupt source touches one bit: in the composed system the
  store of \<open>plic_set_ie\<close> changes the bit of the source in the enable word of the context and nothing
  else, in that word or elsewhere.\<close>

theorem plic_set_ie_one_bit:
  assumes "h < 4" "k < 4" "uint src < 1024" "n < 32"
  shows "bit (read_word (plic_set_ie (cva_hw h) (PLIC_CONTEXT_CORE (of_nat k)) src v s) b) n =
    (if b = u32_to_addr (plic_ie_addr (PLIC_CONTEXT_CORE (of_nat k)) src) \<and> n = unat src mod 32
     then v \<noteq> 0 else bit (read_word s b) n)"
proof -
  let ?a = "u32_to_addr (plic_ie_addr (PLIC_CONTEXT_CORE (of_nat k)) src)"
  have "uint src div 32 \<le> 31" using assms(3) uint_ge_0 [of src] by presburger
  then have "uint (plic_ie_addr (PLIC_CONTEXT_CORE (of_nat k)) src) < 0xC200004"
    unfolding uint_ie_addr [OF assms(2,3)] using assms(2) by linarith
  then have "?a \<in> plain_addresses h" by (intro plain_if_not_claim assms(1)) linarith
  then have eq: "plic_set_ie (cva_hw h) (PLIC_CONTEXT_CORE (of_nat k)) src v s =
      write_word ?a (plic_new_ie (read_word s ?a) src v) s"
    by (simp add: plic_set_ie_def pulp_read32_def pulp_write32_def Let_def hart.load)
      (simp add: cva_hw_def)
  show ?thesis
    unfolding eq read_write_word
    by (cases "b = ?a") (simp_all only: if_True if_False simp_thms bit_plic_new_ie [OF assms(4)])
qed

theorem plic_set_ie_one_bit_witness:
  "bit (read_word (plic_set_ie (cva_hw 2) (PLIC_CONTEXT_CORE 2) 158 1 (fresh_sys 0 []))
     (u32_to_addr (plic_ie_addr 4 158))) 30"
  using plic_set_ie_one_bit [of 2 2 158 30 1 "fresh_sys 0 []" "u32_to_addr (plic_ie_addr 4 158)"]
  by (simp add: PLIC_CONTEXT_CORE_def)


subsection \<open>Setup of a core\<close>






subsection \<open>Loading the firmware\<close>










subsection \<open>Counters\<close>

lemma sel_addr: "EVENT_SEL_BASE_ADDR + i * COUNTER_BUNDLE_SIZE = bundle_reg 1 i"
  by (rule event_sel_bundle)

definition cnt_of :: "nat \<Rightarrow> nat \<Rightarrow> u32" where
  "cnt_of g core = group_base ! g + of_nat core"

lemma unat_cnt_of: "g < 4 \<Longrightarrow> core < 4 \<Longrightarrow> unat (cnt_of g core) = 4 * g + 4 + core"
  by (drule less_4_cases, drule less_4_cases) (auto simp: cnt_of_def group_base_def)

lemma configure_counter_sel:
  assumes "g < 4" "core < 4" "unat j < 32"
  shows "read_word (configure_counter (cva_hw 0) g core s) (u32_to_addr (bundle_reg 1 j)) =
    (if j = cnt_of g core then event_groups ! g ! core else read_word s (u32_to_addr (bundle_reg 1 j)))"
proof -
  have i: "unat (cnt_of g core) < 32" using assms by (simp add: unat_cnt_of)
  have inj: "bundle_reg 1 j = bundle_reg r (cnt_of g core) \<longleftrightarrow> 1 = r \<and> j = cnt_of g core" if "unat r < 4" for r
    using that i assms(3) by (intro bundle_reg_inject) simp_all
  have "bundle_reg 1 j \<noteq> bundle_reg 0 (cnt_of g core)" "bundle_reg 1 j \<noteq> bundle_reg 2 (cnt_of g core)"
    "bundle_reg 1 j = bundle_reg 1 (cnt_of g core) \<longleftrightarrow> j = cnt_of g core"
    using inj [of 0] inj [of 1] inj [of 2] by simp_all
  then show ?thesis
    unfolding configure_counter_def Let_def write_32b_def cnt_of_def [symmetric]
      event_sel_bundle event_info_bundle counter_addr_bundle
    by (simp add: cva_hw_def read_write_word u32_to_addr_inject)
qed

lemma configure_group_sel:
  assumes "g < 4" "unat j < 32" "n \<le> 4"
  shows "read_word (for_upto n (\<lambda>core. configure_counter (cva_hw 0) g core) s) (u32_to_addr (bundle_reg 1 j)) =
    (if \<exists>core < n. j = cnt_of g core then event_groups ! g ! (unat j mod 4)
     else read_word s (u32_to_addr (bundle_reg 1 j)))"
  using assms(3)
proof (induction n)
  case 0
  then show ?case by simp
next
  case (Suc n)
  have "(4 * g + 4 + n) mod 4 = n" using Suc.prems by presburger
  then have "j = cnt_of g n \<Longrightarrow> unat j mod 4 = n" using Suc.prems assms(1) by (simp add: unat_cnt_of)
  then show ?case using Suc assms(1,2) by (auto simp: for_upto_Suc configure_counter_sel less_Suc_eq)
qed


text \<open>Programming the counters: after \<open>configure_counters\<close> the selection register of traffic
  counter \<open>group_base ! g + core\<close> holds the event of the group for the core.\<close>

theorem counters_programmed:
  assumes "g < 4" "core < 4"
  shows "read_word (configure_counters (cva_hw 0) s)
      (u32_to_addr (EVENT_SEL_BASE_ADDR + (group_base ! g + of_nat core) * COUNTER_BUNDLE_SIZE)) =
    event_groups ! g ! core"
proof -
  let ?j = "cnt_of g core"
  have "(4 * g + 4 + core) mod 4 = core" using assms(2) by presburger
  then have j: "unat ?j < 32" "unat ?j mod 4 = core"
    using assms by (simp_all add: unat_cnt_of)
  have hit: "(\<exists>c < NUM_CORES. ?j = cnt_of h c) \<longleftrightarrow> h = g" if "h < 4" for h
  proof
    assume "\<exists>c < NUM_CORES. ?j = cnt_of h c"
    then obtain c where "c < 4" "?j = cnt_of h c" by (auto simp: NUM_CORES_def)
    then have "4 * g + 4 + core = 4 * h + 4 + c" using assms that by (simp flip: unat_cnt_of)
    with \<open>c < 4\<close> assms(2) show "h = g" by presburger
  qed (use assms(2) in \<open>auto simp: NUM_CORES_def\<close>)
  have grp: "read_word (for_upto NUM_CORES (\<lambda>core. configure_counter (cva_hw 0) h core) t)
      (u32_to_addr (bundle_reg 1 ?j)) =
    (if h = g then event_groups ! g ! core else read_word t (u32_to_addr (bundle_reg 1 ?j)))"
    if "h < 4" for h t
    using configure_group_sel [OF that j(1), of NUM_CORES] hit [OF that] j(2) by (simp add: NUM_CORES_def)
  have "read_word (for_upto n (\<lambda>g. for_upto NUM_CORES (\<lambda>core. configure_counter (cva_hw 0) g core)) s)
      (u32_to_addr (bundle_reg 1 ?j)) =
    (if g < n then event_groups ! g ! core else read_word s (u32_to_addr (bundle_reg 1 ?j)))" if "n \<le> 4" for n
    using that
  proof (induction n)
    case (Suc n)
    then show ?case using grp [of n] by (auto simp: for_upto_Suc less_Suc_eq)
  qed simp
  from this [of 4] show ?thesis
    using assms(1) unfolding configure_counters_def event_sel_bundle cnt_of_def by simp
qed

theorem counters_programmed_witness:
  "read_word (configure_counters (cva_hw 0) (fresh_sys 0 []))
     (u32_to_addr (EVENT_SEL_BASE_ADDR + (group_base ! 2 + of_nat 3) * COUNTER_BUNDLE_SIZE)) = 0x9F3F1F"
  using counters_programmed [of 2 3 "fresh_sys 0 []"]
  by (simp add: event_groups_def MEM_RD_REQ_CORE_def del: of_nat_numeral)


text \<open>A defect in the event table: of the memory-port events every code is the one of its core
  (port 9, the core, event 1 for reads and 2 for writes), except that the write event of core 1 is
  the one of core 2, so counter 17 counts the writes of core 2 and those of core 1 are charged to
  nobody.\<close>

theorem mem_write_event_of_core_1:
  "MEM_RD_REQ_CORE = map (\<lambda>core. mem_event 9 (of_nat core) 1) [0..<4] \<and>
   MEM_WR_REQ_CORE = map (\<lambda>core. mem_event 9 (if core = 1 then 2 else of_nat core) 2) [0..<4] \<and>
   MEM_WR_REQ_CORE ! 1 \<noteq> mem_event 9 1 2"
  by code_simp

subsection \<open>I/O protection\<close>

text \<open>C37. A power-of-two region set through \<open>iopmp_entry_set\<close> is the region asked for: from the value
  of the address register the unit decodes the aligned base and the length \<open>2 ^ log2len\<close>.\<close>

theorem iopmp_napot_region:
  assumes "prot AND MODE_NA \<noteq> 0" "3 \<le> unat log2len" "unat log2len < 64" "addr AND mask (unat log2len) = 0"
  shows "napot_base (entry_pmpaddr (entry_prot prot log2len) addr log2len) = addr \<and>
    napot_length (entry_pmpaddr (entry_prot prot log2len) addr log2len) = push_bit (unat log2len) 1"
  using napot_region [OF napot_selected [OF assms(1)] assms(2-4)] by blast

theorem iopmp_napot_region_witness:
  "napot_base (entry_pmpaddr (entry_prot (MODE_NAPOT OR ACCESS_READ) 12) 0x80001000 12) = 0x80001000"
proof -
  have "(0x80001000 :: u64) AND mask (unat (12 :: u64)) = 0" by (simp add: mask_eq_exp_minus_1)
  from iopmp_napot_region [OF _ _ _ this, of "MODE_NAPOT OR ACCESS_READ"] show ?thesis
    by (simp add: iopmp_flags)
qed

text \<open>The configuration \<open>main\<close> gives the APMU: the unit is enabled, master 0 belongs to domain 0
  only, domain 0 owns the entries below 5, and entry 1 is a top-of-range entry for reading and
  writing whose bound is \<open>0x1C000040\<close>.\<close>

theorem iopmp_configuration:
  "read_word (configure_iopmp (cva_hw 0) s) 0x50040008 = 0x80000000 \<and>
   read_word (configure_iopmp (cva_hw 0) s) 0x50041000 = 2 \<and>
   read_word (configure_iopmp (cva_hw 0) s) 0x50040800 = 5 \<and>
   read_word (configure_iopmp (cva_hw 0) s) 0x50042018 = ucast (MODE_TOR OR ACCESS_READ OR ACCESS_WRITE) \<and>
   push_bit 2 (ucast (read_word (configure_iopmp (cva_hw 0) s) 0x50042010)) = (0x1C000040 :: u64)"
  by (simp add: configure_iopmp_def enable_iopmp_def mdcfg_entry_config_def srcmd_entry_config_def
      set_entry_tor_def iopmp_entry_set_def entry_prot_def entry_pmpaddr_two iopmp_offsets iopmp_flags
      write32_def write64_def read32_def md_value_def Let_def split_beta)
    (simp add: cva_hw_def read_write_word)

text \<open>The word of a master lists exactly its domains: bit \<open>n + 1\<close> is set for the domains of the
  list and no others.\<close>

theorem iopmp_domains:
  assumes "n < 31"
  shows "bit (push_bit 1 (md_value mds)) (n + 1) \<longleftrightarrow> (\<exists>md \<in> set mds. unat md = n)"
  unfolding bit_push_bit_iff using assms by (simp add: bit_md_value)

theorem iopmp_domains_witness: "bit (push_bit 1 (md_value [3, 7])) (7 + 1)"
  using iopmp_domains [of 7 "[3, 7]"] by simp

subsection \<open>Cache registers and UART\<close>

text \<open>A 64-bit setting of the cache, split over two 32-bit registers, reads back whole, at any base
  clear of the claim register.\<close>

theorem llc_spm_round_trip:
  assumes "base \<in> plain_addresses h" "base + 4 \<in> plain_addresses h"
  shows "axi_llc_reg32_get_spm (cva_hw h) base (axi_llc_reg32_set_spm (cva_hw h) v base s) =
    (v, axi_llc_reg32_set_spm (cva_hw h) v base s)"
  using assms word_store.get_set_reg_64 [OF hart.word_store_axioms, of base 0 h 4 v s]
  by (simp add: axi_llc_reg32_get_spm_def axi_llc_reg32_set_spm_def)

theorem llc_spm_round_trip_witness:
  "fst (axi_llc_reg32_get_spm (cva_hw 0) 0x10401040
     (axi_llc_reg32_set_spm (cva_hw 0) 0x123456789ABCDEF0 0x10401040 (fresh_sys 0 []))) = 0x123456789ABCDEF0"
proof -
  have "(0x10401040 :: u64) \<in> plain_addresses 0" "(0x10401040 + 4 :: u64) \<in> plain_addresses 0"
    by (simp_all add: plain_addresses_def plic_claim_addr_def PLIC_CONTEXT_CORE_def plic_consts)
  from llc_spm_round_trip [OF this, of "0x123456789ABCDEF0" "fresh_sys 0 []"] show ?thesis by simp
qed

text \<open>Sending in batches of the FIFO depth sends the string: with a transmitter that stays ready
  the driver stores the characters one after the other, as one \<open>uart_sendchar\<close> each would.\<close>

theorem uart_send_is_sendchars:
  assumes "\<And>s. tx_ready (fst (rd32 hw UART_REG_LSR s)) \<and> snd (rd32 hw UART_REG_LSR s) = s"
  shows "uart_send hw str s = fold (\<lambda>c os. Option.bind os (uart_sendchar hw c)) str (Some s)"
proof -
  have one: "uart_sendchar hw c s = Some (wr32 hw UART_REG_THR (ucast c) s)" for c s
  proof -
    have "poll_until (rd32 hw UART_REG_LSR) tx_ready s = Some (rd32 hw UART_REG_LSR s)"
      using assms by (intro poll_until_hit) simp
    then show ?thesis using assms [of s] by (simp add: uart_sendchar_def split_beta)
  qed
  have "fold (\<lambda>c os. Option.bind os (uart_sendchar hw c)) str (Some s) = Some (send_batch hw str s)" for s
    by (induction str arbitrary: s) (simp_all add: send_batch_def one)
  then show ?thesis using uart_send_ready [OF assms] by simp
qed

text \<open>A transmitter that is always ready and remembers what was stored.\<close>

definition trace_hw :: "(u64 \<times> u32) list hw" where
  "trace_hw = \<lparr>rd32 = (\<lambda>a s. (0x60, s)), wr32 = (\<lambda>a v s. s @ [(a, v)]), rd64 = (\<lambda>a s. (0, s)),
     wr64 = (\<lambda>a v s. s), wr8 = (\<lambda>a v s. s), csr_rd = (\<lambda>r s. (0, s)), csr_wr = (\<lambda>r v s. s),
     cnt_rd = (\<lambda>i s. (0, s)), cnt_wr = (\<lambda>i v s. s), fence = id\<rparr>"

lemma trace_ready: "tx_ready (fst (rd32 trace_hw UART_REG_LSR s)) \<and> snd (rd32 trace_hw UART_REG_LSR s) = s"
  by (simp add: trace_hw_def tx_ready_def)

theorem uart_send_is_sendchars_witness:
  "uart_send trace_hw [0x48, 0x69] [] = Some [(0x40000000, 0x48), (0x40000000, 0x69)]"
proof -
  have "poll_until (rd32 trace_hw UART_REG_LSR) tx_ready s = Some (rd32 trace_hw UART_REG_LSR s)" for s
    using trace_ready by (intro poll_until_hit) simp
  then show ?thesis
    using uart_send_is_sendchars [OF trace_ready, of "[0x48, 0x69]" "[]"]
    by (simp add: uart_sendchar_def split_beta) (simp add: trace_hw_def UART_REG_THR_def UART_BASE_ADDR_def)
qed

end
