(* ===== verification/Sad_Firmware.thy ===== *)
theory Sad_Firmware
  imports Mempol_Firmware
begin

text \<open>
  The profiling firmware of the APMU core, \<open>sad_profile/pmu_firmware/main.c\<close>. Two counters tick when
  the profiled function on core 0 is entered and left; the firmware polls them, takes a snapshot of
  the statistics at an entry and logs the differences at an exit: one record per call, running
  totals, and the number of calls. The addresses of the function are fixed at build time, so they
  are arguments.
\<close>

subsection \<open>Constants\<close>

definition DSPM_LOG_CALL_COUNT :: u32 where "DSPM_LOG_CALL_COUNT = DSPM_LOG_BASE + 0x00"
definition DSPM_LOG_STATE :: u32 where "DSPM_LOG_STATE = DSPM_LOG_BASE + 0x04"
definition DSPM_LOG_TOTALS :: u32 where "DSPM_LOG_TOTALS = DSPM_LOG_BASE + 0x08"
definition DSPM_LOG_RECORDS :: u32 where "DSPM_LOG_RECORDS = DSPM_LOG_BASE + 0x80"
definition RECORD_WORDS :: u32 where "RECORD_WORDS = 9"
definition MAX_LOG_RECORDS :: u32 where "MAX_LOG_RECORDS = 1000"
definition DSPM_INSTRET_BASE :: u32 where "DSPM_INSTRET_BASE = DSPM_BASE_ADDR + 0x1F00"
definition DSPM_PMU_INSTRET :: u32 where "DSPM_PMU_INSTRET = DSPM_INSTRET_BASE + 0x00"
definition DSPM_PMU_MCYCLE :: u32 where "DSPM_PMU_MCYCLE = DSPM_INSTRET_BASE + 0x04"

definition CNT_LLC_RD_C0 :: u32 where "CNT_LLC_RD_C0 = 4"
definition CNT_LLC_WR_C0 :: u32 where "CNT_LLC_WR_C0 = 8"
definition CNT_MEM_RD_C0 :: u32 where "CNT_MEM_RD_C0 = 12"
definition CNT_MEM_WR_C0 :: u32 where "CNT_MEM_WR_C0 = 16"
definition CNT_MILESTONE_0 :: u32 where "CNT_MILESTONE_0 = 20"
definition CNT_MILESTONE_EXIT :: u32 where "CNT_MILESTONE_EXIT = 21"
definition CNT_L1_MISS :: u32 where "CNT_L1_MISS = 22"
definition CNT_STALLS :: u32 where "CNT_STALLS = 23"
definition CNT_LLC_RD_LAT :: u32 where "CNT_LLC_RD_LAT = 27"
definition CNT_LLC_WR_LAT :: u32 where "CNT_LLC_WR_LAT = 28"

definition APMU_COUNTER_B_BASE :: u32 where "APMU_COUNTER_B_BASE = 0x10407000"
definition APMU_COUNTER_STRIDE :: u32 where "APMU_COUNTER_STRIDE = 0x1000"

lemmas sad_log_defs = DSPM_LOG_CALL_COUNT_def DSPM_LOG_STATE_def DSPM_LOG_TOTALS_def
  DSPM_LOG_RECORDS_def RECORD_WORDS_def MAX_LOG_RECORDS_def DSPM_INSTRET_BASE_def
  DSPM_PMU_INSTRET_def DSPM_PMU_MCYCLE_def DSPM_LOG_BASE_def DSPM_BASE_ADDR_def

subsection \<open>State\<close>

text \<open>
  The locals of \<open>main\<close>. The eight snapshots are in the order in which the code reads the counters
  (LLC reads and writes, memory reads and writes, L1 misses, stalls, read and write latency), the
  nine totals in the order of the log (cycles, L1 misses, stalls, LLC reads and writes, memory
  reads and writes, read and write latency).
\<close>

record sad_fw =
  call_count :: u32
  totals :: "u32 list"
  prev_entry :: u32
  prev_exit :: u32
  mcycle_entry :: u32
  snaps :: "u32 list"

definition sad_init :: sad_fw where
  "sad_init = \<lparr>call_count = 0, totals = replicate 9 0, prev_entry = 0, prev_exit = 0,
     mcycle_entry = 0, snaps = replicate 8 0\<rparr>"

subsection \<open>Operations\<close>

definition cnt_val :: "'s hw \<Rightarrow> u32 \<Rightarrow> 's \<Rightarrow> u32 \<times> 's" where
  "cnt_val hw n = READ_MEM hw (APMU_COUNTER_B_BASE + n * APMU_COUNTER_STRIDE)"

definition cnt_masked :: "'s hw \<Rightarrow> u32 \<Rightarrow> 's \<Rightarrow> u32 \<times> 's" where
  "cnt_masked hw n s = (case cnt_val hw n s of (v, s) \<Rightarrow> (v AND 0x7FFFFFFF, s))"

fun read_list :: "('a \<Rightarrow> 's \<Rightarrow> 'v \<times> 's) \<Rightarrow> 'a list \<Rightarrow> 's \<Rightarrow> 'v list \<times> 's" where
  "read_list rd [] s = ([], s)"
| "read_list rd (x # xs) s =
     (let (v, s) = rd x s; (vs, s) = read_list rd xs s in (v # vs, s))"

definition stat_counters :: "u32 list" where
  "stat_counters = [CNT_LLC_RD_C0, CNT_LLC_WR_C0, CNT_MEM_RD_C0, CNT_MEM_WR_C0,
     CNT_L1_MISS, CNT_STALLS, CNT_LLC_RD_LAT, CNT_LLC_WR_LAT]"

definition read_stats :: "'s hw \<Rightarrow> 's \<Rightarrow> u32 list \<times> 's" where
  "read_stats hw = read_list (cnt_masked hw) stat_counters"

text \<open>Consecutive words from an address up.\<close>

definition write_words :: "'s hw \<Rightarrow> u32 \<Rightarrow> u32 list \<Rightarrow> 's \<Rightarrow> 's" where
  "write_words hw base vs = for_upto (length vs) (\<lambda>i. WRITE_MEM hw (base + 4 * of_nat i) (vs ! i))"

definition sad_entry :: "'s hw \<Rightarrow> u32 \<Rightarrow> sad_fw \<times> 's \<Rightarrow> sad_fw \<times> 's" where
  "sad_entry hw cur_entry = (\<lambda>(fw, s).
     let (cyc, s) = read_mcycle hw s;
         (vs, s) = read_stats hw s;
         s = cnt_wr hw CNT_BREADCRUMB (10 + call_count fw) s;
         s = WRITE_MEM hw DSPM_LOG_STATE 1 s
     in (fw\<lparr>mcycle_entry := cyc, snaps := vs, prev_entry := cur_entry\<rparr>, s))"

text \<open>The differences of a call, put in the order of the log.\<close>

definition log_order :: "u32 \<Rightarrow> u32 list \<Rightarrow> u32 list" where
  "log_order cyc d = [cyc, d ! 4, d ! 5, d ! 0, d ! 1, d ! 2, d ! 3, d ! 6, d ! 7]"

definition call_record :: "sad_fw \<Rightarrow> u32 \<Rightarrow> u32 list \<Rightarrow> u32 list" where
  "call_record fw mcycle_exit vs = log_order (mcycle_exit - mcycle_entry fw) (map2 (-) vs (snaps fw))"

definition record_addr :: "u32 \<Rightarrow> u32" where
  "record_addr n = DSPM_LOG_RECORDS + n * RECORD_WORDS * 4"

definition sad_exit :: "'s hw \<Rightarrow> u32 \<Rightarrow> sad_fw \<times> 's \<Rightarrow> sad_fw \<times> 's" where
  "sad_exit hw cur_exit = (\<lambda>(fw, s).
     let (cyc, s) = read_mcycle hw s;
         (vs, s) = read_stats hw s;
         rec = call_record fw cyc vs;
         fw = fw\<lparr>totals := map2 (+) (totals fw) rec\<rparr>;
         s = write_words hw DSPM_LOG_TOTALS (totals fw) s;
         s = (if call_count fw < MAX_LOG_RECORDS then write_words hw (record_addr (call_count fw)) rec s else s);
         fw = fw\<lparr>call_count := call_count fw + 1\<rparr>;
         s = WRITE_MEM hw DSPM_LOG_CALL_COUNT (call_count fw) s;
         s = cnt_wr hw CNT_BREADCRUMB (100 + call_count fw) s;
         s = WRITE_MEM hw DSPM_LOG_STATE 0 s
     in (fw\<lparr>prev_exit := cur_exit\<rparr>, s))"

text \<open>One turn of the polling loop.\<close>

definition sad_poll :: "'s hw \<Rightarrow> sad_fw \<times> 's \<Rightarrow> sad_fw \<times> 's" where
  "sad_poll hw = (\<lambda>(fw, s).
     let (cur_entry, s) = cnt_masked hw CNT_MILESTONE_0 s;
         (cur_exit, s) = cnt_masked hw CNT_MILESTONE_EXIT s;
         (fw, s) = (if cur_entry \<noteq> prev_entry fw then sad_entry hw cur_entry (fw, s) else (fw, s))
     in if cur_exit \<noteq> prev_exit fw then sad_exit hw cur_exit (fw, s) else (fw, s))"

definition sad_run :: "'s hw \<Rightarrow> nat \<Rightarrow> sad_fw \<times> 's \<Rightarrow> sad_fw \<times> 's" where
  "sad_run hw n = sad_poll hw ^^ n"

definition sad_boot :: "'s hw \<Rightarrow> u32 \<Rightarrow> u32 \<Rightarrow> 's \<Rightarrow> (sad_fw \<times> 's) option" where
  "sad_boot hw func_entry func_exit s = do {
     let s = WRITE_MEM hw (0x10606010 + 0) func_entry s;
     let s = WRITE_MEM hw (0x10606010 + 8) func_exit s;
     let s = WRITE_MEM hw (0x10606010 + 16) 0 s;
     let s = WRITE_MEM hw (0x10606010 + 24) 0 s;
     let s = WRITE_MEM hw 0x10429000 0xC4A0E440 s;
     let s = csr_wr hw CSR_MCOUNTINHIBIT 0 s;
     let s = WRITE_MEM hw DSPM_CMD_ADDR CMD_NONE s;
     let s = for_upto 4 (\<lambda>c. cnt_wr hw (CNT_IRQ_BASE + of_nat c) 0) s;
     let s = for_upto ((0x80 + 1000 * 9 * 4) div 4) (\<lambda>i. WRITE_MEM hw (DSPM_LOG_BASE + 4 * of_nat i) 0) s;
     let s = WRITE_MEM hw DSPM_PMU_INSTRET 0 s;
     let s = WRITE_MEM hw DSPM_PMU_MCYCLE 0 s;
     let s = WRITE_MEM hw DSPM_STATUS_ADDR STATUS_STARTED s;
     (_, s) \<leftarrow> poll_until (READ_MEM hw DSPM_CMD_ADDR) (\<lambda>v. v = CMD_TRIGGER_INTERRUPT) s;
     let s = WRITE_MEM hw DSPM_CMD_ADDR CMD_NONE s;
     let s = WRITE_MEM hw DSPM_STATUS_ADDR STATUS_SENDING_IRQS s;
     let s = WRITE_MEM hw DSPM_STATUS_ADDR STATUS_ALL_IRQS_SENT s;
     let s = cnt_wr hw CNT_BREADCRUMB 1 s;
     let s = fold (\<lambda>i. cnt_wr hw i 0) stat_counters s;
     let s = cnt_wr hw CNT_MILESTONE_0 0 s;
     let s = cnt_wr hw CNT_MILESTONE_EXIT 0 s;
     let (_, s) = read_mcycle hw s;
     let (_, s) = csr_rd hw CSR_MINSTRET s;
     Some (sad_init, cnt_wr hw CNT_BREADCRUMB 2 s)
   }"

definition sad_main :: "'s hw \<Rightarrow> u32 \<Rightarrow> u32 \<Rightarrow> nat \<Rightarrow> 's \<Rightarrow> (sad_fw \<times> 's) option" where
  "sad_main hw func_entry func_exit n s = map_option (sad_run hw n) (sad_boot hw func_entry func_exit s)"

subsection \<open>The records of a run\<close>

text \<open>The record, if any, that one turn of the loop makes, and those of a run.\<close>

definition poll_record :: "'s hw \<Rightarrow> sad_fw \<times> 's \<Rightarrow> u32 list list" where
  "poll_record hw = (\<lambda>(fw, s).
     let (cur_entry, s) = cnt_masked hw CNT_MILESTONE_0 s;
         (cur_exit, s) = cnt_masked hw CNT_MILESTONE_EXIT s;
         (fw, s) = (if cur_entry \<noteq> prev_entry fw then sad_entry hw cur_entry (fw, s) else (fw, s))
     in if cur_exit \<noteq> prev_exit fw then
          let (cyc, s) = read_mcycle hw s; (vs, s) = read_stats hw s in [call_record fw cyc vs]
        else [])"

fun run_records :: "'s hw \<Rightarrow> nat \<Rightarrow> sad_fw \<times> 's \<Rightarrow> u32 list list" where
  "run_records hw 0 fs = []"
| "run_records hw (Suc n) fs = poll_record hw fs @ run_records hw n (sad_poll hw fs)"

text \<open>The sampled exit count and the state in which the firmware decides about the exit.\<close>

definition entered :: "'s hw \<Rightarrow> sad_fw \<times> 's \<Rightarrow> u32 \<times> sad_fw \<times> 's" where
  "entered hw = (\<lambda>(fw, s).
     let (cur_entry, s) = cnt_masked hw CNT_MILESTONE_0 s;
         (cur_exit, s) = cnt_masked hw CNT_MILESTONE_EXIT s
     in (cur_exit, if cur_entry \<noteq> prev_entry fw then sad_entry hw cur_entry (fw, s) else (fw, s)))"

lemma sad_poll_entered:
  "entered hw fs = (c, fw, s) \<Longrightarrow> sad_poll hw fs = (if c \<noteq> prev_exit fw then sad_exit hw c (fw, s) else (fw, s))"
  by (auto simp: entered_def sad_poll_def split_beta Let_def)

lemma poll_record_entered:
  "entered hw fs = (c, fw, s) \<Longrightarrow> poll_record hw fs = (if c \<noteq> prev_exit fw then
     [call_record fw (fst (read_mcycle hw s)) (fst (read_stats hw (snd (read_mcycle hw s))))] else [])"
  by (auto simp: entered_def poll_record_def split_beta Let_def)

lemma length_call_record [simp]: "length (call_record fw c vs) = 9"
  by (simp add: call_record_def log_order_def)

lemma sad_entry_frame:
  "call_count (fst (sad_entry hw c fs)) = call_count (fst fs)"
  "totals (fst (sad_entry hw c fs)) = totals (fst fs)"
  "prev_exit (fst (sad_entry hw c fs)) = prev_exit (fst fs)"
  by (simp_all add: sad_entry_def split_beta Let_def)

lemma sad_poll_totals:
  "totals (fst (sad_poll hw fs)) = fold (\<lambda>r t. map2 (+) t r) (poll_record hw fs) (totals (fst fs))"
  "call_count (fst (sad_poll hw fs)) = call_count (fst fs) + of_nat (length (poll_record hw fs))"
  by (simp_all add: sad_poll_def poll_record_def split_beta Let_def sad_exit_def sad_entry_frame)

lemma sad_run_Suc: "sad_run hw (Suc n) fs = sad_run hw n (sad_poll hw fs)"
  by (simp add: sad_run_def funpow_Suc_right del: funpow.simps)

lemma sad_run_totals:
  "totals (fst (sad_run hw n fs)) = fold (\<lambda>r t. map2 (+) t r) (run_records hw n fs) (totals (fst fs)) \<and>
   call_count (fst (sad_run hw n fs)) = call_count (fst fs) + of_nat (length (run_records hw n fs))"
proof (induction n arbitrary: fs)
  case 0
  then show ?case by (simp add: sad_run_def)
next
  case (Suc n)
  then show ?case by (simp add: sad_run_Suc sad_poll_totals)
qed

lemma length_run_record: "r \<in> set (run_records hw n fs) \<Longrightarrow> length r = 9"
proof (induction n arbitrary: fs)
  case 0
  then show ?case by simp
next
  case (Suc n)
  have "r \<in> set (poll_record hw fs) \<Longrightarrow> length r = 9"
    by (simp add: poll_record_def Let_def split_beta split: if_splits)
  with Suc.IH [of "sad_poll hw fs"] Suc.prems show ?case by auto
qed

lemma fold_add_lists:
  assumes "\<forall>r \<in> set rs. length r = length t" "i < length t"
  shows "fold (\<lambda>r t. map2 (+) t r) rs t ! i = t ! i + sum_list (map (\<lambda>r. r ! i) rs)"
  using assms by (induction rs arbitrary: t) (simp_all add: add.assoc)

lemma uint_record_addr:
  assumes "uint n < 1000"
  shows "uint (record_addr n) = 0x1042A080 + 36 * uint n"
proof -
  have "uint (n * 9 * 4) = 36 * uint n" using assms by (simp add: uint_word_ariths)
  then show ?thesis using assms by (simp add: record_addr_def sad_log_defs uint_word_ariths)
qed

end
