(* ===== verification/Sad_Bench.thy ===== *)
theory Sad_Bench
  imports Sad_Firmware Mempol_Main "HOL-Library.Signed_Division"
begin

text \<open>
  The CVA6 side of the profiler, \<open>sad_profile/pmu_bench.c\<close>: it starts the profiling firmware twice,
  programs the event unit with the entry and exit addresses of the profiled function, runs the
  workload without and with interference and compares the two logs. Trap handler, core setup,
  counters and cache partition are the functions of \<open>mempol/pmu_bench.c\<close>, word for word, and are
  taken from \<open>Mempol_Bench\<close>. The workload, the disparity benchmark reading its images from the file
  system, is an argument.
\<close>

definition EVENTID_C0_BASE_ADDR :: u32 where "EVENTID_C0_BASE_ADDR = 0x10606000"
definition PC_MILESTONE_C0_BASE_ADDR :: u32 where "PC_MILESTONE_C0_BASE_ADDR = 0x10606010"
definition PERF_COUNTER_EVU_C0_EV0 :: u32 where "PERF_COUNTER_EVU_C0_EV0 = 0x1F0011"
definition PERF_COUNTER_EVU_C0_EV2 :: u32 where "PERF_COUNTER_EVU_C0_EV2 = 0x1F0044"
definition ADD_RESP_LAT :: u32 where "ADD_RESP_LAT = 0x8001E0"
definition DSPM_MILESTONE_LOG_ADDR :: u32 where "DSPM_MILESTONE_LOG_ADDR = DSPM_BASE_ADDR + 0x2000"
definition EVU_C0_EV1_SEL :: u32 where "EVU_C0_EV1_SEL = 0x001F0022"
definition EVU_INFO_CFG :: "u32 \<Rightarrow> u32" where "EVU_INFO_CFG n = push_bit 23 1 OR push_bit 5 n OR n"

definition sad_enable_llc :: "'s hw \<Rightarrow> 's \<Rightarrow> 's" where
  "sad_enable_llc hw = write_32b hw (0x1C + 0x1A106000) 0xA0000000"

subsection \<open>Results\<close>

record pass_results =
  pr_call_count :: u32
  pr_cyc_disp :: u32
  pr_tot_cyc :: u32
  pr_tot_l1 :: u32
  pr_tot_stall :: u32
  pr_tot_llcrd :: u32
  pr_tot_llcwr :: u32
  pr_tot_memrd :: u32
  pr_tot_memwr :: u32
  pr_tot_rlat :: u32
  pr_tot_wlat :: u32
  pr_pmu_instret :: u32
  pr_pmu_mcycle :: u32

definition read_pass_results :: "'s hw \<Rightarrow> u32 \<Rightarrow> 's \<Rightarrow> pass_results \<times> 's" where
  "read_pass_results hw cyc_disp s =
     (let base = DSPM_MILESTONE_LOG_ADDR + 0x08;
          (n, s) = read_32b hw (u32_to_addr (DSPM_MILESTONE_LOG_ADDR + 0x00)) s;
          (c, s) = read_32b hw (u32_to_addr (base + 0)) s;
          (l1, s) = read_32b hw (u32_to_addr (base + 4)) s;
          (st, s) = read_32b hw (u32_to_addr (base + 8)) s;
          (lr, s) = read_32b hw (u32_to_addr (base + 12)) s;
          (lw, s) = read_32b hw (u32_to_addr (base + 16)) s;
          (mr, s) = read_32b hw (u32_to_addr (base + 20)) s;
          (mw, s) = read_32b hw (u32_to_addr (base + 24)) s;
          (rl, s) = read_32b hw (u32_to_addr (base + 28)) s;
          (wl, s) = read_32b hw (u32_to_addr (base + 32)) s;
          (pi, s) = read_32b hw (u32_to_addr (DSPM_BASE_ADDR + 0x1F00)) s;
          (pm, s) = read_32b hw (u32_to_addr (DSPM_BASE_ADDR + 0x1F04)) s
      in (\<lparr>pr_call_count = n, pr_cyc_disp = cyc_disp, pr_tot_cyc = c, pr_tot_l1 = l1, pr_tot_stall = st,
           pr_tot_llcrd = lr, pr_tot_llcwr = lw, pr_tot_memrd = mr, pr_tot_memwr = mw,
           pr_tot_rlat = rl, pr_tot_wlat = wl, pr_pmu_instret = pi, pr_pmu_mcycle = pm\<rparr>, s))"

text \<open>The records that are printed: the first thousand at most, nine words each.\<close>

definition read_record :: "'s hw \<Rightarrow> nat \<Rightarrow> 's \<Rightarrow> u32 list \<times> 's" where
  "read_record hw i =
     (let rec = DSPM_MILESTONE_LOG_ADDR + 0x80 + of_nat i * 9 * 4
      in read_list (\<lambda>k. read_32b hw (u32_to_addr (rec + 4 * of_nat k))) [0..<9])"

definition print_per_call_records :: "'s hw \<Rightarrow> u32 \<Rightarrow> 's \<Rightarrow> u32 list list \<times> 's" where
  "print_per_call_records hw n =
     read_list (read_record hw) [0..<unat (if n > MAX_LOG_RECORDS then MAX_LOG_RECORDS else n)]"

text \<open>The macro \<open>CMP\<close>: the change in percent, as the code computes it in 64 bits and narrows it.\<close>

definition cmp_pct :: "u32 \<Rightarrow> u32 \<Rightarrow> i32" where
  "cmp_pct s i = (if s > 0 then word_of_int (((uint i - uint s) * 100) sdiv uint s) else 0)"

text \<open>What it prints: the two values, the sign and the magnitude.\<close>

definition cmp_row :: "u32 \<Rightarrow> u32 \<Rightarrow> u32 \<times> u32 \<times> char \<times> i32" where
  "cmp_row s i = (let pct = cmp_pct s i in
     (s, i, if sint pct < 0 then CHR ''-'' else CHR ''+'', if sint pct < 0 then - pct else pct))"

definition totals_of :: "pass_results \<Rightarrow> u32 list" where
  "totals_of r = [pr_tot_cyc r, pr_tot_l1 r, pr_tot_stall r, pr_tot_llcrd r, pr_tot_llcwr r,
     pr_tot_memrd r, pr_tot_memwr r, pr_tot_rlat r, pr_tot_wlat r]"

definition compare_passes :: "pass_results \<Rightarrow> pass_results \<Rightarrow> (u32 \<times> u32 \<times> char \<times> i32) list" where
  "compare_passes solo intrf =
     cmp_row (pr_cyc_disp solo) (pr_cyc_disp intrf) # cmp_row (pr_call_count solo) (pr_call_count intrf) #
     map2 cmp_row (totals_of solo) (totals_of intrf) @
     (if pr_call_count solo > 0 \<and> pr_call_count intrf > 0
      then map2 cmp_row (map (\<lambda>t. t div pr_call_count solo) (totals_of solo))
             (map (\<lambda>t. t div pr_call_count intrf) (totals_of intrf))
      else [])"

text \<open>Instructions per cycle of the APMU core, integer part and hundredths (32-bit products).\<close>

definition ipc_row :: "pass_results \<Rightarrow> pass_results \<Rightarrow> (u32 \<times> u32 \<times> u32 \<times> u32) option" where
  "ipc_row solo intrf =
     (if pr_pmu_mcycle solo > 0 \<and> pr_pmu_mcycle intrf > 0
      then Some (pr_pmu_instret solo div pr_pmu_mcycle solo,
                 (pr_pmu_instret solo * 100 div pr_pmu_mcycle solo) mod 100,
                 pr_pmu_instret intrf div pr_pmu_mcycle intrf,
                 (pr_pmu_instret intrf * 100 div pr_pmu_mcycle intrf) mod 100)
      else None)"

subsection \<open>Starting the firmware\<close>

text \<open>Words of the instruction memory that differ from the image after the copy.\<close>

definition ispm_read_back :: "'s hw \<Rightarrow> u32 list \<Rightarrow> u32 \<Rightarrow> 's \<Rightarrow> u32 \<times> 's" where
  "ispm_read_back hw img text_size s =
     fold (\<lambda>i (bad, s). case rd32 hw (u32_to_addr ISPM_BASE_ADDR + 4 * of_nat i) s of
        (v, s) \<Rightarrow> (if v \<noteq> img ! i then bad + 1 else bad, s)) [0..<words_of_size text_size] (0, s)"

text \<open>No check of the size here: unlike \<open>main\<close> of the mempol benchmark.\<close>

definition load_and_start_pmu ::
    "'s hw \<Rightarrow> u32 list \<Rightarrow> u32 \<Rightarrow> u32 list \<Rightarrow> u32 \<Rightarrow> 's \<Rightarrow> (u32 \<times> 's) option" where
  "load_and_start_pmu hw text_img text_size data_img data_size s = do {
     let s = prepare_pmu hw s;
     let s = copy_words hw (u32_to_addr ISPM_BASE_ADDR) text_img text_size s;
     let s = copy_words hw (u32_to_addr (DSPM_BASE_ADDR + 0x200)) data_img data_size s;
     let (bad, s) = ispm_read_back hw text_img text_size (fence hw s);
     s \<leftarrow> start_pmu hw s;
     Some (bad, s) }"

text \<open>One counter: selection, information, value.\<close>

definition program_counter :: "'s hw \<Rightarrow> u32 \<Rightarrow> u32 \<Rightarrow> u32 \<Rightarrow> 's \<Rightarrow> 's" where
  "program_counter hw i sel info s =
     write_32b hw (u32_to_addr (COUNTER_BASE_ADDR + i * COUNTER_BUNDLE_SIZE)) 0
       (write_32b hw (u32_to_addr (EVENT_INFO_BASE_ADDR + i * COUNTER_BUNDLE_SIZE)) info
         (write_32b hw (u32_to_addr (EVENT_SEL_BASE_ADDR + i * COUNTER_BUNDLE_SIZE)) sel s))"

definition configure_evu_and_milestone :: "'s hw \<Rightarrow> u32 \<Rightarrow> 's \<Rightarrow> 's" where
  "configure_evu_and_milestone hw func_entry s =
     (let w = (\<lambda>a v. write_32b hw (u32_to_addr a) v);
          s = w EVENTID_C0_BASE_ADDR 0x00 s;
          s = w (EVENTID_C0_BASE_ADDR + 4) 0x00 s;
          s = w (EVENTID_C0_BASE_ADDR + 8) 0x17 s;
          s = w (EVENTID_C0_BASE_ADDR + 12) 0x00 s;
          s = w (PC_MILESTONE_C0_BASE_ADDR + 0) func_entry s;
          s = w (PC_MILESTONE_C0_BASE_ADDR + 4) 0 s;
          s = w (PC_MILESTONE_C0_BASE_ADDR + 8) (func_entry + 0x114) s;
          s = w (PC_MILESTONE_C0_BASE_ADDR + 12) 0 s;
          s = w (PC_MILESTONE_C0_BASE_ADDR + 16) 0 s;
          s = w (PC_MILESTONE_C0_BASE_ADDR + 20) 0 s;
          s = w (PC_MILESTONE_C0_BASE_ADDR + 24) 0 s;
          s = w (PC_MILESTONE_C0_BASE_ADDR + 28) 0 s;
          s = fence hw s;
          s = program_counter hw 20 EVU_C0_EV1_SEL (EVU_INFO_CFG 0) s;
          s = program_counter hw 21 EVU_C0_EV1_SEL (EVU_INFO_CFG 1) s;
          s = program_counter hw 22 PERF_COUNTER_EVU_C0_EV0 0 s
      in program_counter hw 23 PERF_COUNTER_EVU_C0_EV2 0 s)"

subsection \<open>A pass\<close>

definition run_profiling_pass :: "'s hw \<Rightarrow> ('s \<Rightarrow> 's) \<Rightarrow> 's \<Rightarrow> (u32 \<times> 's) option" where
  "run_profiling_pass hw workload s = do {
     let s = fence hw (write_32b hw (u32_to_addr DSPM_CMD_ADDR) CMD_TRIGGER_INTERRUPT s);
     (_, s) \<leftarrow> poll_until (read_32b hw (u32_to_addr DSPM_STATUS_ADDR)) (\<lambda>v. v = STATUS_ALL_IRQS_SENT) s;
     let (t0, s) = read_pmu_timer hw (fence hw s);
     let s = workload s;
     let (t1, s) = read_pmu_timer hw s;
     Some (ucast (t1 - t0), halt_pmu hw s) }"

subsection \<open>Main\<close>

definition sad_setup_counters :: "'s hw \<Rightarrow> u32 \<Rightarrow> 's \<Rightarrow> 's" where
  "sad_setup_counters hw func_entry s =
     (let s = configure_counters hw (partition_cache_4cores hw (sad_enable_llc hw s));
          s = program_counter hw 27 (MEM_RD_RES_CORE ! 0) ADD_RESP_LAT s;
          s = program_counter hw 28 (MEM_WR_RES_CORE ! 0) ADD_RESP_LAT s
      in configure_evu_and_milestone hw func_entry s)"

definition sad_setup_cores :: "'s hw \<Rightarrow> u64 \<Rightarrow> 's \<Rightarrow> 's option" where
  "sad_setup_cores hw trap_addr s = do {
     let s = for_upto NUM_CORES (\<lambda>c. plic_set_priority hw (PMU_IRQ_CORE (of_nat c)) 1) s;
     s \<leftarrow> setup_core_interrupt hw trap_addr 0 s;
     let s = write_32b hw (u32_to_addr DSPM_CORES_READY_ADDR) 0xCAFE0001 s;
     Some (wait_cores_ready hw (fence hw s)) }"

definition prime_and_reset :: "'s hw \<Rightarrow> 's \<Rightarrow> 's" where
  "prime_and_reset hw s =
     for_upto NUM_CORES (\<lambda>c. reset_counters hw (of_nat c)) (for_upto NUM_CORES (prime_cache hw) s)"

text \<open>One measured pass with its results and records.\<close>

definition profile_pass ::
    "'s hw \<Rightarrow> ('s \<Rightarrow> 's) \<Rightarrow> 's \<Rightarrow> (pass_results \<times> u32 list list \<times> 's) option" where
  "profile_pass hw workload s = do {
     (cyc, s) \<leftarrow> run_profiling_pass hw workload s;
     let (r, s) = read_pass_results hw cyc s;
     let (recs, s) = print_per_call_records hw (pr_call_count r) s;
     Some (r, recs, s) }"

text \<open>
  The dump of the registers between the passes: counters 20, 22, 23 and 26, the first two milestone slots, the
  event numbers, the two milestone counters without their top bit, and their selections.
\<close>

definition counter_reg :: "u32 \<Rightarrow> u32" where
  "counter_reg i = COUNTER_BASE_ADDR + i * COUNTER_BUNDLE_SIZE"

definition phase1_dump :: "'s hw \<Rightarrow> 's \<Rightarrow> u32 list \<times> 's" where
  "phase1_dump hw s =
     (let rd = (\<lambda>a. read_32b hw (u32_to_addr a));
          (raw, s) = read_list rd (map counter_reg [20, 22, 23, 26]) s;
          (slots, s) = read_list rd (map ((+) PC_MILESTONE_C0_BASE_ADDR) [0, 4, 8, 12]) s;
          (eids, s) = read_list rd (map ((+) EVENTID_C0_BASE_ADDR) [0, 4, 8, 12]) s;
          (hits, s) = read_list rd (map counter_reg [20, 21]) s;
          (sels, s) = read_list rd
            [EVENT_SEL_BASE_ADDR + 20 * COUNTER_BUNDLE_SIZE, EVENT_INFO_BASE_ADDR + 20 * COUNTER_BUNDLE_SIZE,
             EVENT_SEL_BASE_ADDR + 21 * COUNTER_BUNDLE_SIZE, EVENT_INFO_BASE_ADDR + 21 * COUNTER_BUNDLE_SIZE] s
      in (raw @ slots @ eids @ map (\<lambda>v. v AND 0x7FFFFFFF) hits @ sels, s))"

text \<open>The counters of requests that are printed at the end: four for each core.\<close>

definition global_counters :: "'s hw \<Rightarrow> 's \<Rightarrow> u32 list list \<times> 's" where
  "global_counters hw =
     read_list (\<lambda>c s. case read_list (\<lambda>g. read_32b hw (u32_to_addr (counter_reg (g + of_nat c)))) [4, 8, 12, 16] s of
        (vs, s) \<Rightarrow> (map (\<lambda>v. v AND 0x7FFFFFFF) vs, s)) [0..<NUM_CORES]"

text \<open>What core 0 prints.\<close>

record sad_report =
  rep_records_solo :: "u32 list list"
  rep_dump :: "u32 list"
  rep_records_intrf :: "u32 list list"
  rep_comparison :: "(u32 \<times> u32 \<times> char \<times> i32) list"
  rep_ipc :: "(u32 \<times> u32 \<times> u32 \<times> u32) option"
  rep_global :: "u32 list list"

text \<open>Core 0. Mounting the file system before the passes is part of the workload.\<close>

definition sad_main_core0 ::
    "'s hw \<Rightarrow> ('s \<Rightarrow> 's) \<Rightarrow> u64 \<Rightarrow> u32 \<Rightarrow> u32 list \<Rightarrow> u32 \<Rightarrow> u32 list \<Rightarrow> u32 \<Rightarrow> bench \<times> 's \<Rightarrow>
     (sad_report \<times> bench \<times> 's) option" where
  "sad_main_core0 hw workload trap_addr func_entry text_img text_size data_img data_size = (\<lambda>(b, s). do {
     let s = console_8n1 hw s;
     let b = (bench_reinit b)\<lparr>g_interference_go := 0\<rparr>;
     (_, s) \<leftarrow> load_and_start_pmu hw text_img text_size data_img data_size s;
     s \<leftarrow> sad_setup_cores hw trap_addr s;
     let s = sad_setup_counters hw func_entry s;
     (solo, recs1, s) \<leftarrow> profile_pass hw workload (prime_and_reset hw s);
     let (dump, s) = phase1_dump hw s;
     (_, s) \<leftarrow> load_and_start_pmu hw text_img text_size data_img data_size s;
     let s = configure_evu_and_milestone hw func_entry s;
     let s = for_upto NUM_CORES (\<lambda>c. reset_counters hw (of_nat c)) s;
     let s = prime_and_reset hw s;
     let b = b\<lparr>g_interference_go := 1\<rparr>;
     (cyc2, s) \<leftarrow> run_profiling_pass hw workload (fence hw s);
     let b = b\<lparr>g_interference_go := 2\<rparr>;
     let (intrf, s) = read_pass_results hw cyc2 (fence hw s);
     let (recs2, s) = print_per_call_records hw (pr_call_count intrf) s;
     let (glob, s) = global_counters hw s;
     let b = b\<lparr>g_core_done := (g_core_done b)[0 := 1]\<rparr>;
     Some (\<lparr>rep_records_solo = recs1, rep_dump = dump, rep_records_intrf = recs2,
              rep_comparison = compare_passes solo intrf, rep_ipc = ipc_row solo intrf, rep_global = glob\<rparr>,
           b, fence hw s) })"

text \<open>The loop of cores 1 to 3: interfere while told to, until core 0 is done.\<close>

partial_function (option) interfere ::
    "'s hw \<Rightarrow> (bench \<times> 's \<Rightarrow> bench \<times> 's) \<Rightarrow> nat \<Rightarrow> bench \<times> 's \<Rightarrow> (bench \<times> 's) option" where
  "interfere hw others h bs =
     (case others bs of (b, s) \<Rightarrow>
        if g_core_done b ! 0 \<noteq> 0 then Some (b, s)
        else case others (b, s) of (b, s) \<Rightarrow>
          if g_interference_go b = 1 then interfere hw others h (write_interference_mem hw h (b, s))
          else interfere hw others h (b, s))"

definition sad_main_core ::
    "'s hw \<Rightarrow> (bench \<times> 's \<Rightarrow> bench \<times> 's) \<Rightarrow> u64 \<Rightarrow> u32 \<Rightarrow> bench \<times> 's \<Rightarrow> (bench \<times> 's) option" where
  "sad_main_core hw others trap_addr h = (\<lambda>(b, s). do {
     (_, s) \<leftarrow> poll_until (read_32b hw (u32_to_addr DSPM_CORES_READY_ADDR)) (\<lambda>v. v \<noteq> 0xCAFE0001) s;
     (_, s) \<leftarrow> poll_until (read_32b hw (u32_to_addr DSPM_CORES_READY_ADDR)) (\<lambda>v. v = 0xCAFE0001) s;
     s \<leftarrow> setup_core_interrupt hw trap_addr h s;
     let s = fence hw (write_32b hw (u32_to_addr (core_ready_addr h)) 1 s);
     (b, s) \<leftarrow> interfere hw others (unat h) (b, s);
     let s = csr_wr hw CSR_MIE 0 s;
     let (mstatus, s) = csr_rd hw CSR_MSTATUS s;
     let s = csr_wr hw CSR_MSTATUS (mstatus AND NOT (push_bit 3 1)) s;
     let s = write_32b hw (u32_to_addr (COUNTER_BASE_ADDR + h * COUNTER_BUNDLE_SIZE)) 0 s;
     s \<leftarrow> drain_plic hw (PLIC_CONTEXT_CORE h) (fence hw s);
     Some (b\<lparr>g_core_done := (g_core_done b)[unat h := 1]\<rparr>, fence hw s) })"

end
