(* ===== verification/Sad_System.thy ===== *)
theory Sad_System
  imports Sad_Bench
begin

text \<open>
  The APMU core running the profiling firmware, next to the machine it profiles. What happens
  between two accesses of the firmware is given by a schedule: events tick counters, cycles pass,
  and the CVA6 cores store into the mailbox, the part of the data memory below the log (\<open>pmu_bench.c\<close>
  stores nowhere else in it while the firmware runs). Every statement is for all schedules.
\<close>

datatype prof_act =
    Event u32 u32
  | Cycles u64
  | Mailbox u32 u32

record prof_sys =
  p_cnt :: "u32 \<Rightarrow> u32"
  p_mem :: "u64 \<Rightarrow> u32"
  p_cycle :: u64
  p_time :: nat
  p_sched :: "nat \<Rightarrow> prof_act list"

fun prof_step :: "prof_act \<Rightarrow> prof_sys \<Rightarrow> prof_sys" where
  "prof_step (Event i v) s = s\<lparr>p_cnt := (p_cnt s)(i := p_cnt s i + v)\<rparr>"
| "prof_step (Cycles n) s = s\<lparr>p_cycle := p_cycle s + n\<rparr>"
| "prof_step (Mailbox a v) s =
     (if DSPM_BASE_ADDR \<le> a \<and> a < DSPM_INSTRET_BASE then s\<lparr>p_mem := (p_mem s)(u32_to_addr a := v)\<rparr> else s)"

definition prof_env :: "prof_sys \<Rightarrow> prof_sys" where
  "prof_env s = fold prof_step (p_sched s (p_time s)) (s\<lparr>p_time := Suc (p_time s)\<rparr>)"

text \<open>Which counter is at an address; every other address is memory.\<close>

definition counter_at :: "u64 \<Rightarrow> u32 option" where
  "counter_at a = find (\<lambda>i. u32_to_addr (APMU_COUNTER_B_BASE + i * APMU_COUNTER_STRIDE) = a)
     (map of_nat [0..<32])"

definition p_look :: "prof_sys \<Rightarrow> u64 \<Rightarrow> u32" where
  "p_look s a = (case counter_at a of Some i \<Rightarrow> p_cnt s i | None \<Rightarrow> p_mem s a)"

definition p_store :: "u64 \<Rightarrow> u32 \<Rightarrow> prof_sys \<Rightarrow> prof_sys" where
  "p_store a v s =
     (case counter_at a of
        Some i \<Rightarrow> s\<lparr>p_cnt := (p_cnt s)(i := v)\<rparr>
      | None \<Rightarrow> s\<lparr>p_mem := (p_mem s)(a := v)\<rparr>)"

definition prof_hw :: "prof_sys hw" where
  "prof_hw =
     \<lparr>rd32 = (\<lambda>a s. let s = prof_env s in (p_look s a, s)),
      wr32 = (\<lambda>a v s. p_store a v (prof_env s)),
      rd64 = (\<lambda>a s. let s = prof_env s in (ucast (p_look s a), s)),
      wr64 = (\<lambda>a v s. p_store a (ucast v) (prof_env s)),
      wr8 = (\<lambda>a v s. p_store a (ucast v) (prof_env s)),
      csr_rd = (\<lambda>r s. let s = prof_env s in (p_cycle s, s)),
      csr_wr = (\<lambda>r v s. prof_env s),
      cnt_rd = (\<lambda>i s. let s = prof_env s in (p_cnt s i, s)),
      cnt_wr = (\<lambda>i v s. let s = prof_env s in s\<lparr>p_cnt := (p_cnt s)(i := v)\<rparr>),
      fence = id\<rparr>"

text \<open>Core 0 as it reads the results: the firmware is halted by then.\<close>

definition prof_cva :: "prof_sys hw" where
  "prof_cva =
     \<lparr>rd32 = (\<lambda>a s. (p_look s a, s)), wr32 = p_store,
      rd64 = (\<lambda>a s. (ucast (p_look s a), s)), wr64 = (\<lambda>a v. p_store a (ucast v)),
      wr8 = (\<lambda>a v. p_store a (ucast v)), csr_rd = (\<lambda>r s. (p_cycle s, s)), csr_wr = (\<lambda>r v s. s),
      cnt_rd = (\<lambda>i s. (p_cnt s i, s)), cnt_wr = (\<lambda>i v s. s\<lparr>p_cnt := (p_cnt s)(i := v)\<rparr>), fence = id\<rparr>"

subsection \<open>The log area is data memory\<close>

definition log_area :: "u64 set" where
  "log_area = {u32_to_addr a | a. DSPM_INSTRET_BASE \<le> a \<and> a < DSPM_END_ADDR}"

lemma log_areaI: "0x10429F00 \<le> uint a \<Longrightarrow> uint a < 0x10448000 \<Longrightarrow> u32_to_addr a \<in> log_area"
  by (auto simp: log_area_def memory_map_defs DSPM_INSTRET_BASE_def word_le_def word_less_def)

lemma log_area_cases:
  assumes "b \<in> log_area"
  obtains x where "b = u32_to_addr x" "0x10429F00 \<le> uint x" "uint x < 0x10448000"
  using assms by (auto simp: log_area_def memory_map_defs DSPM_INSTRET_BASE_def word_le_def word_less_def)

lemma log_area_no_counter:
  assumes "b \<in> log_area"
  shows "counter_at b = None"
proof -
  obtain x where x: "b = u32_to_addr x" "0x10429F00 \<le> uint x" using assms by (rule log_area_cases)
  have "uint (APMU_COUNTER_B_BASE + of_nat i * APMU_COUNTER_STRIDE) < 0x10429F00" if "i < 32" for i
  proof -
    have "uint (of_nat i * 0x1000 :: u32) = int i * 0x1000"
      using that by (simp add: uint_word_ariths unsigned_of_nat take_bit_nat_eq_self)
    then show ?thesis
      using that by (simp add: APMU_COUNTER_B_BASE_def APMU_COUNTER_STRIDE_def uint_word_ariths)
  qed
  then show ?thesis
    using x by (fastforce simp: counter_at_def find_None_iff u32_to_addr_inject)
qed

lemma p_look_store:
  "b \<in> log_area \<Longrightarrow> p_look (p_store a v s) b = (if b = a then v else p_look s b)"
  by (auto simp: p_look_def p_store_def log_area_no_counter split: option.split)

lemma p_look_frame:
  "b \<in> log_area \<Longrightarrow> p_look (s\<lparr>p_cnt := c\<rparr>) b = p_look s b"
  "p_look (s\<lparr>p_cycle := n\<rparr>) b = p_look s b"
  "p_look (s\<lparr>p_time := t\<rparr>) b = p_look s b"
  by (simp_all add: p_look_def log_area_no_counter split: option.split)

lemma p_look_step: "b \<in> log_area \<Longrightarrow> p_look (prof_step act s) b = p_look s b"
proof (cases act)
  case (Mailbox a v)
  assume b: "b \<in> log_area"
  then obtain x where x: "b = u32_to_addr x" "0x10429F00 \<le> uint x" by (rule log_area_cases)
  then have "b \<noteq> u32_to_addr a" if "a < DSPM_INSTRET_BASE"
    using that by (auto simp: u32_to_addr_inject DSPM_INSTRET_BASE_def DSPM_BASE_ADDR_def word_less_def)
  then show ?thesis using b by (simp add: Mailbox p_look_def log_area_no_counter)
qed (simp_all add: p_look_frame)

lemma p_look_env: "b \<in> log_area \<Longrightarrow> p_look (prof_env s) b = p_look s b"
proof -
  assume b: "b \<in> log_area"
  have "p_look (fold prof_step as t) b = p_look t b" for as t
    by (induction as arbitrary: t) (simp_all add: p_look_step b)
  then show ?thesis by (simp add: prof_env_def p_look_frame)
qed

interpretation prof_log: data_memory prof_hw log_area p_look
  by standard (simp_all add: prof_hw_def Let_def p_look_store p_look_env p_look_frame)

interpretation prof_reader: word_store prof_cva log_area p_look
  by standard (simp_all add: prof_cva_def p_look_store)

end
