(* ===== verification/Sad_Log.thy ===== *)
theory Sad_Log
  imports Sad_System
begin

text \<open>
  The log of the profiler as an invariant of the data memory: \<open>log_holds look recs\<close> says that the
  records \<open>recs\<close>, their sums and their number are in their places. Boot establishes it for the empty
  log and every turn of the polling loop keeps it, on any hardware that satisfies \<open>data_memory\<close>.
\<close>

subsection \<open>Blocks of words in the data memory\<close>

lemma uint_block_word:
  assumes "uint base + 4 * int n \<le> 2 ^ 32" "i < n"
  shows "uint (base + 4 * of_nat i :: u32) = uint base + 4 * int i"
proof -
  have "4 * int i < 2 ^ 32" using assms uint_ge_0 [of base] by linarith
  then have "uint (4 * (of_nat i :: u32)) = 4 * int i"
    by (simp add: uint_word_ariths unsigned_of_nat take_bit_nat_eq_self)
  moreover have "uint base + 4 * int i < 2 ^ 32" using assms by linarith
  ultimately show ?thesis by (simp add: uint_word_ariths)
qed

text \<open>\<open>base\<close> starts a block of \<open>n\<close> words in the log area.\<close>

definition in_log :: "u32 \<Rightarrow> nat \<Rightarrow> bool" where
  "in_log base n \<longleftrightarrow> 0x10429F00 \<le> uint base \<and> uint base + 4 * int n \<le> 0x10448000"

lemma in_log_word:
  assumes "in_log base n" "i < n"
  shows "u32_to_addr (base + 4 * of_nat i) \<in> log_area" "uint (base + 4 * of_nat i) = uint base + 4 * int i"
proof -
  show eq: "uint (base + 4 * of_nat i) = uint base + 4 * int i"
    using assms by (intro uint_block_word [where n = n]) (simp_all add: in_log_def)
  have "0x10429F00 \<le> uint base + 4 * int i" "uint base + 4 * int i < 0x10448000"
    using assms by (auto simp: in_log_def)
  then show "u32_to_addr (base + 4 * of_nat i) \<in> log_area" by (intro log_areaI) (simp_all add: eq)
qed

text \<open>
  The log holds the records \<open>recs\<close>: the count and the totals of the firmware are in the data memory,
  the first thousand records are in their places, and the cycle count of the APMU core, which the
  firmware only clears, is zero.
\<close>

definition log_holds :: "('s \<Rightarrow> u64 \<Rightarrow> u32) \<Rightarrow> u32 list list \<Rightarrow> sad_fw \<times> 's \<Rightarrow> bool" where
  "log_holds look recs = (\<lambda>(fw, s).
     length (totals fw) = 9 \<and> call_count fw = of_nat (length recs) \<and> (\<forall>r \<in> set recs. length r = 9) \<and>
     look s (u32_to_addr DSPM_LOG_CALL_COUNT) = call_count fw \<and>
     (\<forall>i < 9. look s (u32_to_addr (DSPM_LOG_TOTALS + 4 * of_nat i)) = totals fw ! i) \<and>
     (\<forall>j < 1000. \<forall>i < 9. j < length recs \<longrightarrow>
        look s (u32_to_addr (record_addr (of_nat j) + 4 * of_nat i)) = recs ! j ! i) \<and>
     look s (u32_to_addr DSPM_PMU_MCYCLE) = 0)"

lemma sad_log_uints:
  "uint DSPM_LOG_TOTALS = 0x1042A008" "uint DSPM_LOG_CALL_COUNT = 0x1042A000"
  "uint DSPM_LOG_STATE = 0x1042A004" "uint DSPM_PMU_MCYCLE = 0x10429F04"
  by (simp_all add: sad_log_defs)

lemma totals_in_log: "in_log DSPM_LOG_TOTALS 9"
  by (simp add: in_log_def sad_log_uints)

lemma record_in_log: "uint j < 1000 \<Longrightarrow> in_log (record_addr j) 9"
  using uint_record_addr [of j] uint_ge_0 [of j] by (simp add: in_log_def)

lemma uint_of_nat_small: "int j < 2 ^ 32 \<Longrightarrow> uint (of_nat j :: u32) = int j"
  by (simp add: unsigned_of_nat take_bit_nat_eq_self)

lemma log_holds_cong:
  assumes "log_holds look recs (fw, s)" "totals fw' = totals fw" "call_count fw' = call_count fw"
    and keep: "\<And>x. u32_to_addr x \<in> log_area \<Longrightarrow> uint x \<noteq> 0x1042A004 \<Longrightarrow>
      look s' (u32_to_addr x) = look s (u32_to_addr x)"
  shows "log_holds look recs (fw', s')"
proof -
  have 1: "look s' (u32_to_addr DSPM_LOG_CALL_COUNT) = look s (u32_to_addr DSPM_LOG_CALL_COUNT)"
    "look s' (u32_to_addr DSPM_PMU_MCYCLE) = look s (u32_to_addr DSPM_PMU_MCYCLE)"
    using sad_log_uints by (auto intro!: keep log_areaI)
  have 2: "look s' (u32_to_addr (DSPM_LOG_TOTALS + 4 * of_nat i)) =
      look s (u32_to_addr (DSPM_LOG_TOTALS + 4 * of_nat i))" if "i < 9" for i
    using in_log_word [OF totals_in_log that] sad_log_uints by (intro keep) auto
  have 3: "look s' (u32_to_addr (record_addr (of_nat j) + 4 * of_nat i)) =
      look s (u32_to_addr (record_addr (of_nat j) + 4 * of_nat i))" if "j < 1000" "i < 9" for i j
  proof (rule keep)
    have j: "uint (of_nat j :: u32) = int j" "uint (of_nat j :: u32) < 1000"
      using that uint_of_nat_small [of j] by simp_all
    note w = in_log_word [OF record_in_log [OF j(2)] that(2)]
    show "u32_to_addr (record_addr (of_nat j) + 4 * of_nat i) \<in> log_area" by (rule w(1))
    show "uint (record_addr (of_nat j) + 4 * of_nat i :: u32) \<noteq> 0x1042A004"
      using w(2) uint_record_addr [OF j(2)] j(1) by linarith
  qed
  show ?thesis using assms(1-3) by (simp add: log_holds_def 1 2 3)
qed

context data_memory
begin

lemma look_WRITE_MEM:
  "u32_to_addr b \<in> A \<Longrightarrow> look (WRITE_MEM hw a v s) (u32_to_addr b) = (if b = a then v else look s (u32_to_addr b))"
  by (simp add: WRITE_MEM_def store_value u32_to_addr_inject)

lemma look_write_words:
  assumes "A = log_area" "in_log base (length vs)" "u32_to_addr b \<in> log_area"
  shows "look (write_words hw base vs s) (u32_to_addr b) =
    (if uint base \<le> uint b \<and> uint b < uint base + 4 * int (length vs) \<and> 4 dvd uint b - uint base
     then vs ! nat ((uint b - uint base) div 4) else look s (u32_to_addr b))"
proof -
  have "look (for_upto n (\<lambda>i. WRITE_MEM hw (base + 4 * of_nat i) (vs ! i)) s) (u32_to_addr b) =
      (if uint base \<le> uint b \<and> uint b < uint base + 4 * int n \<and> 4 dvd uint b - uint base
       then vs ! nat ((uint b - uint base) div 4) else look s (u32_to_addr b))" if "n \<le> length vs" for n
    using that
  proof (induction n)
    case 0
    then show ?case by auto
  next
    case (Suc n)
    then have n: "n < length vs" by simp
    note w = in_log_word [OF assms(2) n]
    have eq: "b = base + 4 * of_nat n \<longleftrightarrow> uint b = uint base + 4 * int n"
      using w(2) by (simp add: word_uint_eq_iff)
    have step: "look (for_upto (Suc n) (\<lambda>i. WRITE_MEM hw (base + 4 * of_nat i) (vs ! i)) s) (u32_to_addr b) =
        (if b = base + 4 * of_nat n then vs ! n
         else look (for_upto n (\<lambda>i. WRITE_MEM hw (base + 4 * of_nat i) (vs ! i)) s) (u32_to_addr b))"
      using w(1) assms(1,3) by (simp add: for_upto_Suc look_WRITE_MEM)
    have cases: "uint base \<le> uint b \<and> uint b < uint base + 4 * int (Suc n) \<and> 4 dvd uint b - uint base \<longleftrightarrow>
        uint b = uint base + 4 * int n \<or>
        uint base \<le> uint b \<and> uint b < uint base + 4 * int n \<and> 4 dvd uint b - uint base"
      by (auto elim!: dvdE simp: algebra_simps)
    show ?case
    proof (cases "uint b = uint base + 4 * int n")
      case True
      then show ?thesis unfolding step eq by simp
    next
      case False
      then show ?thesis unfolding step eq using Suc cases by simp
    qed
  qed
  from this [of "length vs"] show ?thesis by (simp add: write_words_def)
qed

lemma look_write_words_at:
  assumes "A = log_area" "in_log base (length vs)" "i < length vs"
  shows "look (write_words hw base vs s) (u32_to_addr (base + 4 * of_nat i)) = vs ! i"
  using look_write_words [OF assms(1,2) in_log_word(1) [OF assms(2,3)], of s]
    in_log_word(2) [OF assms(2,3)] assms(3) by simp

lemma look_write_words_below:
  assumes "A = log_area" "in_log base (length vs)" "u32_to_addr b \<in> log_area" "uint b < uint base"
  shows "look (write_words hw base vs s) (u32_to_addr b) = look s (u32_to_addr b)"
  using look_write_words [OF assms(1-3), of s] assms(4) by simp

lemma look_write_words_above:
  assumes "A = log_area" "in_log base (length vs)" "u32_to_addr b \<in> log_area"
    "uint base + 4 * int (length vs) \<le> uint b"
  shows "look (write_words hw base vs s) (u32_to_addr b) = look s (u32_to_addr b)"
  using look_write_words [OF assms(1-3), of s] assms(4) by simp

lemma look_read_stats: "b \<in> A \<Longrightarrow> look (snd (read_stats hw s)) b = look s b"
proof -
  assume b: "b \<in> A"
  have "look (snd (read_list (cnt_masked hw) xs s)) b = look s b" for xs s
    by (induction xs arbitrary: s)
      (simp_all add: split_beta Let_def cnt_masked_def cnt_val_def READ_MEM_def load_keeps b)
  then show ?thesis by (simp add: read_stats_def)
qed

lemma look_mcycle: "b \<in> A \<Longrightarrow> look (snd (read_mcycle hw s)) b = look s b"
  by (simp add: read_mcycle_def split_beta csr_keeps)

text \<open>What an exit of the profiled function leaves in the log.\<close>

lemma look_sad_exit:
  fixes fw :: sad_fw and s :: "'s" and cur :: u32
  assumes A: "A = log_area" and len: "length (totals fw) = 9"
  defines "fs' \<equiv> sad_exit hw cur (fw, s)"
    and "rec \<equiv> call_record fw (fst (read_mcycle hw s)) (fst (read_stats hw (snd (read_mcycle hw s))))"
  shows "fst fs' = fw\<lparr>totals := map2 (+) (totals fw) rec, call_count := call_count fw + 1, prev_exit := cur\<rparr>"
    and "look (snd fs') (u32_to_addr DSPM_LOG_CALL_COUNT) = call_count fw + 1"
    and "i < 9 \<Longrightarrow> look (snd fs') (u32_to_addr (DSPM_LOG_TOTALS + 4 * of_nat i)) = map2 (+) (totals fw) rec ! i"
    and "uint j < 1000 \<Longrightarrow> i < 9 \<Longrightarrow> look (snd fs') (u32_to_addr (record_addr j + 4 * of_nat i)) =
      (if call_count fw = j then rec ! i else look s (u32_to_addr (record_addr j + 4 * of_nat i)))"
    and "uint b < 0x1042A000 \<Longrightarrow> u32_to_addr b \<in> log_area \<Longrightarrow>
      look (snd fs') (u32_to_addr b) = look s (u32_to_addr b)"
proof -
  let ?t = "map2 (+) (totals fw) rec" and ?n = "call_count fw"
  define s0 where "s0 = snd (read_stats hw (snd (read_mcycle hw s)))"
  define s1 where "s1 = write_words hw DSPM_LOG_TOTALS ?t s0"
  define s2 where "s2 = (if ?n < MAX_LOG_RECORDS then write_words hw (record_addr ?n) rec s1 else s1)"
  define s3 where "s3 = cnt_wr hw CNT_BREADCRUMB (100 + (?n + 1)) (WRITE_MEM hw DSPM_LOG_CALL_COUNT (?n + 1) s2)"
  have rec: "length rec = 9" and t: "length ?t = 9" using len by (simp_all add: rec_def)
  have lt: "?n < MAX_LOG_RECORDS \<longleftrightarrow> uint ?n < 1000" by (simp add: MAX_LOG_RECORDS_def word_less_def)
  have fs': "fs' = (fw\<lparr>totals := ?t, call_count := ?n + 1, prev_exit := cur\<rparr>, WRITE_MEM hw DSPM_LOG_STATE 0 s3)"
    by (simp add: fs'_def sad_exit_def split_beta Let_def s3_def s2_def s1_def s0_def rec_def)
  then show "fst fs' = fw\<lparr>totals := ?t, call_count := ?n + 1, prev_exit := cur\<rparr>" by simp
  have base: "uint DSPM_LOG_TOTALS = 0x1042A008" "uint DSPM_LOG_CALL_COUNT = 0x1042A000"
    "uint DSPM_LOG_STATE = 0x1042A004"
    by (simp_all add: sad_log_defs)
  have totals_block: "in_log DSPM_LOG_TOTALS (length ?t)" using base unfolding in_log_def t by simp
  have rec_block: "in_log (record_addr j) 9" "uint (record_addr j) = 0x1042A080 + 36 * uint j"
    if "uint j < 1000" for j
    using that uint_record_addr [OF that] uint_ge_0 [of j] unfolding in_log_def by simp_all
  have mem: "u32_to_addr DSPM_LOG_STATE \<in> log_area" "u32_to_addr DSPM_LOG_CALL_COUNT \<in> log_area"
    using base by (auto intro!: log_areaI)
  have end_look: "look (snd fs') (u32_to_addr x) =
      (if x = DSPM_LOG_STATE then 0 else if x = DSPM_LOG_CALL_COUNT then ?n + 1 else look s2 (u32_to_addr x))"
    if "u32_to_addr x \<in> log_area" for x
    using that mem A by (simp add: fs' s3_def look_WRITE_MEM cnt_keeps)
  have s2_low: "look s2 (u32_to_addr x) = look s1 (u32_to_addr x)"
    if x: "u32_to_addr x \<in> log_area" "uint x < 0x1042A080" for x
  proof (cases "uint ?n < 1000")
    case True
    note r = rec_block [OF True]
    have "uint x < uint (record_addr ?n)" using x(2) r(2) uint_ge_0 [of ?n] by linarith
    then show ?thesis
      unfolding s2_def using look_write_words_below [OF A _ x(1), of "record_addr ?n" rec s1] r(1) rec by simp
  next
    case False
    then show ?thesis using lt by (simp add: s2_def)
  qed
  have s0: "look s0 x = look s x" if "x \<in> log_area" for x
    using that A by (simp add: s0_def look_read_stats look_mcycle)
  show "look (snd fs') (u32_to_addr DSPM_LOG_CALL_COUNT) = ?n + 1"
    using end_look [OF mem(2)] base by auto
  {
    assume i: "i < 9"
    note w = in_log_word [OF totals_block, of i, unfolded t, OF i]
    have "DSPM_LOG_TOTALS + 4 * of_nat i \<noteq> DSPM_LOG_STATE" "DSPM_LOG_TOTALS + 4 * of_nat i \<noteq> DSPM_LOG_CALL_COUNT"
      using w(2) base by auto
    moreover have "look s2 (u32_to_addr (DSPM_LOG_TOTALS + 4 * of_nat i)) = ?t ! i"
      using s2_low [OF w(1)] w(2) base i t look_write_words_at [OF A totals_block, of i s0]
      by (simp add: s1_def)
    ultimately show "look (snd fs') (u32_to_addr (DSPM_LOG_TOTALS + 4 * of_nat i)) = ?t ! i"
      using end_look [OF w(1)] by simp
  }
  {
    assume j: "uint j < 1000" and i: "i < 9"
    let ?x = "record_addr j + 4 * of_nat i"
    note r = rec_block [OF j]
    note w = in_log_word [OF r(1) i]
    have low: "0x1042A080 \<le> uint ?x" using w(2) r(2) uint_ge_0 [of j] by linarith
    then have "?x \<noteq> DSPM_LOG_STATE" "?x \<noteq> DSPM_LOG_CALL_COUNT" using base by auto
    then have "look (snd fs') (u32_to_addr ?x) = look s2 (u32_to_addr ?x)" using end_look [OF w(1)] by simp
    also have "\<dots> = (if ?n = j then rec ! i else look s1 (u32_to_addr ?x))"
    proof (cases "?n = j")
      case True
      then show ?thesis using lt j i rec r(1) look_write_words_at [OF A, of "record_addr ?n" rec i s1]
        by (simp add: s2_def)
    next
      case False
      have "look (write_words hw (record_addr ?n) rec s1) (u32_to_addr ?x) = look s1 (u32_to_addr ?x)"
        if n: "uint ?n < 1000"
      proof -
        note rn = rec_block [OF n]
        have "uint ?n \<noteq> uint j" using False by (simp add: word_uint_eq_iff)
        then have "uint ?x < uint (record_addr ?n) \<or> uint (record_addr ?n) + 36 \<le> uint ?x"
          using w(2) r(2) rn(2) i by linarith
        then show ?thesis
          using look_write_words_below [OF A _ w(1), of "record_addr ?n" rec s1]
            look_write_words_above [OF A _ w(1), of "record_addr ?n" rec s1] rn(1) rec by auto
      qed
      then show ?thesis using False lt by (simp add: s2_def)
    qed
    also have "look s1 (u32_to_addr ?x) = look s0 (u32_to_addr ?x)"
      unfolding s1_def using base low t by (intro look_write_words_above [OF A totals_block w(1)]) simp
    finally show "look (snd fs') (u32_to_addr ?x) = (if ?n = j then rec ! i else look s (u32_to_addr ?x))"
      using s0 [OF w(1)] by simp
  }
  assume b: "uint b < 0x1042A000" and bA: "u32_to_addr b \<in> log_area"
  have "look s1 (u32_to_addr b) = look s0 (u32_to_addr b)"
    unfolding s1_def using b base by (intro look_write_words_below [OF A totals_block bA]) simp
  moreover have "b \<noteq> DSPM_LOG_STATE" "b \<noteq> DSPM_LOG_CALL_COUNT" using b base by auto
  ultimately show "look (snd fs') (u32_to_addr b) = look s (u32_to_addr b)"
    using end_look [OF bA] s2_low [OF bA] s0 [OF bA] b by simp
qed

lemma log_holds_entry:
  assumes A: "A = log_area" and h: "log_holds look recs fs"
  shows "log_holds look recs (sad_entry hw c fs)"
proof -
  obtain fw s where fs: "fs = (fw, s)" by (cases fs)
  obtain fw' s' where e: "sad_entry hw c fs = (fw', s')" by (cases "sad_entry hw c fs")
  have "look s' (u32_to_addr x) = look s (u32_to_addr x)"
    if x: "u32_to_addr x \<in> log_area" "uint x \<noteq> 0x1042A004" for x
  proof -
    have "x \<noteq> DSPM_LOG_STATE" using x(2) sad_log_uints by auto
    moreover have "u32_to_addr DSPM_LOG_STATE \<in> A"
      using A sad_log_uints by (auto intro!: log_areaI)
    moreover have "s' = snd (sad_entry hw c (fw, s))" using e fs by simp
    ultimately show ?thesis
      using x A by (simp add: sad_entry_def split_beta Let_def look_WRITE_MEM cnt_keeps
          look_read_stats look_mcycle)
  qed
  then show ?thesis
    using log_holds_cong [of look recs fw s fw' s'] h fs e sad_entry_frame [of hw c fs] by simp
qed

lemma log_holds_exit:
  fixes fw :: sad_fw and s :: "'s"
  assumes A: "A = log_area" and h: "log_holds look recs (fw, s)" and n: "int (length recs) < 2 ^ 32"
  shows "log_holds look (recs @ [call_record fw (fst (read_mcycle hw s))
      (fst (read_stats hw (snd (read_mcycle hw s))))]) (sad_exit hw cur (fw, s))"
    (is "log_holds look (recs @ [?rec]) ?fs")
proof -
  have len: "length (totals fw) = 9" and cnt: "call_count fw = of_nat (length recs)"
    and r9: "\<forall>r \<in> set recs. length r = 9" and mc: "look s (u32_to_addr DSPM_PMU_MCYCLE) = 0"
    using h by (simp_all add: log_holds_def)
  note x = look_sad_exit [OF A len, where cur = cur and s = s]
  have recs: "look (snd ?fs) (u32_to_addr (record_addr (of_nat j) + 4 * of_nat i)) = (recs @ [?rec]) ! j ! i"
    if j: "j < 1000" "i < 9" "j < Suc (length recs)" for i j
  proof -
    have "uint (of_nat j :: u32) < 1000" using j(1) uint_of_nat_small [of j] by simp
    note y = x(4) [OF this j(2)]
    show ?thesis
    proof (cases "j = length recs")
      case True
      then show ?thesis using y cnt by simp
    next
      case False
      have "uint (of_nat j :: u32) \<noteq> uint (of_nat (length recs) :: u32)"
        using False n j(1) by (simp add: uint_of_nat_small)
      then have "call_count fw \<noteq> of_nat j" using cnt by metis
      then show ?thesis using y h False j by (simp add: log_holds_def nth_append)
    qed
  qed
  have "look (snd ?fs) (u32_to_addr DSPM_PMU_MCYCLE) = look s (u32_to_addr DSPM_PMU_MCYCLE)"
    using sad_log_uints by (intro x(5) log_areaI) auto
  moreover obtain fw' s' where e: "?fs = (fw', s')" by (cases ?fs)
  ultimately show ?thesis
    using x(1-3) recs len cnt r9 mc by (simp add: log_holds_def add.commute)
qed

lemma look_cnt_masked: "b \<in> A \<Longrightarrow> look (snd (cnt_masked hw n s)) b = look s b"
  by (simp add: cnt_masked_def cnt_val_def READ_MEM_def split_beta load_keeps)

lemma log_holds_poll:
  assumes A: "A = log_area" and h: "log_holds look recs fs" and n: "int (length recs) < 2 ^ 32"
  shows "log_holds look (recs @ poll_record hw fs) (sad_poll hw fs)"
proof -
  obtain fw s where fs: "fs = (fw, s)" by (cases fs)
  obtain c fw2 s2 where e: "entered hw fs = (c, fw2, s2)" by (cases "entered hw fs")
  let ?s = "snd (cnt_masked hw CNT_MILESTONE_EXIT (snd (cnt_masked hw CNT_MILESTONE_0 s)))"
  have "log_holds look recs (fw, ?s)"
    using log_holds_cong [of look recs fw s fw ?s] h A by (simp add: fs look_cnt_masked)
  then have "log_holds look recs (snd (entered hw fs))"
    by (simp add: fs entered_def split_beta Let_def log_holds_entry [OF A])
  then have "log_holds look recs (fw2, s2)" by (simp add: e)
  then show ?thesis
    using log_holds_exit [OF A, of recs fw2 s2] n by (simp add: sad_poll_entered [OF e] poll_record_entered [OF e])
qed

lemma log_holds_run:
  assumes A: "A = log_area"
  shows "log_holds look recs fs \<Longrightarrow> int (length recs) + int n \<le> 2 ^ 32 \<Longrightarrow>
    log_holds look (recs @ run_records hw n fs) (sad_run hw n fs)"
proof (induction n arbitrary: recs fs)
  case 0
  then show ?case by (simp add: sad_run_def)
next
  case (Suc n)
  have "length (poll_record hw fs) \<le> 1" by (simp add: poll_record_def split_beta Let_def)
  then have "int (length (recs @ poll_record hw fs)) + int n \<le> 2 ^ 32" using Suc.prems(2) by simp
  moreover have "log_holds look (recs @ poll_record hw fs) (sad_poll hw fs)"
    using Suc.prems by (intro log_holds_poll A) auto
  ultimately show ?case using Suc.IH [of "recs @ poll_record hw fs" "sad_poll hw fs"] by (simp add: sad_run_Suc)
qed

text \<open>The boot of the firmware leaves an empty log.\<close>

lemma log_holds_keep:
  fixes fw :: sad_fw and s :: "'s"
  assumes A: "A = log_area"
  shows "log_holds look recs (fw, s) \<Longrightarrow> uint a < 0x10429F00 \<Longrightarrow> log_holds look recs (fw, WRITE_MEM hw a v s)"
    "log_holds look recs (fw, s) \<Longrightarrow> log_holds look recs (fw, cnt_wr hw i v s)"
    "log_holds look recs (fw, s) \<Longrightarrow> log_holds look recs (fw, snd (csr_rd hw r s))"
    "log_holds look recs (fw, s) \<Longrightarrow> log_holds look recs (fw, snd (READ_MEM hw a s))"
proof -
  have "u32_to_addr x \<in> log_area \<Longrightarrow> uint a < 0x10429F00 \<Longrightarrow> x \<noteq> a" for x
    by (auto simp: u32_to_addr_inject elim: log_area_cases)
  then show "log_holds look recs (fw, s) \<Longrightarrow> uint a < 0x10429F00 \<Longrightarrow>
      log_holds look recs (fw, WRITE_MEM hw a v s)"
    using A by (elim log_holds_cong) (auto simp: look_WRITE_MEM)
qed (use A in \<open>auto elim!: log_holds_cong simp: cnt_keeps csr_keeps READ_MEM_def load_keeps\<close>)

lemma look_zeroed:
  assumes A: "A = log_area" and i: "i < 9032"
  shows "look (for_upto 9032 (\<lambda>i. WRITE_MEM hw (DSPM_LOG_BASE + 4 * of_nat i) 0) s)
    (u32_to_addr (DSPM_LOG_BASE + 4 * of_nat i)) = 0"
proof -
  have "in_log DSPM_LOG_BASE (length (replicate 9032 (0 :: u32)))"
    by (simp add: in_log_def sad_log_defs)
  moreover have "for_upto 9032 (\<lambda>i. WRITE_MEM hw (DSPM_LOG_BASE + 4 * of_nat i) 0) s =
      write_words hw DSPM_LOG_BASE (replicate 9032 0) s"
    unfolding write_words_def length_replicate by (rule for_upto_cong) simp
  ultimately show ?thesis
    using look_write_words_at [OF A, of DSPM_LOG_BASE "replicate 9032 0" i s] i by simp
qed

lemma log_holds_zeroed:
  assumes A: "A = log_area"
  shows "log_holds look [] (sad_init, WRITE_MEM hw DSPM_PMU_MCYCLE 0 (WRITE_MEM hw DSPM_PMU_INSTRET 0
    (for_upto 9032 (\<lambda>i. WRITE_MEM hw (DSPM_LOG_BASE + 4 * of_nat i) 0) s)))"
proof -
  have mem: "u32_to_addr (DSPM_LOG_BASE + 4 * of_nat i) \<in> A" if "i < 9032" for i
    using in_log_word [of DSPM_LOG_BASE 9032 i] that A by (simp add: in_log_def sad_log_defs)
  have u: "uint (DSPM_LOG_BASE + 4 * of_nat i) = 0x1042A000 + 4 * int i" if "i < 9032" for i
    using in_log_word [of DSPM_LOG_BASE 9032 i] that by (simp add: in_log_def sad_log_defs)
  have zero: "look (WRITE_MEM hw DSPM_PMU_MCYCLE 0 (WRITE_MEM hw DSPM_PMU_INSTRET 0
      (for_upto 9032 (\<lambda>i. WRITE_MEM hw (DSPM_LOG_BASE + 4 * of_nat i) 0) s)))
      (u32_to_addr (DSPM_LOG_BASE + 4 * of_nat i)) = 0" if "i < 9032" for i
    using that mem by (simp add: look_WRITE_MEM look_zeroed [OF A])
  have mc: "u32_to_addr DSPM_PMU_MCYCLE \<in> A" using A by (auto intro!: log_areaI simp: sad_log_uints)
  have eq: "DSPM_LOG_TOTALS + 4 * of_nat i = DSPM_LOG_BASE + 4 * of_nat (i + 2)" for i
    by (simp add: sad_log_defs)
  have tot: "look (WRITE_MEM hw DSPM_PMU_MCYCLE 0 (WRITE_MEM hw DSPM_PMU_INSTRET 0
      (for_upto 9032 (\<lambda>i. WRITE_MEM hw (DSPM_LOG_BASE + 4 * of_nat i) 0) s)))
      (u32_to_addr (DSPM_LOG_TOTALS + 4 * of_nat i)) = 0" if "i < 9" for i
    unfolding eq using that by (intro zero) simp
  have cnt: "look (WRITE_MEM hw DSPM_PMU_MCYCLE 0 (WRITE_MEM hw DSPM_PMU_INSTRET 0
      (for_upto 9032 (\<lambda>i. WRITE_MEM hw (DSPM_LOG_BASE + 4 * of_nat i) 0) s)))
      (u32_to_addr DSPM_LOG_CALL_COUNT) = 0"
    using zero [of 0] by (simp add: DSPM_LOG_CALL_COUNT_def)
  show ?thesis by (simp add: log_holds_def sad_init_def tot cnt) (simp add: look_WRITE_MEM mc)
qed

lemma log_holds_boot:
  assumes A: "A = log_area" and boot: "sad_boot hw fe fx s = Some fs"
  shows "log_holds look [] fs"
proof -
  let ?z = "\<lambda>s. WRITE_MEM hw DSPM_STATUS_ADDR STATUS_STARTED (WRITE_MEM hw DSPM_PMU_MCYCLE 0
    (WRITE_MEM hw DSPM_PMU_INSTRET 0 (for_upto 9032 (\<lambda>i. WRITE_MEM hw (DSPM_LOG_BASE + 4 * of_nat i) 0) s)))"
  let ?fin = "\<lambda>s. cnt_wr hw CNT_BREADCRUMB 2 (snd (csr_rd hw CSR_MINSTRET (snd (read_mcycle hw
    (cnt_wr hw CNT_MILESTONE_EXIT 0 (cnt_wr hw CNT_MILESTONE_0 0 (fold (\<lambda>i. cnt_wr hw i 0) stat_counters
    (cnt_wr hw CNT_BREADCRUMB 1 (WRITE_MEM hw DSPM_STATUS_ADDR STATUS_ALL_IRQS_SENT
    (WRITE_MEM hw DSPM_STATUS_ADDR STATUS_SENDING_IRQS (WRITE_MEM hw DSPM_CMD_ADDR CMD_NONE s)))))))))))"
  from boot obtain s0 v s1 where
    poll: "poll_until (READ_MEM hw DSPM_CMD_ADDR) (\<lambda>v. v = CMD_TRIGGER_INTERRUPT) (?z s0) = Some (v, s1)"
    and fs: "fs = (sad_init, ?fin s1)"
    by (auto simp: sad_boot_def bind_eq_Some_conv Let_def split_beta)
  have low: "uint DSPM_STATUS_ADDR < 0x10429F00" "uint DSPM_CMD_ADDR < 0x10429F00"
    by (simp_all add: DSPM_STATUS_ADDR_def DSPM_CMD_ADDR_def DSPM_BASE_ADDR_def)
  note keep = log_holds_keep [OF A]
  have "log_holds look [] (sad_init, ?z s0)" by (intro keep(1) low log_holds_zeroed A)
  then have "log_holds look [] (sad_init, s1)"
    by (rule poll_until_invariant [OF poll, where I = "\<lambda>s. log_holds look [] (sad_init, s)", rotated])
      (rule keep(4))
  then have "log_holds look [] (sad_init, ?fin s1)"
    by (simp add: stat_counters_def read_mcycle_def split_beta) (intro keep low)
  then show ?thesis by (simp add: fs)
qed

end

end
