(* ===== verification/Sad_Theorems.thy ===== *)
theory Sad_Theorems
  imports Sad_Log
begin

text \<open>
  The properties of the profiler: what core 0 reports is what the firmware recorded, for every
  schedule of the profiled machine; when every call is counted; the comparison of two passes.
\<close>

subsection \<open>Reading the results\<close>

lemma read_list_pure: "(\<And>x. rd x s = (f x, s)) \<Longrightarrow> read_list rd xs s = (map f xs, s)"
  by (induction xs) simp_all

lemma rd_prof_cva: "read_32b prof_cva a s = (p_look s a, s)"
  by (simp add: read_32b_def prof_cva_def)

lemma read_record_prof:
  "read_record prof_cva j s =
     (map (\<lambda>i. p_look s (u32_to_addr (record_addr (of_nat j) + 4 * of_nat i))) [0..<9], s)"
proof -
  have "DSPM_MILESTONE_LOG_ADDR + 0x80 + of_nat j * 9 * 4 = record_addr (of_nat j)"
    by (simp add: record_addr_def sad_log_defs DSPM_MILESTONE_LOG_ADDR_def)
  then show ?thesis unfolding read_record_def Let_def by (intro read_list_pure) (simp add: rd_prof_cva)
qed

lemma less_9_cases: "i < 9 \<Longrightarrow> i = 0 \<or> i = 1 \<or> i = 2 \<or> i = 3 \<or> i = 4 \<or> i = 5 \<or> i = 6 \<or> i = 7 \<or> i = (8 :: nat)"
  by arith

lemma read_pass_results_prof:
  "fst (read_pass_results prof_cva cyc s) = (let t = (\<lambda>i. p_look s (u32_to_addr (DSPM_LOG_TOTALS + 4 * of_nat i)))
    in \<lparr>pr_call_count = p_look s (u32_to_addr DSPM_LOG_CALL_COUNT), pr_cyc_disp = cyc,
        pr_tot_cyc = t 0, pr_tot_l1 = t 1, pr_tot_stall = t 2, pr_tot_llcrd = t 3, pr_tot_llcwr = t 4,
        pr_tot_memrd = t 5, pr_tot_memwr = t 6, pr_tot_rlat = t 7, pr_tot_wlat = t 8,
        pr_pmu_instret = p_look s (u32_to_addr DSPM_PMU_INSTRET),
        pr_pmu_mcycle = p_look s (u32_to_addr DSPM_PMU_MCYCLE)\<rparr>)"
  by (simp add: read_pass_results_def Let_def rd_prof_cva sad_log_defs DSPM_MILESTONE_LOG_ADDR_def)

lemma log_holds_report:
  fixes cyc :: u32
  assumes h: "log_holds p_look recs (fw, s)" and n: "int (length recs) < 2 ^ 32"
  defines "r \<equiv> fst (read_pass_results prof_cva cyc s)"
  shows "pr_call_count r = of_nat (length recs)" and "totals_of r = totals fw" and "pr_pmu_mcycle r = 0"
    and "fst (print_per_call_records prof_cva (pr_call_count r) s) = take 1000 recs"
proof -
  show cnt: "pr_call_count r = of_nat (length recs)" and "pr_pmu_mcycle r = 0"
    using h by (simp_all add: r_def read_pass_results_prof Let_def log_holds_def)
  have len: "length (totals fw) = 9" using h by (simp add: log_holds_def)
  have tot: "p_look s (u32_to_addr (DSPM_LOG_TOTALS + 4 * of_nat i)) = totals fw ! i" if "i < 9" for i
    using h that by (simp add: log_holds_def)
  have "totals_of r = map (\<lambda>i. p_look s (u32_to_addr (DSPM_LOG_TOTALS + 4 * of_nat i))) [0..<9]"
    by (simp add: r_def totals_of_def read_pass_results_prof Let_def upt_rec)
  also have "\<dots> = totals fw" using len by (intro nth_equalityI) (simp_all add: tot)
  finally show "totals_of r = totals fw" .
  have recs: "map (\<lambda>i. p_look s (u32_to_addr (record_addr (of_nat j) + 4 * of_nat i))) [0..<9] = recs ! j"
    if "j < 1000" "j < length recs" for j
    using h that by (intro nth_equalityI) (auto simp: log_holds_def)
  have "unat (if pr_call_count r > MAX_LOG_RECORDS then MAX_LOG_RECORDS else pr_call_count r) = min 1000 (length recs)"
    using n by (auto simp: cnt MAX_LOG_RECORDS_def word_less_nat_alt unsigned_of_nat take_bit_nat_eq_self nat_less_numeral_power_cancel_iff)
  moreover have "read_list (read_record prof_cva) [0..<m] s =
      (map (\<lambda>j. map (\<lambda>i. p_look s (u32_to_addr (record_addr (of_nat j) + 4 * of_nat i))) [0..<9]) [0..<m], s)" for m
    by (rule read_list_pure) (rule read_record_prof)
  ultimately have "fst (print_per_call_records prof_cva (pr_call_count r) s) =
      map (\<lambda>j. map (\<lambda>i. p_look s (u32_to_addr (record_addr (of_nat j) + 4 * of_nat i))) [0..<9])
        [0..<min 1000 (length recs)]"
    by (simp add: print_per_call_records_def)
  also have "\<dots> = take 1000 recs" by (intro nth_equalityI) (simp_all add: recs)
  finally show "fst (print_per_call_records prof_cva (pr_call_count r) s) = take 1000 recs" .
qed

lemma length_run_records: "length (run_records hw n fs) \<le> n"
proof (induction n arbitrary: fs)
  case (Suc n)
  have "length (poll_record hw fs) \<le> 1" by (simp add: poll_record_def split_beta Let_def)
  then show ?case using Suc.IH [of "sad_poll hw fs"] by simp
qed simp

lemma sad_run_sums:
  assumes "totals (fst fs) = replicate 9 0"
  shows "totals (fst (sad_run hw n fs)) = map (\<lambda>i. \<Sum>r\<leftarrow>run_records hw n fs. r ! i) [0..<9]"
proof (rule nth_equalityI)
  have all: "\<forall>r \<in> set (run_records hw n fs). length r = length (replicate 9 (0 :: u32))"
    using length_run_record [of _ hw n fs] by auto
  have "length (fold (\<lambda>r t. map2 (+) t r) rs t) = length t" if "\<forall>r \<in> set rs. length r = length t"
    for rs :: "u32 list list" and t
    using that by (induction rs arbitrary: t) simp_all
  from this [OF all] show "length (totals (fst (sad_run hw n fs))) =
      length (map (\<lambda>i. \<Sum>r\<leftarrow>run_records hw n fs. r ! i) [0..<9])"
    using assms by (simp add: sad_run_totals)
  then show "totals (fst (sad_run hw n fs)) ! i = map (\<lambda>i. \<Sum>r\<leftarrow>run_records hw n fs. r ! i) [0..<9] ! i"
    if "i < length (totals (fst (sad_run hw n fs)))" for i
    using that fold_add_lists [OF all, of i] assms by (simp add: sad_run_totals)
qed

lemma sad_boot_init: "sad_boot hw fe fx s = Some fs \<Longrightarrow> fst fs = sad_init"
  by (auto simp: sad_boot_def bind_eq_Some_conv Let_def split_beta)

text \<open>C14. The report of the profiler is exact, for every schedule of events, cycles and mailbox writes: after
  the boot of the firmware and any \<open>n\<close> turns of its polling loop, what core 0 reads from the data
  memory is the number of records the firmware made, the sums of their columns, the first thousand of
  them word for word; and the cycle count of the APMU core is still zero, so its line is never
  printed.\<close>

theorem profile_report_exact:
  fixes cyc :: u32
  assumes "sad_boot prof_hw func_entry func_exit s = Some fs" "n < 2 ^ 32"
  defines "recs \<equiv> run_records prof_hw n fs" and "fs' \<equiv> sad_run prof_hw n fs"
  defines "r \<equiv> fst (read_pass_results prof_cva cyc (snd fs'))"
  shows "pr_call_count r = of_nat (length recs) \<and> totals_of r = map (\<lambda>i. \<Sum>x\<leftarrow>recs. x ! i) [0..<9] \<and>
    fst (print_per_call_records prof_cva (pr_call_count r) (snd fs')) = take 1000 recs \<and>
    ipc_row r r' = None"
proof -
  have "log_holds p_look [] fs" using assms(1) by (intro prof_log.log_holds_boot) simp_all
  then have "log_holds p_look ([] @ run_records prof_hw n fs) (sad_run prof_hw n fs)"
    using assms(2) by (intro prof_log.log_holds_run) simp_all
  then have "log_holds p_look recs (fst fs', snd fs')" by (simp add: recs_def fs'_def)
  moreover have "int (length recs) < 2 ^ 32"
    using length_run_records [of prof_hw n fs] assms(2) by (simp add: recs_def)
  moreover have "totals (fst fs') = map (\<lambda>i. \<Sum>x\<leftarrow>recs. x ! i) [0..<9]"
    unfolding recs_def fs'_def
    by (rule sad_run_sums) (simp add: sad_boot_init [OF assms(1)] sad_init_def)
  ultimately show ?thesis
    using log_holds_report [of recs "fst fs'" "snd fs'" cyc] by (simp add: r_def ipc_row_def)
qed

text \<open>A machine that profiles: core 0 keeps the start command in the mailbox and both milestones tick.\<close>

definition busy_acts :: "prof_act list" where
  "busy_acts = [Mailbox DSPM_CMD_ADDR CMD_TRIGGER_INTERRUPT, Event 20 1, Event 21 1, Cycles 100]"

definition busy_machine :: prof_sys where
  "busy_machine = \<lparr>p_cnt = (\<lambda>i. 0), p_mem = (\<lambda>a. 0), p_cycle = 0, p_time = 0, p_sched = (\<lambda>t. busy_acts)\<rparr>"

lemma p_sched_step: "p_sched (prof_step a s) = p_sched s"
  by (cases a) simp_all

lemma p_sched_env: "p_sched (prof_env s) = p_sched s"
proof -
  have "p_sched (fold prof_step as s) = p_sched s" for as s
    by (induction as arbitrary: s) (simp_all add: p_sched_step)
  then show ?thesis by (simp add: prof_env_def)
qed

lemma p_sched_hw:
  "p_sched (WRITE_MEM prof_hw a v s) = p_sched s" "p_sched (snd (READ_MEM prof_hw a s)) = p_sched s"
  "p_sched (cnt_wr prof_hw i v s) = p_sched s" "p_sched (csr_wr prof_hw r w s) = p_sched s"
  "p_sched (snd (csr_rd prof_hw r s)) = p_sched s"
  by (simp_all add: WRITE_MEM_def READ_MEM_def prof_hw_def Let_def p_store_def p_sched_env split: option.split)

lemma p_sched_for: "(\<And>i s. p_sched (body i s) = p_sched s) \<Longrightarrow> p_sched (for_upto n body s) = p_sched s"
  by (rule for_upto_invariant [of "\<lambda>t. p_sched t = p_sched s"]) simp_all

lemma busy_poll:
  assumes "p_sched s = (\<lambda>t. busy_acts)"
  shows "poll_until (READ_MEM prof_hw DSPM_CMD_ADDR) (\<lambda>v. v = CMD_TRIGGER_INTERRUPT) s =
    Some (READ_MEM prof_hw DSPM_CMD_ADDR s)"
proof (rule poll_until_hit)
  have "counter_at (u32_to_addr DSPM_CMD_ADDR) = None" by code_simp
  then show "fst (READ_MEM prof_hw DSPM_CMD_ADDR s) = CMD_TRIGGER_INTERRUPT"
    by (simp add: READ_MEM_def prof_hw_def Let_def prof_env_def assms busy_acts_def p_look_def)
      (simp add: sad_log_defs DSPM_CMD_ADDR_def)
qed

lemma busy_boot: "\<exists>fs. sad_boot prof_hw func_entry func_exit busy_machine = Some fs"
proof -
  have s: "p_sched busy_machine = (\<lambda>t. busy_acts)" by (simp add: busy_machine_def)
  show ?thesis by (simp add: sad_boot_def Let_def busy_poll p_sched_hw p_sched_for s split_beta)
qed

theorem profile_report_exact_witness:
  "\<exists>fs. sad_boot prof_hw 0x80001000 0x80001114 busy_machine = Some fs \<and>
     totals_of (fst (read_pass_results prof_cva 0 (snd (sad_run prof_hw 5000 fs)))) =
       map (\<lambda>i. \<Sum>x\<leftarrow>run_records prof_hw 5000 fs. x ! i) [0..<9]"
proof -
  obtain fs where boot: "sad_boot prof_hw 0x80001000 0x80001114 busy_machine = Some fs"
    using busy_boot by blast
  from profile_report_exact [OF boot, where n = 5000 and cyc = 0] boot show ?thesis by simp
qed

subsection \<open>Which calls are counted\<close>

text \<open>The values of the exit counter that the turns of the loop see.\<close>

fun exit_samples :: "'s hw \<Rightarrow> nat \<Rightarrow> sad_fw \<times> 's \<Rightarrow> u32 list" where
  "exit_samples hw 0 fs = []"
| "exit_samples hw (Suc n) fs = fst (entered hw fs) # exit_samples hw n (sad_poll hw fs)"

fun changes :: "'a \<Rightarrow> 'a list \<Rightarrow> nat" where
  "changes p [] = 0"
| "changes p (x # xs) = (if x \<noteq> p then Suc (changes x xs) else changes x xs)"

fun one_by_one :: "u32 \<Rightarrow> u32 list \<Rightarrow> bool" where
  "one_by_one p [] = True"
| "one_by_one p (x # xs) = ((x = p \<or> x = p + 1) \<and> one_by_one x xs)"

lemma prev_exit_entered: "prev_exit (fst (snd (entered hw fs))) = prev_exit (fst fs)"
  by (simp add: entered_def split_beta Let_def sad_entry_frame)

lemma sad_poll_exit:
  "prev_exit (fst (sad_poll hw fs)) = fst (entered hw fs)"
  "length (poll_record hw fs) = (if fst (entered hw fs) \<noteq> prev_exit (fst fs) then 1 else 0)"
proof -
  obtain c fw s where e: "entered hw fs = (c, fw, s)" by (cases "entered hw fs")
  have p: "prev_exit fw = prev_exit (fst fs)" using prev_exit_entered [of hw fs] by (simp add: e)
  show "prev_exit (fst (sad_poll hw fs)) = fst (entered hw fs)"
    by (simp add: sad_poll_entered [OF e] e sad_exit_def split_beta Let_def)
  show "length (poll_record hw fs) = (if fst (entered hw fs) \<noteq> prev_exit (fst fs) then 1 else 0)"
    by (simp add: poll_record_entered [OF e] e p)
qed

lemma length_run_records_changes:
  "length (run_records hw n fs) = changes (prev_exit (fst fs)) (exit_samples hw n fs)"
  by (induction n arbitrary: fs) (simp_all add: sad_poll_exit)

lemma run_prev_exit:
  "prev_exit (fst (sad_run hw n fs)) = last (prev_exit (fst fs) # exit_samples hw n fs)"
  by (induction n arbitrary: fs) (simp_all add: sad_run_def sad_run_Suc [unfolded sad_run_def] sad_poll_exit
      del: funpow.simps(2))

lemma changes_one_by_one: "one_by_one p xs \<Longrightarrow> p + of_nat (changes p xs) = last (p # xs)"
  by (induction xs arbitrary: p) (auto simp: add.assoc [symmetric])

text \<open>C30. The profiler counts every call as long as the polling keeps up: if no two successive samples of
  the exit counter are more than one apart, the number of calls grows by exactly what the counter
  grew, on any hardware. (The loop compares samples for equality, so calls that end between two
  samples are otherwise one record.)\<close>

theorem every_call_counted:
  assumes "one_by_one (prev_exit (fst fs)) (exit_samples hw n fs)"
  shows "call_count (fst (sad_run hw n fs)) - call_count (fst fs) =
    prev_exit (fst (sad_run hw n fs)) - prev_exit (fst fs)"
  using changes_one_by_one [OF assms, symmetric]
  by (simp add: sad_run_totals length_run_records_changes run_prev_exit del: last.simps)

text \<open>A counter that ticks whenever the exit milestone is read.\<close>

definition ticking_hw :: "u32 hw" where
  "ticking_hw = \<lparr>rd32 = (\<lambda>a s. if a = 0x1041C000 then (s, s + 1) else (0, s)), wr32 = (\<lambda>a v s. s),
     rd64 = (\<lambda>a s. (0, s)), wr64 = (\<lambda>a v s. s), wr8 = (\<lambda>a v s. s), csr_rd = (\<lambda>r s. (0, s)),
     csr_wr = (\<lambda>r v s. s), cnt_rd = (\<lambda>i s. (0, s)), cnt_wr = (\<lambda>i v s. s), fence = id\<rparr>"

lemma ticking_samples: "exit_samples ticking_hw 3 (sad_init, 1) = [1, 2, 3]"
  by code_simp

theorem every_call_counted_witness:
  "call_count (fst (sad_run ticking_hw 3 (sad_init, 1))) = 3"
proof -
  have "one_by_one (prev_exit (fst (sad_init, 1 :: u32))) (exit_samples ticking_hw 3 (sad_init, 1))"
    unfolding ticking_samples by (simp add: sad_init_def)
  from every_call_counted [OF this] show ?thesis
    using run_prev_exit [of ticking_hw 3 "(sad_init, 1)"] unfolding ticking_samples by (simp add: sad_init_def)
qed

subsection \<open>The comparison\<close>

lemma percent_bound:
  assumes "0 < s" "0 \<le> i" "i < 21474836 * s"
  shows "\<bar>((i - s) * 100) sdiv s\<bar> \<le> (2147483600 :: int)"
proof -
  have "\<bar>(i - s) * 100\<bar> \<le> 2147483600 * s" using assms by (simp add: abs_if)
  then have "\<bar>(i - s) * 100\<bar> div s \<le> 2147483600 * s div s" by (rule zdiv_mono1) (rule assms(1))
  moreover have "\<bar>((i - s) * 100) sdiv s\<bar> = \<bar>(i - s) * 100\<bar> div s"
    using assms(1) by (cases "i = s") (simp_all add: signed_divide_int_def abs_mult sgn_mult
        pos_imp_zdiv_nonneg_iff)
  ultimately show ?thesis using assms(1) by simp
qed

lemma cmp_row_int:
  assumes p: "cmp_pct s i = word_of_int p" and b: "\<bar>p\<bar> \<le> 2147483600"
  shows "case cmp_row s i of (a, b, c, m) \<Rightarrow> a = s \<and> b = i \<and>
    c = (if p < 0 then CHR ''-'' else CHR ''+'') \<and> sint m = \<bar>p\<bar>"
proof -
  have lo: "- (2 ^ 31) \<le> p" "p < 2 ^ 31" "- (2 ^ 31) \<le> - p" "- p < 2 ^ 31"
    using abs_le_D1 [OF b] abs_le_D2 [OF b] by simp_all
  have "sint (word_of_int p :: i32) = p" by (rule sint_word_of_int_small [OF lo(1,2)])
  moreover have "sint (- word_of_int p :: i32) = - p"
    unfolding wi_hom_neg by (rule sint_word_of_int_small [OF lo(3,4)])
  ultimately show ?thesis by (simp add: cmp_row_def Let_def p del: wi_hom_neg)
qed

text \<open>A row of the comparison shows the change in percent, truncated towards zero, with its sign, whenever
  the second value is less than 21474836 times the first; beyond that the narrowing to 32 bits shows.\<close>

theorem cmp_row_exact:
  assumes "0 < uint s" "uint i < 21474836 * uint s"
  shows "case cmp_row s i of (a, b, c, m) \<Rightarrow> a = s \<and> b = i \<and>
    c = (if ((uint i - uint s) * 100) sdiv uint s < 0 then CHR ''-'' else CHR ''+'') \<and>
    sint m = \<bar>((uint i - uint s) * 100) sdiv uint s\<bar>"
proof -
  have "\<bar>((uint i - uint s) * 100) sdiv uint s\<bar> \<le> 2147483600"
    using percent_bound [of "uint s" "uint i"] assms by simp
  moreover have "cmp_pct s i = word_of_int (((uint i - uint s) * 100) sdiv uint s)"
    using assms(1) by (simp add: cmp_pct_def word_less_def)
  ultimately show ?thesis by (rule cmp_row_int [rotated])
qed

theorem cmp_row_exact_witness: "\<exists>m. cmp_row 200 150 = (200, 150, CHR ''-'', m) \<and> sint m = 25"
  using cmp_row_exact [of 200 150] by (simp add: signed_divide_int_def split: prod.splits)

end
