(* ===== verification/Riscv.thy ===== *)
theory Riscv
  imports Prelude
begin

text \<open>
  The machine programs that \<open>pmu_test_func.c\<close> writes into the instruction memory of the APMU core,
  and the two encoders of \<open>riscv_encoder_instr.c\<close> that patch them. The instructions they use are a
  fragment of RV32IM with the two counter instructions of the APMU; they reach the world through
  the same hardware interface as compiled code. The programs are position independent, so the program
  counter is an offset into the program.
\<close>

subsection \<open>Encoders\<close>

text \<open>The flag \<open>DEBUG\<close> only prints.\<close>

definition encodeLUI :: "u32 \<Rightarrow> u32 \<Rightarrow> u32" where
  "encodeLUI rd imm = (0x37 AND 0x7F) OR push_bit 7 (rd AND 0x1F) OR push_bit 12 (imm AND 0xFFFFF)"

definition encodeADDI :: "u32 \<Rightarrow> u32 \<Rightarrow> u32 \<Rightarrow> u32" where
  "encodeADDI rd rs1 imm = (0x13 AND 0x7F) OR push_bit 7 (rd AND 0x1F) OR push_bit 12 0 OR
     push_bit 15 (rs1 AND 0x1F) OR push_bit 20 (imm AND 0xFFF)"

subsection \<open>Instructions\<close>

datatype alu = Add | Sub | Sll | Xor | Srl | Or | And | Mul | Mulhu

datatype cmp = Beq | Bne | Bltu | Bgeu

datatype instr =
    Lui nat u32
  | OpImm alu nat nat u32
  | Op alu nat nat nat
  | Lw nat nat u32
  | Sw nat nat u32
  | Branch cmp nat nat u32
  | CntRd nat nat
  | CntWr nat nat

definition field :: "nat \<Rightarrow> nat \<Rightarrow> u32 \<Rightarrow> u32" where
  "field lo n w = take_bit n (drop_bit lo w)"

definition reg_field :: "nat \<Rightarrow> u32 \<Rightarrow> nat" where
  "reg_field lo w = unat (field lo 5 w)"

definition sign_extend :: "nat \<Rightarrow> u32 \<Rightarrow> u32" where
  "sign_extend n v = (if bit v (n - 1) then v OR NOT (mask n) else v)"

definition imm_i :: "u32 \<Rightarrow> u32" where "imm_i w = sign_extend 12 (field 20 12 w)"

definition imm_s :: "u32 \<Rightarrow> u32" where
  "imm_s w = sign_extend 12 (push_bit 5 (field 25 7 w) OR field 7 5 w)"

definition imm_b :: "u32 \<Rightarrow> u32" where
  "imm_b w = sign_extend 13 (push_bit 12 (field 31 1 w) OR push_bit 11 (field 7 1 w) OR
     push_bit 5 (field 25 6 w) OR push_bit 1 (field 8 4 w))"

definition decode_op :: "u32 \<Rightarrow> u32 \<Rightarrow> alu option" where
  "decode_op f3 f7 =
     (if f7 = 0 then (if f3 = 0 then Some Add else if f3 = 1 then Some Sll else if f3 = 4 then Some Xor
        else if f3 = 5 then Some Srl else if f3 = 6 then Some Or else if f3 = 7 then Some And else None)
      else if f7 = 0x20 then (if f3 = 0 then Some Sub else None)
      else if f7 = 1 then (if f3 = 0 then Some Mul else if f3 = 3 then Some Mulhu else None)
      else None)"

definition decode_opimm :: "u32 \<Rightarrow> u32 \<Rightarrow> alu option" where
  "decode_opimm f3 f7 =
     (if f3 = 0 then Some Add else if f3 = 4 then Some Xor else if f3 = 6 then Some Or
      else if f3 = 7 then Some And else if f3 = 1 \<and> f7 = 0 then Some Sll
      else if f3 = 5 \<and> f7 = 0 then Some Srl else None)"

definition decode_cmp :: "u32 \<Rightarrow> cmp option" where
  "decode_cmp f3 = (if f3 = 0 then Some Beq else if f3 = 1 then Some Bne else if f3 = 6 then Some Bltu
     else if f3 = 7 then Some Bgeu else None)"

definition decode :: "u32 \<Rightarrow> instr option" where
  "decode w =
     (let opcode = field 0 7 w; f3 = field 12 3 w; f7 = field 25 7 w;
          rd = reg_field 7 w; rs1 = reg_field 15 w; rs2 = reg_field 20 w
      in if opcode = 0x37 then Some (Lui rd (w AND NOT (mask 12)))
         else if opcode = 0x13 then map_option (\<lambda>a. OpImm a rd rs1 (imm_i w)) (decode_opimm f3 f7)
         else if opcode = 0x33 then map_option (\<lambda>a. Op a rd rs1 rs2) (decode_op f3 f7)
         else if opcode = 0x03 then (if f3 = 2 then Some (Lw rd rs1 (imm_i w)) else None)
         else if opcode = 0x23 then (if f3 = 2 then Some (Sw rs2 rs1 (imm_s w)) else None)
         else if opcode = 0x63 then map_option (\<lambda>c. Branch c rs1 rs2 (imm_b w)) (decode_cmp f3)
         else if opcode = 0x07 then (if f3 = 0 then Some (CntRd rd rs1)
           else if f3 = 1 then Some (CntWr rs1 rs2) else None)
         else None)"

subsection \<open>Execution\<close>

definition alu_val :: "alu \<Rightarrow> u32 \<Rightarrow> u32 \<Rightarrow> u32" where
  "alu_val a x y = (case a of Add \<Rightarrow> x + y | Sub \<Rightarrow> x - y | Sll \<Rightarrow> push_bit (unat (take_bit 5 y)) x
     | Xor \<Rightarrow> x XOR y | Srl \<Rightarrow> drop_bit (unat (take_bit 5 y)) x | Or \<Rightarrow> x OR y | And \<Rightarrow> x AND y
     | Mul \<Rightarrow> x * y | Mulhu \<Rightarrow> ucast (drop_bit 32 (ucast x * ucast y :: u64)))"

definition cmp_val :: "cmp \<Rightarrow> u32 \<Rightarrow> u32 \<Rightarrow> bool" where
  "cmp_val c x y = (case c of Beq \<Rightarrow> x = y | Bne \<Rightarrow> x \<noteq> y | Bltu \<Rightarrow> x < y | Bgeu \<Rightarrow> x \<ge> y)"

text \<open>Register 0 reads as zero and ignores writes.\<close>

record rv =
  rv_pc :: u32
  rv_regs :: "nat \<Rightarrow> u32"

definition get_reg :: "(nat \<Rightarrow> u32) \<Rightarrow> nat \<Rightarrow> u32" where
  "get_reg rs i = (if i = 0 then 0 else rs i)"

definition set_reg :: "nat \<Rightarrow> u32 \<Rightarrow> (nat \<Rightarrow> u32) \<Rightarrow> nat \<Rightarrow> u32" where
  "set_reg i v rs = (if i = 0 then rs else rs(i := v))"

fun exec :: "'s hw \<Rightarrow> instr \<Rightarrow> rv \<times> 's \<Rightarrow> rv \<times> 's" where
  "exec hw (Lui rd imm) (r, s) = (r\<lparr>rv_pc := rv_pc r + 4, rv_regs := set_reg rd imm (rv_regs r)\<rparr>, s)"
| "exec hw (OpImm a rd rs1 imm) (r, s) =
     (r\<lparr>rv_pc := rv_pc r + 4, rv_regs := set_reg rd (alu_val a (get_reg (rv_regs r) rs1) imm) (rv_regs r)\<rparr>, s)"
| "exec hw (Op a rd rs1 rs2) (r, s) =
     (r\<lparr>rv_pc := rv_pc r + 4,
        rv_regs := set_reg rd (alu_val a (get_reg (rv_regs r) rs1) (get_reg (rv_regs r) rs2)) (rv_regs r)\<rparr>, s)"
| "exec hw (Lw rd rs1 imm) (r, s) =
     (case rd32 hw (u32_to_addr (get_reg (rv_regs r) rs1 + imm)) s of
        (v, s) \<Rightarrow> (r\<lparr>rv_pc := rv_pc r + 4, rv_regs := set_reg rd v (rv_regs r)\<rparr>, s))"
| "exec hw (Sw rs2 rs1 imm) (r, s) =
     (r\<lparr>rv_pc := rv_pc r + 4\<rparr>,
      wr32 hw (u32_to_addr (get_reg (rv_regs r) rs1 + imm)) (get_reg (rv_regs r) rs2) s)"
| "exec hw (Branch c rs1 rs2 imm) (r, s) =
     (r\<lparr>rv_pc := rv_pc r + (if cmp_val c (get_reg (rv_regs r) rs1) (get_reg (rv_regs r) rs2) then imm else 4)\<rparr>, s)"
| "exec hw (CntRd rd rs1) (r, s) =
     (case cnt_rd hw (get_reg (rv_regs r) rs1) s of
        (v, s) \<Rightarrow> (r\<lparr>rv_pc := rv_pc r + 4, rv_regs := set_reg rd v (rv_regs r)\<rparr>, s))"
| "exec hw (CntWr rs1 rs2) (r, s) =
     (r\<lparr>rv_pc := rv_pc r + 4\<rparr>, cnt_wr hw (get_reg (rv_regs r) rs1) (get_reg (rv_regs r) rs2) s)"

text \<open>A step fetches, decodes and executes; it is stuck outside the program and on other instructions.\<close>

definition fetch :: "instr option list \<Rightarrow> u32 \<Rightarrow> instr option" where
  "fetch code pc = (if pc AND 3 = 0 \<and> unat (pc div 4) < length code then code ! unat (pc div 4) else None)"

definition rv_step :: "'s hw \<Rightarrow> instr option list \<Rightarrow> rv \<times> 's \<Rightarrow> (rv \<times> 's) option" where
  "rv_step hw code rs = map_option (\<lambda>i. exec hw i rs) (fetch code (rv_pc (fst rs)))"

fun rv_run :: "'s hw \<Rightarrow> instr option list \<Rightarrow> nat \<Rightarrow> rv \<times> 's \<Rightarrow> (rv \<times> 's) option" where
  "rv_run hw code 0 rs = Some rs"
| "rv_run hw code (Suc n) rs = Option.bind (rv_step hw code rs) (rv_run hw code n)"

definition load_code :: "u32 list \<Rightarrow> instr option list" where
  "load_code prog = map decode prog"

definition rv_reset :: rv where
  "rv_reset = \<lparr>rv_pc = 0, rv_regs = (\<lambda>_. 0)\<rparr>"

lemma rv_run_add:
  "rv_run hw code (m + n) rs = Option.bind (rv_run hw code m rs) (rv_run hw code n)"
proof (induction m arbitrary: rs)
  case (Suc m)
  then show ?case by (cases "rv_step hw code rs") simp_all
qed simp

text \<open>
  \<open>rv_reaches hw code n c P\<close>: within \<open>n\<close> instructions the core comes from the configuration \<open>c\<close> to one
  with \<open>P\<close>. It is a total-correctness judgement: a program that gets stuck or that runs on does not reach.
\<close>

definition rv_reaches :: "'s hw \<Rightarrow> instr option list \<Rightarrow> nat \<Rightarrow> rv \<times> 's \<Rightarrow> (rv \<times> 's \<Rightarrow> bool) \<Rightarrow> bool" where
  "rv_reaches hw code n c P \<longleftrightarrow> (\<exists>k \<le> n. \<exists>c'. rv_run hw code k c = Some c' \<and> P c')"

lemma rv_reaches_here: "P c \<Longrightarrow> rv_reaches hw code n c P"
  unfolding rv_reaches_def by (intro exI [of _ 0]) simp

lemma rv_reachesI: "rv_run hw code k c = Some c' \<Longrightarrow> k \<le> n \<Longrightarrow> P c' \<Longrightarrow> rv_reaches hw code n c P"
  unfolding rv_reaches_def by blast

lemma rv_run_numeral:
  "rv_run hw code (numeral v) c = Option.bind (rv_step hw code c) (rv_run hw code (pred_numeral v))"
  by (simp add: numeral_eq_Suc)

lemma rv_reaches_step:
  "rv_step hw code c = Some c' \<Longrightarrow> rv_reaches hw code n c' P \<Longrightarrow> rv_reaches hw code (Suc n) c P"
  unfolding rv_reaches_def by (metis Suc_le_mono bind.bind_lunit rv_run.simps(2))

lemma rv_reaches_trans:
  assumes "rv_reaches hw code m c P" "\<And>c'. P c' \<Longrightarrow> rv_reaches hw code n c' Q"
  shows "rv_reaches hw code (m + n) c Q"
proof -
  obtain k c' where k: "k \<le> m" "rv_run hw code k c = Some c'" "P c'"
    using assms(1) unfolding rv_reaches_def by blast
  obtain l c'' where l: "l \<le> n" "rv_run hw code l c' = Some c''" "Q c''"
    using assms(2) [OF k(3)] unfolding rv_reaches_def by blast
  show ?thesis
    unfolding rv_reaches_def using k l by (intro exI [of _ "k + l"]) (simp add: rv_run_add)
qed

lemma rv_reaches_mono:
  "rv_reaches hw code m c P \<Longrightarrow> m \<le> n \<Longrightarrow> (\<And>c. P c \<Longrightarrow> Q c) \<Longrightarrow> rv_reaches hw code n c Q"
  unfolding rv_reaches_def by (meson le_trans)

text \<open>A program goes on running in a longer one.\<close>

lemma rv_step_append: "rv_step hw code c = Some c' \<Longrightarrow> rv_step hw (code @ rest) c = Some c'"
  by (auto simp: rv_step_def fetch_def nth_append split: if_splits)

lemma rv_run_append: "rv_run hw code k c = Some c' \<Longrightarrow> rv_run hw (code @ rest) k c = Some c'"
proof (induction k arbitrary: c)
  case (Suc k)
  then obtain d where "rv_step hw code c = Some d" by (cases "rv_step hw code c") auto
  with Suc show ?case by (simp add: rv_step_append)
qed simp

text \<open>One instruction at a known program counter.\<close>

lemma rv_step_at:
  "rv_pc r = 4 * of_nat i \<Longrightarrow> i < length code \<Longrightarrow> length code \<le> 1000 \<Longrightarrow>
   rv_step hw code (r, s) = map_option (\<lambda>i. exec hw i (r, s)) (code ! i)"
proof -
  assume pc: "rv_pc r = 4 * of_nat i" and i: "i < length code" "length code \<le> 1000"
  have four: "(4 * of_nat i :: u32) = of_nat (4 * i)" by simp
  have val: "unat (4 * of_nat i :: u32) = 4 * i"
    unfolding four using i by (simp only: unat_of_nat) (simp add: take_bit_eq_mod)
  have "(4 * of_nat i :: u32) AND 3 = take_bit 2 (of_nat (4 * i))"
    by (simp add: take_bit_eq_mask mask_eq_exp_minus_1)
  also have "\<dots> = of_nat (take_bit 2 (4 * i))" by (simp only: take_bit_of_nat)
  also have "\<dots> = 0" by (simp add: take_bit_eq_mod)
  finally have aligned: "(4 * of_nat i :: u32) AND 3 = 0" .
  have "unat ((4 * of_nat i :: u32) div 4) = i" by (simp only: unat_div val) simp
  then show ?thesis using i(1) by (simp add: rv_step_def fetch_def pc aligned)
qed

subsection \<open>The encoders and the decoder\<close>

lemma field_or: "field lo n (a OR b) = field lo n a OR field lo n b"
  by (simp add: field_def take_bit_or)

lemma field_above: "lo + n \<le> m \<Longrightarrow> field lo n (push_bit m a) = 0"
  by (rule bit_word_eqI) (auto simp: field_def bit_simps)

lemma field_at: "lo + n \<le> 32 \<Longrightarrow> field lo n (push_bit lo a) = take_bit n a"
  by (rule bit_word_eqI) (auto simp: field_def bit_simps)

lemma field_below: "m + k \<le> lo \<Longrightarrow> field lo n (push_bit m (take_bit k a)) = 0"
  by (rule bit_word_eqI) (auto simp: field_def bit_simps)

lemma field_small: "lo + n \<le> 32 \<Longrightarrow> field lo n (take_bit k a) = 0" if "k \<le> lo"
  using that by (auto intro!: bit_word_eqI simp: field_def bit_simps)

lemma and_masks:
  "(a :: u32) AND 0x1F = take_bit 5 a" "a AND 0x7F = take_bit 7 a" "a AND 0xFFF = take_bit 12 a"
  "a AND 0xFFFFF = take_bit 20 a"
  by (simp_all add: take_bit_eq_mask mask_eq_exp_minus_1)

lemmas field_simps = field_or field_above field_at field_below and_masks

lemma decode_encodeLUI:
  "decode (encodeLUI rd imm) = Some (Lui (unat (take_bit 5 rd)) (push_bit 12 imm))"
proof -
  have op: "field 0 7 (encodeLUI rd imm) = 0x37"
    by (simp add: encodeLUI_def field_simps) (simp add: field_def)
  have "field 7 5 (encodeLUI rd imm) = take_bit 5 rd"
    by (simp add: encodeLUI_def field_simps) (simp add: field_def)
  moreover have "encodeLUI rd imm AND NOT (mask 12) = push_bit 12 imm"
  proof -
    have "(0x37 :: u32) AND NOT (mask 12) = 0" by (simp add: mask_eq_exp_minus_1)
    moreover have "push_bit 7 (take_bit 5 rd) AND NOT (mask 12) = 0"
      by (rule bit_word_eqI) (auto simp: bit_simps)
    moreover have "push_bit 12 (take_bit 20 imm) AND NOT (mask 12) = push_bit 12 imm"
      by (rule bit_word_eqI) (auto simp: bit_simps)
    ultimately show ?thesis by (simp add: encodeLUI_def and_masks bit.conj_disj_distrib2)
  qed
  ultimately show ?thesis by (simp add: decode_def op reg_field_def Let_def)
qed

lemma decode_encodeADDI:
  "decode (encodeADDI rd rs1 imm) =
     Some (OpImm Add (unat (take_bit 5 rd)) (unat (take_bit 5 rs1)) (sign_extend 12 (take_bit 12 imm)))"
proof -
  have "field 0 7 (encodeADDI rd rs1 imm) = 0x13" "field 7 5 (encodeADDI rd rs1 imm) = take_bit 5 rd"
    "field 12 3 (encodeADDI rd rs1 imm) = 0" "field 15 5 (encodeADDI rd rs1 imm) = take_bit 5 rs1"
    "field 20 12 (encodeADDI rd rs1 imm) = take_bit 12 imm"
    by (simp_all add: encodeADDI_def field_simps) (simp_all add: field_def)
  then show ?thesis by (simp add: decode_def decode_opimm_def imm_i_def reg_field_def Let_def)
qed

lemma sign_extend_12:
  "sign_extend 12 (take_bit 12 a) = take_bit 12 a - (if bit a 11 then 0x1000 else 0)"
proof -
  have "take_bit 12 a OR NOT (mask 12) = take_bit 12 a + NOT (mask 12)"
    by (intro disjunctive_add_eq_or [symmetric]) (rule bit_word_eqI, auto simp: bit_simps)
  moreover have "(NOT (mask 12) :: u32) = - 0x1000" by (simp add: mask_eq_exp_minus_1)
  ultimately show ?thesis by (simp add: sign_extend_def bit_take_bit_iff)
qed

text \<open>
  The two instructions that the test programs use to load an address: the sum is the address only when
  its bit 11 is clear, because \<open>addi\<close> sign-extends.
\<close>

lemma lui_addi_value:
  "push_bit 12 (drop_bit 12 a) + sign_extend 12 (take_bit 12 a) = (if bit a 11 then a - 0x1000 else (a :: u32))"
proof -
  have "push_bit 12 (drop_bit 12 a) + take_bit 12 a = a"
    by (metis add.commute bits_ident)
  then show ?thesis by (simp add: sign_extend_12 add_diff_eq)
qed


lemma sign_extend_small:
  assumes "unat v < 2048"
  shows "sign_extend 12 (take_bit 12 v) = v"
proof -
  have small: "take_bit n v = v" if "11 \<le> n" for n
  proof -
    have "unat v < 2 ^ n" using assms power_increasing [OF that, of "2 :: nat"] by simp
    then show ?thesis by (metis take_bit_nat_eq_self unsigned_take_bit_eq word_unat_eq_iff)
  qed
  then have "\<not> bit v 11" using bit_take_bit_iff [of 11 v 11] by simp
  then show ?thesis using small [of 12] sign_extend_12 [of v] by simp
qed

lemma lui_addi: "\<not> bit a 11 \<Longrightarrow> push_bit 12 (drop_bit 12 a) + sign_extend 12 (take_bit 12 a) = (a :: u32)"
  by (simp add: lui_addi_value)

lemmas decode_simps = decode_def decode_op_def decode_opimm_def decode_cmp_def field_def reg_field_def
  imm_i_def imm_s_def imm_b_def sign_extend_def mask_eq_exp_minus_1

lemmas exec_simps = rv_run_numeral get_reg_def set_reg_def alu_val_def cmp_val_def

end
