(* ===== verification/Pmu_Test.thy ===== *)
theory Pmu_Test
  imports Mempol_Bench Riscv
begin

text \<open>
  The bring-up tests of \<open>pmu_test_func.c\<close> (the case studies at its end are in \<open>Case_Study\<close>): block
  reads and writes of registers, the read-back tests of the scratchpads and of the counter bundles, and
  the tests that load a small machine program into the APMU core, start it and check what it leaves.
  The flag \<open>DEBUG\<close> only prints. A polling loop that may not end is an \<open>option\<close>, as is a
  function whose C code is undefined for some input.
\<close>

subsection \<open>Helpers\<close>

fun S_to_binary_from :: "u32 \<Rightarrow> u8 list \<Rightarrow> u32" where
  "S_to_binary_from i [] = i"
| "S_to_binary_from i (c # s) = (if c = 0 then i else S_to_binary_from (push_bit 1 i + (ucast c - 48)) s)"

definition S_to_binary :: "u8 list \<Rightarrow> u32" where
  "S_to_binary s = S_to_binary_from 0 s"

definition my_rand :: "u32 \<Rightarrow> u32" where
  "my_rand seed = (let a = 1103515245; c = 12345; m = push_bit 29 2 in (a * seed + c) mod m)"

text \<open>The array grows by one element in each turn of the loop; \<open>None\<close> is the read of \<open>comp_array[-1]\<close>.\<close>

fun comp_array :: "nat \<Rightarrow> u32 list" where
  "comp_array 0 = []"
| "comp_array (Suc i) = (let xs = comp_array i in
     xs @ [if i = 0 then 1 else xs ! (i - 1) + of_nat i * of_nat i])"

definition array_traversal :: "u32 \<Rightarrow> u32 option" where
  "array_traversal n = (if n = 0 then None else Some (comp_array (unat n) ! unat (n - 1)))"

subsection \<open>Registers\<close>

record counter_b_t =
  counter :: u32
  event_sel :: u32
  event_info :: u32
  init_budget :: u32

definition read_counter_b :: "'s hw \<Rightarrow> u64 \<Rightarrow> 's \<Rightarrow> counter_b_t \<times> 's" where
  "read_counter_b hw base_addr s =
     (let (c, s) = read_32b hw base_addr s;
          base_addr = base_addr + 0x4;
          (sel, s) = read_32b hw base_addr s;
          base_addr = base_addr + 0x4;
          (info, s) = read_32b hw base_addr s;
          base_addr = base_addr + 0x4;
          (budget, s) = read_32b hw base_addr s
      in (\<lparr>counter = c, event_sel = sel, event_info = info, init_budget = budget\<rparr>, s))"

definition write_counter_b :: "'s hw \<Rightarrow> u64 \<Rightarrow> counter_b_t \<Rightarrow> 's \<Rightarrow> 's" where
  "write_counter_b hw base_addr cb s =
     (let s = write_32b hw base_addr (counter cb) s;
          base_addr = base_addr + 0x4;
          s = write_32b hw base_addr (event_sel cb) s;
          base_addr = base_addr + 0x4;
          s = write_32b hw base_addr (event_info cb) s;
          base_addr = base_addr + 0x4
      in write_32b hw base_addr (init_budget cb) s)"

fun read_32b_regs :: "'s hw \<Rightarrow> u64 \<Rightarrow> nat \<Rightarrow> u32 \<Rightarrow> 's \<Rightarrow> u32 list \<times> 's" where
  "read_32b_regs hw base_addr 0 step s = ([], s)"
| "read_32b_regs hw base_addr (Suc n) step s =
     (let (v, s) = read_32b hw base_addr s;
          (vs, s) = read_32b_regs hw (base_addr + ucast step) n step s
      in (v # vs, s))"

fun write_32b_regs :: "'s hw \<Rightarrow> u64 \<Rightarrow> u32 list \<Rightarrow> u32 \<Rightarrow> 's \<Rightarrow> 's" where
  "write_32b_regs hw base_addr [] step s = s"
| "write_32b_regs hw base_addr (v # vs) step s =
     write_32b_regs hw (base_addr + ucast step) vs step (write_32b hw base_addr v s)"

text \<open>A shift of a \<open>uint32_t\<close> in C: undefined when the distance is not below the width.\<close>

definition shl32 :: "u32 \<Rightarrow> nat \<Rightarrow> u32 option" where
  "shl32 v n = (if n < 32 then Some (push_bit n v) else None)"

fun read_64b_regs :: "'s hw \<Rightarrow> u64 \<Rightarrow> nat \<Rightarrow> u32 \<Rightarrow> 's \<Rightarrow> (u64 list \<times> 's) option" where
  "read_64b_regs hw base_addr 0 step s = Some ([], s)"
| "read_64b_regs hw base_addr (Suc n) step s =
     (let (val_l, s) = read_32b hw base_addr s;
          (val_h, s) = read_32b hw (base_addr + 4) s
      in do {
        high \<leftarrow> shl32 val_h 32;
        (vs, s) \<leftarrow> read_64b_regs hw (base_addr + ucast step) n step s;
        Some (ucast (high OR val_l) # vs, s)
      })"

fun write_64b_regs :: "'s hw \<Rightarrow> u64 \<Rightarrow> u64 list \<Rightarrow> u32 \<Rightarrow> 's \<Rightarrow> 's" where
  "write_64b_regs hw base_addr [] step s = s"
| "write_64b_regs hw base_addr (v # vs) step s =
     (let val_l = ucast (v AND 0xFFFFFFFF);
          val_h = ucast (drop_bit 32 v);
          s = write_32b hw base_addr val_l s;
          s = write_32b hw (base_addr + 4) val_h s
      in write_64b_regs hw (base_addr + ucast step) vs step s)"

subsection \<open>Read-back tests\<close>

definition count_diff :: "u32 list \<Rightarrow> u32 list \<Rightarrow> u32" where
  "count_diff xs ys = of_nat (length (filter (\<lambda>(x, y). x \<noteq> y) (zip xs ys)))"

fun write_bundles :: "'s hw \<Rightarrow> u64 \<Rightarrow> u32 \<Rightarrow> counter_b_t list \<Rightarrow> 's \<Rightarrow> 's" where
  "write_bundles hw base_addr step [] s = s"
| "write_bundles hw base_addr step (v # vs) s =
     write_bundles hw (base_addr + ucast step) step vs (write_counter_b hw base_addr v s)"

fun read_bundles :: "'s hw \<Rightarrow> u64 \<Rightarrow> u32 \<Rightarrow> nat \<Rightarrow> 's \<Rightarrow> counter_b_t list \<times> 's" where
  "read_bundles hw base_addr step 0 s = ([], s)"
| "read_bundles hw base_addr step (Suc n) s =
     (let (v, s) = read_counter_b hw base_addr s;
          (vs, s) = read_bundles hw (base_addr + ucast step) step n s
      in (v # vs, s))"

definition bundle_errors :: "counter_b_t \<Rightarrow> counter_b_t \<Rightarrow> u32" where
  "bundle_errors v r = (if counter v \<noteq> counter r then 1 else 0) +
     (if event_sel v \<noteq> event_sel r then 1 else 0) +
     (if event_info v \<noteq> event_info r then 1 else 0) +
     (if init_budget v \<noteq> init_budget r then 1 else 0)"

definition test_counter_bundle :: "'s hw \<Rightarrow> u64 \<Rightarrow> u32 \<Rightarrow> counter_b_t list \<Rightarrow> 's \<Rightarrow> u32 \<times> 's" where
  "test_counter_bundle hw base_addr bundle_size vals s =
     (let s = write_bundles hw base_addr bundle_size vals s;
          (rvals, s) = read_bundles hw base_addr bundle_size (length vals) s
      in (sum_list (map2 bundle_errors vals rvals), s))"

definition rand_seed :: "u64 \<Rightarrow> u32 \<Rightarrow> nat \<Rightarrow> u32" where
  "rand_seed base_addr num_rw i = ucast (base_addr * of_nat i + ucast num_rw)"

text \<open>The function has no \<open>return\<close> statement, so the result of the inner test is lost.\<close>

definition test_counter_bundle_rand :: "'s hw \<Rightarrow> u64 \<Rightarrow> u32 \<Rightarrow> u32 \<Rightarrow> 's \<Rightarrow> 's" where
  "test_counter_bundle_rand hw base_addr num_rw bundle_size s =
     (let rand_val = map (\<lambda>i. let seed = rand_seed base_addr num_rw i in
            \<lparr>counter = my_rand (seed + 0), event_sel = my_rand (seed + 1),
             event_info = my_rand (seed + 2), init_budget = my_rand (seed + 3)\<rparr>) [0..<unat num_rw]
      in snd (test_counter_bundle hw base_addr bundle_size rand_val s))"

definition test_spm :: "'s hw \<Rightarrow> u64 \<Rightarrow> u32 list \<Rightarrow> 's \<Rightarrow> u32 \<times> 's" where
  "test_spm hw base_addr vals s =
     (let s = write_32b_regs hw base_addr vals 0x4 s;
          (rvals, s) = read_32b_regs hw base_addr (length vals) 0x4 s
      in (count_diff vals rvals, s))"

definition rand_vals :: "u64 \<Rightarrow> u32 \<Rightarrow> u32 list" where
  "rand_vals base_addr num_rw = map (\<lambda>i. my_rand (rand_seed base_addr num_rw i)) [0..<unat num_rw]"

definition test_spm_rand :: "'s hw \<Rightarrow> u64 \<Rightarrow> u32 \<Rightarrow> 's \<Rightarrow> u32 \<times> 's" where
  "test_spm_rand hw base_addr num_rw s = test_spm hw base_addr (rand_vals base_addr num_rw) s"

end
