(* ===== verification/Pmu_Core_Test.thy ===== *)
theory Pmu_Core_Test
  imports Pmu_Test
begin

text \<open>
  The second half of the bring-up tests of \<open>pmu_test_func.c\<close>: each test patches operands into a machine
  program, stops the APMU core, writes the program to the instruction memory, starts the core, and most
  then wait for a word the program leaves. The program as the file has it is \<open>..._words\<close>, the patched one
  is \<open>..._program\<close>.
\<close>

subsection \<open>Bubble sort\<close>

definition bubble_words :: "u32 list" where
  "bubble_words =
    [0x33, 0x00000000, 0x00000000, 0x00000000, 0x8333, 0x2b3, 0x32203, 0x432183, 0x41f863, 0x332023,
     0x432223, 0x100293, 0x430313, 0xfe2312e3, 0x28663, 0xffc10113, 0xfc1118e3, 0x33, 0xfe000ee3]"

definition bubble_program :: "u32 \<Rightarrow> u32 \<Rightarrow> u32 list" where
  "bubble_program arr_base len = bubble_words
     [1 := encodeLUI 1 (drop_bit 12 arr_base),
      2 := encodeADDI 1 1 (arr_base AND 0xFFF),
      3 := encodeADDI 2 1 ((len - 1) * 4)]"

text \<open>
  One turn of the inner loop compares \<open>array[i]\<close> and \<open>array[i + 1]\<close>; one turn of the outer loop is a
  pass over the first \<open>m + 1\<close> elements, and the sort stops after a pass without a swap. For \<open>len = 0\<close> the
  bound \<open>len - 1\<close> wraps and the C function leaves the array.
\<close>

definition bubble_compare :: "nat \<Rightarrow> bool \<times> u32 list \<Rightarrow> bool \<times> u32 list" where
  "bubble_compare i p =
     (case p of (swapped, xs) \<Rightarrow>
        if xs ! i > xs ! (i + 1) then (True, xs[i := xs ! (i + 1), i + 1 := xs ! i]) else (swapped, xs))"

definition bubble_pass :: "nat \<Rightarrow> u32 list \<Rightarrow> bool \<times> u32 list" where
  "bubble_pass m xs = for_upto m bubble_compare (False, xs)"

fun bubble_steps :: "nat \<Rightarrow> u32 list \<Rightarrow> u32 list" where
  "bubble_steps 0 xs = xs"
| "bubble_steps (Suc m) xs =
     (case bubble_pass (Suc m) xs of (swapped, ys) \<Rightarrow> if swapped then bubble_steps m ys else ys)"

definition bubble_sort :: "u32 list \<Rightarrow> u32 list option" where
  "bubble_sort xs = (if xs = [] then None else Some (bubble_steps (length xs - 1) xs))"

text \<open>The polling loop: it ends as soon as two comparisons in a row count the same number of differences.\<close>

partial_function (option) poll_sorted ::
    "'s hw \<Rightarrow> u64 \<Rightarrow> u32 list \<Rightarrow> u32 \<Rightarrow> u32 \<Rightarrow> 's \<Rightarrow> (u32 \<times> 's) option" where
  "poll_sorted hw arr_base golden prev_error_count error_count s =
     (if prev_error_count = error_count then Some (error_count, s)
      else case read_32b_regs hw arr_base (length golden) 0x4 s of
        (ibex_val, s) \<Rightarrow> poll_sorted hw arr_base golden error_count (count_diff golden ibex_val) s)"

definition test_pmu_core_bubble_sort :: "'s hw \<Rightarrow> u32 \<Rightarrow> u32 \<Rightarrow> u32 \<Rightarrow> u32 \<Rightarrow> 's \<Rightarrow> (u32 \<times> 's) option" where
  "test_pmu_core_bubble_sort hw program_start_addr arr_base pmc_status_base_addr len s =
     (let s = write_32b hw (u32_to_addr pmc_status_base_addr) 1 s;
          (e1, s) = test_spm hw (u32_to_addr program_start_addr) (bubble_program arr_base len) s;
          (e2, s) = test_spm_rand hw (u32_to_addr arr_base) len s;
          (cva6_val, s) = read_32b_regs hw (u32_to_addr arr_base) (unat len) 0x4 s;
          s = write_32b hw (u32_to_addr pmc_status_base_addr) 0 s
      in do {
        golden \<leftarrow> bubble_sort cva6_val;
        poll_sorted hw (u32_to_addr arr_base) golden (- 1) (e1 + e2) s
      })"

subsection \<open>Interrupt, halt and resume programs\<close>

definition interrupt_words :: "u32 list" where
  "interrupt_words =
    [0x33, 0x104040b7, 0x1408093, 0x104063b7, 0x38393, 0x40000137, 0x20a023, 0x6500413, 0x83a023, 0x33,
     0xfe000ee3]"

definition interrupt_program :: "u32 \<Rightarrow> u32 \<Rightarrow> u32 list" where
  "interrupt_program cnt_addr target_addr = interrupt_words
     [1 := encodeLUI 1 (drop_bit 12 cnt_addr),
      2 := encodeADDI 1 1 (cnt_addr AND 0xFFF),
      3 := encodeLUI 7 (drop_bit 12 target_addr),
      4 := encodeADDI 7 7 (target_addr AND 0xFFF)]"

text \<open>Stop the core, write the program, start the core: what all these tests begin with.\<close>

definition load_and_start :: "'s hw \<Rightarrow> u32 \<Rightarrow> u32 \<Rightarrow> u32 list \<Rightarrow> 's \<Rightarrow> u32 \<times> 's" where
  "load_and_start hw program_start_addr pmc_status_base_addr program s =
     (let s = write_32b hw (u32_to_addr pmc_status_base_addr) 1 s;
          (error_count, s) = test_spm hw (u32_to_addr program_start_addr) program s;
          s = write_32b hw (u32_to_addr pmc_status_base_addr) 0 s
      in (error_count, s))"

definition wait_for_target :: "'s hw \<Rightarrow> u32 \<Rightarrow> 's \<Rightarrow> 's option" where
  "wait_for_target hw target_addr s =
     map_option snd (poll_until (read_32b hw (u32_to_addr target_addr)) (\<lambda>v. v = 101) s)"

definition pmu_core_send_interrupt :: "'s hw \<Rightarrow> u32 \<Rightarrow> u32 \<Rightarrow> u32 \<Rightarrow> u32 \<Rightarrow> 's \<Rightarrow> (u32 \<times> 's) option" where
  "pmu_core_send_interrupt hw program_start_addr cnt_addr target_addr pmc_status_base_addr s =
     (let (error_count, s) = load_and_start hw program_start_addr pmc_status_base_addr
            (interrupt_program cnt_addr target_addr) s
      in do { s \<leftarrow> wait_for_target hw target_addr s; Some (error_count, s) })"

definition halt_words :: "u32 list" where
  "halt_words = [0x33, 0x137, 0x20010113, 0x213, 0x412023, 0x33, 0xfe000ee3]"

definition halt_program :: "u32 \<Rightarrow> u32 list" where
  "halt_program core_id = halt_words[3 := encodeADDI 4 0 (core_id AND 0xFFF)]"

definition pmu_halt_core :: "'s hw \<Rightarrow> u32 \<Rightarrow> u32 \<Rightarrow> u32 \<Rightarrow> 's \<Rightarrow> u32 \<times> 's" where
  "pmu_halt_core hw program_start_addr pmc_status_base_addr core_id s =
     load_and_start hw program_start_addr pmc_status_base_addr (halt_program core_id) s"

definition resume_words :: "u32 list" where
  "resume_words = [0x33, 0x137, 0x20010113, 0x213, 0x412423, 0x33, 0xfe000ee3]"

definition resume_program :: "u32 \<Rightarrow> u32 list" where
  "resume_program core_id = resume_words[3 := encodeADDI 4 0 (core_id AND 0xFFF)]"

definition pmu_resume_core :: "'s hw \<Rightarrow> u32 \<Rightarrow> u32 \<Rightarrow> u32 \<Rightarrow> 's \<Rightarrow> u32 \<times> 's" where
  "pmu_resume_core hw program_start_addr pmc_status_base_addr core_id s =
     load_and_start hw program_start_addr pmc_status_base_addr (resume_program core_id) s"

subsection \<open>Halting and resuming every core\<close>

definition debug_words :: "u32 list" where
  "debug_words =
    [0x33, 0x400093, 0x1400313, 0x137, 0x20010113, 0x213, 0x293, 0x412023, 0x120213, 0x128293,
     0xfe129ae3, 0x3b3, 0x33, 0x138393, 0xfe639ce3, 0x213, 0x293, 0x412423, 0x120213, 0x128293,
     0xfe129ae3, 0x33, 0xfe000ee3]"

definition debug_program :: "u32 \<Rightarrow> u32 \<Rightarrow> u32 list" where
  "debug_program num_core wait_before_resuming = debug_words
     [1 := encodeADDI 1 0 (num_core AND 0xFFF),
      2 := encodeADDI 6 0 (wait_before_resuming AND 0xFFF)]"

text \<open>The array traversal only delays; with no core it reads before its array.\<close>

definition test_pmu_debug_func :: "'s hw \<Rightarrow> u32 \<Rightarrow> u32 \<Rightarrow> u32 \<Rightarrow> u32 \<Rightarrow> 's \<Rightarrow> (u32 \<times> 's) option" where
  "test_pmu_debug_func hw program_start_addr pmc_status_base_addr num_core wait_before_resuming s =
     (let s = write_32b hw (u32_to_addr pmc_status_base_addr) 1 s;
          (error_count, s) = test_spm hw (u32_to_addr program_start_addr)
            (debug_program num_core wait_before_resuming) s
      in do {
        res \<leftarrow> array_traversal (num_core * 150);
        Some (error_count, write_32b hw (u32_to_addr pmc_status_base_addr) 0 s)
      })"

subsection \<open>Counter writes from the core\<close>

definition counter_words :: "u32 list" where
  "counter_words =
    [0x33, 0x104040b7, 0x1408093, 0x104063b7, 0x38393, 0x400113, 0x1b7, 0x1000193, 0x233, 0x82b3,
     0x10f00313, 0x62a023, 0x10f30313, 0x62a223, 0x10f30313, 0x62a423, 0x10f30313, 0x62a623, 0x10f30313,
     0x120213, 0x3282b3, 0xfc221ce3, 0x6500413, 0x83a023, 0x33, 0xfe000ee3]"

definition counter_program :: "u32 \<Rightarrow> u32 \<Rightarrow> u32 \<Rightarrow> u32 list" where
  "counter_program counter_b_base_addr target_addr num_counter = counter_words
     [1 := encodeLUI 1 (drop_bit 12 counter_b_base_addr),
      2 := encodeADDI 1 1 (counter_b_base_addr AND 0xFFF),
      3 := encodeLUI 7 (drop_bit 12 target_addr),
      4 := encodeADDI 7 7 (target_addr AND 0xFFF),
      5 := encodeADDI 2 0 num_counter,
      6 := encodeLUI 3 (drop_bit 12 COUNTER_BUNDLE_SIZE),
      7 := encodeADDI 3 3 (COUNTER_BUNDLE_SIZE AND 0xFFF)]"

text \<open>The expected values are the multiples of 271, over all bundles in turn.\<close>

fun counter_write_errors :: "u64 \<Rightarrow> counter_b_t list \<Rightarrow> u32" where
  "counter_write_errors target_value [] = 0"
| "counter_write_errors target_value (r # rs) =
     (if ucast (counter r) \<noteq> target_value + 271 then 1 else 0) +
     (if ucast (event_sel r) \<noteq> target_value + 271 + 271 then 1 else 0) +
     (if ucast (event_info r) \<noteq> target_value + 271 + 271 + 271 then 1 else 0) +
     (if ucast (init_budget r) \<noteq> target_value + 271 + 271 + 271 + 271 then 1 else 0) +
     counter_write_errors (target_value + 271 + 271 + 271 + 271) rs"

definition test_pmu_core_counter_b_writes ::
    "'s hw \<Rightarrow> u32 \<Rightarrow> u32 \<Rightarrow> u32 \<Rightarrow> u32 \<Rightarrow> u32 \<Rightarrow> 's \<Rightarrow> (u32 \<times> 's) option" where
  "test_pmu_core_counter_b_writes hw program_start_addr counter_b_base_addr target_addr
       pmc_status_base_addr num_counter s =
     (let (error_count, s) = load_and_start hw program_start_addr pmc_status_base_addr
            (counter_program counter_b_base_addr target_addr num_counter) s
      in do {
        s \<leftarrow> wait_for_target hw target_addr s;
        let (rval, s) = read_bundles hw (u32_to_addr counter_b_base_addr) COUNTER_BUNDLE_SIZE
          (unat num_counter) s;
        Some (error_count + counter_write_errors 0 rval, s)
      })"

subsection \<open>The suite\<close>

definition run_pmu_core_test_suite ::
    "'s hw \<Rightarrow> u32 \<Rightarrow> u32 \<Rightarrow> u32 \<Rightarrow> u32 \<Rightarrow> u32 \<Rightarrow> u32 \<Rightarrow> 's \<Rightarrow> (u32 \<times> 's) option" where
  "run_pmu_core_test_suite hw ispm_base_addr counter_b_base_addr dspm_base_addr pmc_status_base_addr
       num_counter arr_len s =
     (let (e1, s) = test_spm_rand hw (u32_to_addr ispm_base_addr) arr_len s;
          (e2, s) = test_spm_rand hw (u32_to_addr dspm_base_addr) arr_len s
      in do {
        (e3, s) \<leftarrow> test_pmu_core_bubble_sort hw ispm_base_addr dspm_base_addr pmc_status_base_addr arr_len s;
        (e4, s) \<leftarrow> test_pmu_core_counter_b_writes hw ispm_base_addr counter_b_base_addr dspm_base_addr
          pmc_status_base_addr num_counter s;
        Some (e1 + e2 + e3 + e4, s)
      })"

end
