(* ===== verification/Bubble_Sort.thy ===== *)
theory Bubble_Sort
  imports Pmu_Core_Test "HOL-Library.Multiset"
begin

text \<open>
  The sort of \<open>pmu_test_func.c\<close>, twice: the C function sorts its array, and the machine program that the
  test loads into the APMU core leaves in memory exactly what the C function computes.
\<close>

subsection \<open>The C function\<close>

text \<open>The elements above index \<open>m\<close> are in their final place.\<close>

definition settled :: "nat \<Rightarrow> u32 list \<Rightarrow> bool" where
  "settled m xs \<longleftrightarrow> (\<forall>i j. i < j \<longrightarrow> m < j \<longrightarrow> j < length xs \<longrightarrow> xs ! i \<le> xs ! j)"

definition pass_invariant :: "nat \<Rightarrow> u32 list \<Rightarrow> nat \<Rightarrow> bool \<times> u32 list \<Rightarrow> bool" where
  "pass_invariant m xs k p \<longleftrightarrow> mset (snd p) = mset xs \<and> settled m (snd p) \<and>
     (\<forall>i \<le> k. snd p ! i \<le> snd p ! k) \<and>
     (\<not> fst p \<longrightarrow> snd p = xs \<and> (\<forall>i < k. xs ! i \<le> xs ! Suc i))"

lemma mset_swap_next: "Suc k < length xs \<Longrightarrow> mset (xs[k := xs ! Suc k, Suc k := xs ! k]) = mset xs"
  using mset_swap [of k xs "Suc k"] by (simp add: list_update_swap)

lemma pass_invariant_step:
  assumes inv: "pass_invariant m xs k (sw, ys)" and k: "k < m" "m < length xs"
  shows "pass_invariant m xs (Suc k) (bubble_compare k (sw, ys))"
proof -
  have len: "length ys = length xs" using inv by (auto simp: pass_invariant_def dest: mset_eq_length)
  show ?thesis
  proof (cases "ys ! k > ys ! Suc k")
    case True
    let ?zs = "ys[k := ys ! Suc k, Suc k := ys ! k]"
    have "mset ?zs = mset xs" using inv k len by (simp add: pass_invariant_def mset_swap_next)
    moreover have "settled m ?zs"
      using inv k len unfolding pass_invariant_def settled_def
      by (auto simp: nth_list_update)
    moreover have "?zs ! i \<le> ?zs ! Suc k" if "i \<le> Suc k" for i
    proof (cases "i = Suc k")
      case False
      have "ys ! j \<le> ys ! k" if "j \<le> k" for j using inv that by (simp add: pass_invariant_def)
      with False \<open>i \<le> Suc k\<close> True k len show ?thesis by (auto simp: nth_list_update)
    qed simp
    ultimately show ?thesis using True by (simp add: bubble_compare_def pass_invariant_def)
  next
    case False
    moreover have "ys ! i \<le> ys ! Suc k" if "i \<le> Suc k" for i
    proof (cases "i = Suc k")
      case False
      then have "ys ! i \<le> ys ! k" using inv that by (simp add: pass_invariant_def)
      with \<open>\<not> ys ! k > ys ! Suc k\<close> show ?thesis by simp
    qed simp
    ultimately show ?thesis using inv by (auto simp: bubble_compare_def pass_invariant_def less_Suc_eq)
  qed
qed

lemma pass_invariant_pass:
  assumes "settled m xs" "m < length xs"
  shows "k \<le> m \<Longrightarrow> pass_invariant m xs k (for_upto k bubble_compare (False, xs))"
proof (induction k)
  case 0
  then show ?case using assms by (simp add: pass_invariant_def)
next
  case (Suc k)
  then show ?case using assms(2)
    by (cases "for_upto k bubble_compare (False, xs)") (simp add: for_upto_Suc pass_invariant_step)
qed

lemma sorted_iff_settled: "sorted xs \<longleftrightarrow> settled 0 xs"
  unfolding settled_def sorted_iff_nth_mono_less by auto

lemma bubble_steps_sorts:
  "settled m xs \<Longrightarrow> m < length xs \<Longrightarrow> sorted (bubble_steps m xs) \<and> mset (bubble_steps m xs) = mset xs"
proof (induction m arbitrary: xs)
  case 0
  then show ?case by (simp add: sorted_iff_settled)
next
  case (Suc m)
  obtain sw ys where pass: "bubble_pass (Suc m) xs = (sw, ys)" by (cases "bubble_pass (Suc m) xs")
  have inv: "pass_invariant (Suc m) xs (Suc m) (sw, ys)"
    using pass_invariant_pass [OF Suc.prems, of "Suc m"] pass by (simp add: bubble_pass_def)
  then have perm: "mset ys = mset xs" by (simp add: pass_invariant_def)
  then have len: "length ys = length xs" by (rule mset_eq_length)
  show ?case
  proof (cases sw)
    case True
    have "ys ! i \<le> ys ! j" if "i < j" "m < j" "j < length ys" for i j
    proof (cases "j = Suc m")
      case True
      then show ?thesis using inv that(1) by (simp add: pass_invariant_def)
    next
      case False
      then show ?thesis using inv that unfolding pass_invariant_def settled_def by simp
    qed
    then have "settled m ys" by (simp add: settled_def)
    then show ?thesis using Suc.IH [of ys] Suc.prems(2) True pass perm len by simp
  next
    case False
    have "xs ! i \<le> xs ! Suc i" if "Suc i < length xs" for i
    proof (cases "i < Suc m")
      case True
      then show ?thesis using inv False by (simp add: pass_invariant_def)
    next
      case False
      then show ?thesis using Suc.prems(1) that by (simp add: settled_def)
    qed
    then have "sorted xs" by (simp add: sorted_iff_nth_Suc)
    then show ?thesis using inv False pass by (simp add: pass_invariant_def)
  qed
qed

lemma bubble_sort_sorts:
  "xs \<noteq> [] \<Longrightarrow> \<exists>ys. bubble_sort xs = Some ys \<and> sorted ys \<and> mset ys = mset xs"
proof -
  assume "xs \<noteq> []"
  moreover have "settled (length xs - 1) xs" by (auto simp: settled_def)
  ultimately show ?thesis using bubble_steps_sorts [of "length xs - 1" xs] by (simp add: bubble_sort_def)
qed

lemma bubble_sort_is_sort: "xs \<noteq> [] \<Longrightarrow> bubble_sort xs = Some (sort xs)"
  using bubble_sort_sorts [of xs] by (auto simp: properties_for_sort)

subsection \<open>The machine program\<close>

text \<open>The instructions the APMU core executes: the words that \<open>test_pmu_core_bubble_sort\<close> writes.\<close>

definition bubble_code :: "u32 \<Rightarrow> u32 \<Rightarrow> instr option list" where
  "bubble_code b len = load_code (bubble_program b len)"

lemma bubble_code:
  "bubble_code b len =
    [Some (Op Add 0 0 0),
     Some (Lui 1 (push_bit 12 (drop_bit 12 b))),
     Some (OpImm Add 1 1 (sign_extend 12 (take_bit 12 b))),
     Some (OpImm Add 2 1 (sign_extend 12 (take_bit 12 ((len - 1) * 4)))),
     Some (Op Add 6 1 0), Some (Op Add 5 0 0), Some (Lw 4 6 0), Some (Lw 3 6 4),
     Some (Branch Bgeu 3 4 16), Some (Sw 3 6 0), Some (Sw 4 6 4), Some (OpImm Add 5 0 1),
     Some (OpImm Add 6 6 4), Some (Branch Bne 6 2 (- 28)), Some (Branch Beq 5 0 12),
     Some (OpImm Add 2 2 (- 4)), Some (Branch Bne 2 1 (- 48)), Some (Op Add 0 0 0),
     Some (Branch Beq 0 0 (- 4))]"
  unfolding bubble_code_def load_code_def bubble_program_def bubble_words_def
  by (simp add: decode_encodeLUI decode_encodeADDI and_masks) (simp add: decode_simps)
lemma bubble_at:
  "rv_pc r = 0 \<Longrightarrow> rv_step hw (bubble_code b len) (r, s) = Some (exec hw (Op Add 0 0 0) (r, s))"
  "rv_pc r = 4 \<Longrightarrow> rv_step hw (bubble_code b len) (r, s) = Some (exec hw (Lui 1 (push_bit 12 (drop_bit 12 b))) (r, s))"
  "rv_pc r = 8 \<Longrightarrow> rv_step hw (bubble_code b len) (r, s) = Some (exec hw (OpImm Add 1 1 (sign_extend 12 (take_bit 12 b))) (r, s))"
  "rv_pc r = 12 \<Longrightarrow> rv_step hw (bubble_code b len) (r, s) = Some (exec hw (OpImm Add 2 1 (sign_extend 12 (take_bit 12 ((len - 1) * 4)))) (r, s))"
  "rv_pc r = 16 \<Longrightarrow> rv_step hw (bubble_code b len) (r, s) = Some (exec hw (Op Add 6 1 0) (r, s))"
  "rv_pc r = 20 \<Longrightarrow> rv_step hw (bubble_code b len) (r, s) = Some (exec hw (Op Add 5 0 0) (r, s))"
  "rv_pc r = 24 \<Longrightarrow> rv_step hw (bubble_code b len) (r, s) = Some (exec hw (Lw 4 6 0) (r, s))"
  "rv_pc r = 28 \<Longrightarrow> rv_step hw (bubble_code b len) (r, s) = Some (exec hw (Lw 3 6 4) (r, s))"
  "rv_pc r = 32 \<Longrightarrow> rv_step hw (bubble_code b len) (r, s) = Some (exec hw (Branch Bgeu 3 4 16) (r, s))"
  "rv_pc r = 36 \<Longrightarrow> rv_step hw (bubble_code b len) (r, s) = Some (exec hw (Sw 3 6 0) (r, s))"
  "rv_pc r = 40 \<Longrightarrow> rv_step hw (bubble_code b len) (r, s) = Some (exec hw (Sw 4 6 4) (r, s))"
  "rv_pc r = 44 \<Longrightarrow> rv_step hw (bubble_code b len) (r, s) = Some (exec hw (OpImm Add 5 0 1) (r, s))"
  "rv_pc r = 48 \<Longrightarrow> rv_step hw (bubble_code b len) (r, s) = Some (exec hw (OpImm Add 6 6 4) (r, s))"
  "rv_pc r = 52 \<Longrightarrow> rv_step hw (bubble_code b len) (r, s) = Some (exec hw (Branch Bne 6 2 (- 28)) (r, s))"
  "rv_pc r = 56 \<Longrightarrow> rv_step hw (bubble_code b len) (r, s) = Some (exec hw (Branch Beq 5 0 12) (r, s))"
  "rv_pc r = 60 \<Longrightarrow> rv_step hw (bubble_code b len) (r, s) = Some (exec hw (OpImm Add 2 2 (- 4)) (r, s))"
  "rv_pc r = 64 \<Longrightarrow> rv_step hw (bubble_code b len) (r, s) = Some (exec hw (Branch Bne 2 1 (- 48)) (r, s))"
  "rv_pc r = 68 \<Longrightarrow> rv_step hw (bubble_code b len) (r, s) = Some (exec hw (Op Add 0 0 0) (r, s))"
  "rv_pc r = 72 \<Longrightarrow> rv_step hw (bubble_code b len) (r, s) = Some (exec hw (Branch Beq 0 0 (- 4)) (r, s))"
  by (simp_all add: rv_step_def fetch_def bubble_code)

definition cell :: "u32 \<Rightarrow> nat \<Rightarrow> u64" where
  "cell b i = u32_to_addr (b + 4 * of_nat i)"

lemma cell_inject:
  assumes "i < 2 ^ 30" "j < 2 ^ 30"
  shows "b + 4 * of_nat i = (b + 4 * of_nat j :: u32) \<longleftrightarrow> i = j" "cell b i = cell b j \<longleftrightarrow> i = j"
proof -
  have "(4 * of_nat k :: u32) = of_nat (4 * k)" for k by simp
  moreover have "(of_nat (4 * i) :: u32) = of_nat (4 * j) \<longleftrightarrow> i = j"
    using assms by (simp only: word_of_nat_eq_iff) (simp add: take_bit_nat_eq_self)
  ultimately show *: "b + 4 * of_nat i = (b + 4 * of_nat j :: u32) \<longleftrightarrow> i = j"
    by (simp del: of_nat_mult)
  then show "cell b i = cell b j \<longleftrightarrow> i = j" by (simp add: cell_def u32_to_addr_inject)
qed

definition array_at :: "('s \<Rightarrow> u64 \<Rightarrow> u32) \<Rightarrow> u32 \<Rightarrow> u32 list \<Rightarrow> 's \<Rightarrow> bool" where
  "array_at look b xs s \<longleftrightarrow> (\<forall>i < length xs. look s (cell b i) = xs ! i)"

definition rest_as :: "u64 set \<Rightarrow> ('s \<Rightarrow> u64 \<Rightarrow> u32) \<Rightarrow> u32 \<Rightarrow> nat \<Rightarrow> 's \<Rightarrow> 's \<Rightarrow> bool" where
  "rest_as A look b n s0 s \<longleftrightarrow> (\<forall>a \<in> A - cell b ` {..<n}. look s a = look s0 a)"

text \<open>
  The configurations of the program at \<open>pc\<close>: the pass goes up to index \<open>m\<close> and is at \<open>i\<close>, and the
  variables of the C function are \<open>p\<close>.
\<close>

definition sort_at :: "('s \<Rightarrow> u64 \<Rightarrow> u32) \<Rightarrow> u32 \<Rightarrow> u32 \<Rightarrow> nat \<Rightarrow> nat \<Rightarrow> bool \<times> u32 list \<Rightarrow> rv \<times> 's \<Rightarrow> bool" where
  "sort_at look b pc m i p c \<longleftrightarrow> rv_pc (fst c) = pc \<and> rv_regs (fst c) 1 = b \<and>
     rv_regs (fst c) 2 = b + 4 * of_nat m \<and> rv_regs (fst c) 6 = b + 4 * of_nat i \<and>
     rv_regs (fst c) 5 = (if fst p then 1 else 0) \<and> array_at look b (snd p) (snd c)"

lemma compare_length: "length (snd (for_upto k bubble_compare p)) = length (snd p)"
  by (induction k) (auto simp: for_upto_Suc bubble_compare_def split: prod.splits)

locale sort_memory = word_store hw A look for hw :: "'s hw" and A look +
  fixes b :: u32 and n :: nat
  assumes cells: "i < n \<Longrightarrow> cell b i \<in> A" and small: "n \<le> 2 ^ 30"
begin

lemma load_cell: "array_at look b xs s \<Longrightarrow> length xs = n \<Longrightarrow> i < n \<Longrightarrow> rd32 hw (cell b i) s = (xs ! i, s)"
  by (simp add: load cells array_at_def)

lemma store_cell:
  "array_at look b xs s \<Longrightarrow> length xs = n \<Longrightarrow> i < n \<Longrightarrow> array_at look b (xs[i := v]) (wr32 hw (cell b i) v s)"
  using small by (auto simp: array_at_def store cells cell_inject nth_list_update)

lemma store_rest: "rest_as A look b n s0 s \<Longrightarrow> i < n \<Longrightarrow> rest_as A look b n s0 (wr32 hw (cell b i) v s)"
  by (auto simp: rest_as_def store cells)

lemma body:
  assumes c: "sort_at look b 24 m i (sw, xs) (r, s)" "rest_as A look b n s0 s"
    and len: "length xs = n" "Suc i < n"
  shows "rv_reaches hw (bubble_code b l) 7 (r, s)
    (\<lambda>c. sort_at look b 52 m (Suc i) (bubble_compare i (sw, xs)) c \<and> rest_as A look b n s0 (snd c))"
proof -
  have pc: "rv_pc r = 24" and x6: "rv_regs r 6 = b + 4 * of_nat i" and arr: "array_at look b xs s"
    using c by (simp_all add: sort_at_def)
  have a0: "u32_to_addr (b + 4 * of_nat i) = cell b i"
    and a1: "u32_to_addr (b + 4 * of_nat i + 4) = cell b (Suc i)"
    by (simp_all add: cell_def algebra_simps)
  have l0: "rd32 hw (cell b i) s = (xs ! i, s)" and l1: "rd32 hw (cell b (Suc i)) s = (xs ! Suc i, s)"
    using arr len by (simp_all add: load_cell)
  show ?thesis
  proof (cases "xs ! i > xs ! Suc i")
    case True
    let ?s1 = "wr32 hw (cell b i) (xs ! Suc i) s" and ?s2 = "\<lambda>s. wr32 hw (cell b (Suc i)) (xs ! i) s"
    have "array_at look b (xs[i := xs ! Suc i]) ?s1" using arr len by (simp add: store_cell)
    then have "array_at look b (xs[i := xs ! Suc i, Suc i := xs ! i]) (?s2 ?s1)"
      using len store_cell [of "xs[i := xs ! Suc i]" ?s1 "Suc i" "xs ! i"] by simp
    moreover have "rest_as A look b n s0 (?s2 ?s1)" using c(2) len by (intro store_rest) simp_all
    moreover have "\<exists>r'. rv_run hw (bubble_code b l) 7 (r, s) = Some (r', ?s2 ?s1) \<and>
        rv_pc r' = 52 \<and> rv_regs r' 1 = rv_regs r 1 \<and> rv_regs r' 2 = rv_regs r 2 \<and>
        rv_regs r' 6 = rv_regs r 6 + 4 \<and> rv_regs r' 5 = 1"
      using pc True
      by (simp add: rv_run_numeral bubble_at get_reg_def set_reg_def x6 a0 a1 l0 l1 cmp_val_def alu_val_def
          linorder_not_le)
    ultimately show ?thesis using c True
      by (auto intro!: rv_reachesI simp: sort_at_def bubble_compare_def algebra_simps)
  next
    case False
    have "\<exists>r'. rv_run hw (bubble_code b l) 4 (r, s) = Some (r', s) \<and>
        rv_pc r' = 52 \<and> rv_regs r' 1 = rv_regs r 1 \<and> rv_regs r' 2 = rv_regs r 2 \<and>
        rv_regs r' 6 = rv_regs r 6 + 4 \<and> rv_regs r' 5 = rv_regs r 5"
      using pc False
      by (simp add: rv_run_numeral bubble_at get_reg_def set_reg_def x6 a0 a1 l0 l1 cmp_val_def alu_val_def)
    then show ?thesis using c False
      by (auto intro!: rv_reachesI simp: sort_at_def bubble_compare_def algebra_simps)
  qed
qed


text \<open>The inner loop, from index \<open>i\<close> to \<open>m\<close>.\<close>

lemma inner:
  assumes "sort_at look b 24 m i (for_upto i bubble_compare (False, xs)) c" "rest_as A look b n s0 (snd c)"
    and "length xs = n" "m < n" "i < m"
  shows "rv_reaches hw (bubble_code b l) (8 * (m - i)) c
    (\<lambda>c. sort_at look b 56 m m (bubble_pass m xs) c \<and> rest_as A look b n s0 (snd c))"
  using assms
proof (induction "m - i" arbitrary: i c)
  case 0
  then show ?case by simp
next
  case (Suc d)
  let ?p = "for_upto i bubble_compare (False, xs)" and ?P = "\<lambda>c. sort_at look b 52 m (Suc i)
      (for_upto (Suc i) bubble_compare (False, xs)) c \<and> rest_as A look b n s0 (snd c)"
  obtain r s where rs: "c = (r, s)" by (cases c)
  obtain sw ys where p: "?p = (sw, ys)" by (cases ?p)
  have "length ys = length xs"
    using compare_length [of i "(False, xs)"] p by simp
  then have step: "rv_reaches hw (bubble_code b l) 7 c ?P"
    using body [of m i sw ys r s s0 l] Suc.prems rs p by (simp add: for_upto_Suc)
  have next_turn: "rv_reaches hw (bubble_code b l) (Suc (8 * (m - Suc i))) c'
      (\<lambda>c. sort_at look b 56 m m (bubble_pass m xs) c \<and> rest_as A look b n s0 (snd c))" if "?P c'" for c'
  proof -
    obtain r' s' where c': "c' = (r', s')" by (cases c')
    have pc: "rv_pc r' = 52" "rv_regs r' 6 = b + 4 * of_nat (Suc i)" "rv_regs r' 2 = b + 4 * of_nat m"
      using \<open>?P c'\<close> c' by (simp_all add: sort_at_def)
    have ne: "b + 4 * of_nat (Suc i) = (b + 4 * of_nat m :: u32) \<longleftrightarrow> Suc i = m"
      using Suc.prems(4,5) small by (intro cell_inject) simp_all
    let ?c = "(r'\<lparr>rv_pc := if Suc i = m then 56 else 24\<rparr>, s')"
    have run: "rv_step hw (bubble_code b l) c' = Some ?c"
      using pc ne by (simp add: c' bubble_at get_reg_def cmp_val_def)
    have "rv_reaches hw (bubble_code b l) (8 * (m - Suc i)) ?c
        (\<lambda>c. sort_at look b 56 m m (bubble_pass m xs) c \<and> rest_as A look b n s0 (snd c))"
    proof (cases "Suc i = m")
      case True
      then show ?thesis using \<open>?P c'\<close> c'
        by (intro rv_reaches_here) (simp add: sort_at_def bubble_pass_def)
    next
      case False
      then show ?thesis using \<open>?P c'\<close> c' Suc.prems Suc.hyps(2) by (intro Suc.hyps(1)) (auto simp: sort_at_def)
    qed
    then show ?thesis using run by (rule rv_reaches_step [rotated])
  qed
  have "8 * (m - i) = 7 + Suc (8 * (m - Suc i))" using Suc.prems(5) by simp
  then show ?case using rv_reaches_trans [OF step next_turn] by simp
qed


lemma pass_run:
  assumes c: "rv_pc r = 16" "rv_regs r 1 = b" "rv_regs r 2 = b + 4 * of_nat m"
    "array_at look b xs s" "rest_as A look b n s0 s"
    and len: "length xs = n" "m < n" "0 < m"
  shows "rv_reaches hw (bubble_code b l) (8 * m + 2) (r, s)
    (\<lambda>c. sort_at look b 56 m m (bubble_pass m xs) c \<and> rest_as A look b n s0 (snd c))"
proof -
  have "\<exists>r'. rv_run hw (bubble_code b l) 2 (r, s) = Some (r', s) \<and> sort_at look b 24 m 0 (False, xs) (r', s)"
    using c by (simp add: rv_run_numeral bubble_at get_reg_def set_reg_def alu_val_def sort_at_def)
  then have "rv_reaches hw (bubble_code b l) 2 (r, s)
      (\<lambda>c. sort_at look b 24 m 0 (for_upto 0 bubble_compare (False, xs)) c \<and> rest_as A look b n s0 (snd c))"
    using c(5) by (auto intro!: rv_reachesI)
  then have "rv_reaches hw (bubble_code b l) (2 + 8 * (m - 0)) (r, s)
      (\<lambda>c. sort_at look b 56 m m (bubble_pass m xs) c \<and> rest_as A look b n s0 (snd c))"
  proof (rule rv_reaches_trans)
    fix c assume "sort_at look b 24 m 0 (for_upto 0 bubble_compare (False, xs)) c \<and> rest_as A look b n s0 (snd c)"
    then show "rv_reaches hw (bubble_code b l) (8 * (m - 0)) c
        (\<lambda>c. sort_at look b 56 m m (bubble_pass m xs) c \<and> rest_as A look b n s0 (snd c))"
      using len by (intro inner) simp_all
  qed
  then show ?thesis by (simp add: add.commute)
qed

text \<open>The end of a pass: the program leaves after a pass without a swap and after the last pass.\<close>

lemma pass_end:
  assumes c: "sort_at look b 56 (Suc m) (Suc m) (sw, ys) (r, s)" and m: "Suc m < n"
  shows "\<exists>r'. rv_run hw (bubble_code b l) (if sw then 3 else 1) (r, s) = Some (r', s) \<and>
    rv_pc r' = (if sw \<and> 0 < m then 16 else 68) \<and> rv_regs r' 1 = b \<and>
    (sw \<longrightarrow> rv_regs r' 2 = b + 4 * of_nat m)"
proof -
  have pc: "rv_pc r = 56" "rv_regs r 1 = b" "rv_regs r 2 = b + 4 * of_nat (Suc m)"
      "rv_regs r 5 = (if sw then 1 else 0)"
    using c by (simp_all add: sort_at_def)
  have ne: "b + 4 * of_nat m = b \<longleftrightarrow> m = 0"
    using cell_inject(1) [of m 0 b] m small by simp
  show ?thesis
  proof (cases sw)
    case True
    have "rv_regs r 2 - 4 = b + 4 * of_nat m" using pc by (simp add: algebra_simps)
    then show ?thesis using pc ne True
      by (simp add: rv_run_numeral bubble_at get_reg_def set_reg_def alu_val_def cmp_val_def)
  next
    case False
    then show ?thesis using pc by (simp add: bubble_at get_reg_def cmp_val_def)
  qed
qed

lemma outer:
  assumes "rv_pc r = 16" "rv_regs r 1 = b" "rv_regs r 2 = b + 4 * of_nat (Suc m)"
    "array_at look b xs s" "rest_as A look b n s0 s" "length xs = n" "Suc m < n"
  shows "rv_reaches hw (bubble_code b l) (Suc m * (8 * Suc m + 5)) (r, s)
    (\<lambda>c. rv_pc (fst c) = 68 \<and> array_at look b (bubble_steps (Suc m) xs) (snd c) \<and> rest_as A look b n s0 (snd c))"
  using assms
proof (induction m arbitrary: r xs s rule: less_induct)
  case (less m)
  let ?Q = "\<lambda>c. rv_pc (fst c) = 68 \<and> array_at look b (bubble_steps (Suc m) xs) (snd c) \<and>
    rest_as A look b n s0 (snd c)"
  obtain sw ys where pass: "bubble_pass (Suc m) xs = (sw, ys)" by (cases "bubble_pass (Suc m) xs")
  have len: "length ys = n"
    using compare_length [of "Suc m" "(False, xs)"] pass less.prems(6) by (simp add: bubble_pass_def)
  have first: "rv_reaches hw (bubble_code b l) (8 * Suc m + 2) (r, s)
    (\<lambda>c. sort_at look b 56 (Suc m) (Suc m) (bubble_pass (Suc m) xs) c \<and> rest_as A look b n s0 (snd c))"
    using less.prems by (intro pass_run) simp_all
  have rest: "rv_reaches hw (bubble_code b l) (3 + m * (8 * m + 5)) c' ?Q"
    if c': "sort_at look b 56 (Suc m) (Suc m) (bubble_pass (Suc m) xs) c' \<and> rest_as A look b n s0 (snd c')"
    for c'
  proof -
    obtain r' s' where eq: "c' = (r', s')" by (cases c')
    have arr: "array_at look b ys s'" "rest_as A look b n s0 s'" using c' eq pass by (simp_all add: sort_at_def)
    obtain r'' where run: "rv_run hw (bubble_code b l) (if sw then 3 else 1) (r', s') = Some (r'', s')"
        "rv_pc r'' = (if sw \<and> 0 < m then 16 else 68)" "rv_regs r'' 1 = b"
        "sw \<longrightarrow> rv_regs r'' 2 = b + 4 * of_nat m"
      using pass_end [of m sw ys r' s' l] c' eq pass less.prems(7) by auto
    have "rv_reaches hw (bubble_code b l) (m * (8 * m + 5)) (r'', s') ?Q"
    proof (cases "sw \<and> 0 < m")
      case True
      then obtain k where "m = Suc k" using gr0_implies_Suc by blast
      then show ?thesis
        using less.IH [of k r'' ys s'] run arr True less.prems len pass by simp
    next
      case False
      then show ?thesis using run arr pass by (intro rv_reaches_here) auto
    qed
    moreover have "rv_reaches hw (bubble_code b l) 3 c' (\<lambda>c. c = (r'', s'))"
      using run(1) eq by (intro rv_reachesI [where k = "if sw then 3 else 1"]) simp_all
    ultimately show ?thesis by (intro rv_reaches_trans [where P = "\<lambda>c. c = (r'', s')"]) simp_all
  qed
  have "8 * Suc m + 2 + (3 + m * (8 * m + 5)) \<le> Suc m * (8 * Suc m + 5)"
    by (simp add: algebra_simps)
  with rv_reaches_trans [OF first rest] show ?case by (rule rv_reaches_mono) simp
qed


lemma prologue:
  assumes "\<not> bit b 11" "l = of_nat n" "2 \<le> n" "n \<le> 512"
  shows "\<exists>r'. rv_run hw (bubble_code b l) 4 (rv_reset, s) = Some (r', s) \<and>
    rv_pc r' = 16 \<and> rv_regs r' 1 = b \<and> rv_regs r' 2 = b + 4 * of_nat (n - 1)"
proof -
  have four: "(l - 1) * 4 = of_nat (4 * (n - 1))" using assms by (simp add: of_nat_diff algebra_simps)
  have "take_bit 12 ((l - 1) * 4) = (l - 1) * 4"
    unfolding four using assms by (simp only: take_bit_of_nat) (simp add: take_bit_nat_eq_self)
  moreover have "\<not> bit (4 * (n - 1)) 11" using assms(4) by (simp only: bit_iff_odd) simp
  then have "\<not> bit ((l - 1) * 4) 11" unfolding four by (simp only: bit_of_nat_iff) simp
  ultimately have "sign_extend 12 (take_bit 12 ((l - 1) * 4)) = of_nat (4 * (n - 1))"
    using sign_extend_12 [of "(l - 1) * 4"] by (simp only: if_False diff_0_right four)
  then have imm: "sign_extend 12 (take_bit 12 ((l - 1) * 4)) = 4 * of_nat (n - 1)"
    by (simp only: of_nat_mult of_nat_numeral)
  have base: "push_bit 12 (drop_bit 12 b) + sign_extend 12 (take_bit 12 b) = b"
    using assms(1) by (simp add: lui_addi_value)
  show ?thesis
    by (simp add: rv_run_numeral bubble_at get_reg_def set_reg_def alu_val_def rv_reset_def base imm [simplified])
qed

theorem program_sorts:
  assumes "\<not> bit b 11" "l = of_nat n" "2 \<le> n" "n \<le> 512" "length xs = n" "array_at look b xs s"
  shows "rv_reaches hw (bubble_code b l) (4 + n * (8 * n + 5)) (rv_reset, s)
    (\<lambda>c. rv_pc (fst c) = 68 \<and> array_at look b (sort xs) (snd c) \<and> rest_as A look b n s (snd c))"
proof -
  obtain r where r: "rv_run hw (bubble_code b l) 4 (rv_reset, s) = Some (r, s)" "rv_pc r = 16"
      "rv_regs r 1 = b" "rv_regs r 2 = b + 4 * of_nat (n - 1)"
    using prologue [OF assms(1-4), of s] by auto
  obtain m where m: "n - 1 = Suc m" using assms(3) by (intro that [of "n - 2"]) simp
  have sorts: "bubble_steps (Suc m) xs = sort xs"
    using bubble_sort_is_sort [of xs] assms(3,5) m
    by (cases "xs = []") (simp_all add: bubble_sort_def del: bubble_steps.simps)
  have x2: "rv_regs r 2 = b + 4 * of_nat (Suc m)" using r(4) by (simp only: m)
  have "rv_reaches hw (bubble_code b l) (Suc m * (8 * Suc m + 5)) (r, s)
      (\<lambda>c. rv_pc (fst c) = 68 \<and> array_at look b (sort xs) (snd c) \<and> rest_as A look b n s (snd c))"
    by (rule outer [of r m xs s s l, unfolded sorts])
      (use r(1-3) x2 m assms in \<open>simp_all add: rest_as_def del: of_nat_Suc\<close>)
  moreover have "rv_reaches hw (bubble_code b l) 4 (rv_reset, s) (\<lambda>c. c = (r, s))"
    using r(1) by (rule rv_reachesI) simp_all
  ultimately have "rv_reaches hw (bubble_code b l) (4 + Suc m * (8 * Suc m + 5)) (rv_reset, s)
      (\<lambda>c. rv_pc (fst c) = 68 \<and> array_at look b (sort xs) (snd c) \<and> rest_as A look b n s (snd c))"
    by (intro rv_reaches_trans [where P = "\<lambda>c. c = (r, s)"]) simp_all
  moreover have "Suc m \<le> n" using m by simp
  then have "4 + Suc m * (8 * Suc m + 5) \<le> 4 + n * (8 * n + 5)"
    by (intro add_left_mono mult_le_mono add_le_mono) simp_all
  ultimately show ?thesis by (rule rv_reaches_mono)
qed

end

end
