(* ===== verification/Pmu_Test_System.thy ===== *)
theory Pmu_Test_System
  imports Bubble_Sort
begin

text \<open>
  The bring-up tests against a core that runs: CVA6 and the APMU core share one memory of words, the
  word at the status address stops the core or releases it from reset, and the core executes
  \<open>n\<close> instructions before each access of CVA6. The facts on the C side of the tests are
  proved for any memory, in the locale \<open>word_store\<close>, and used here through its interpretations.
\<close>

subsection \<open>Block accesses to a memory\<close>

definition reg_at :: "u64 \<Rightarrow> u32 \<Rightarrow> nat \<Rightarrow> u64" where
  "reg_at a step i = a + of_nat i * ucast step"

lemma reg_at_0 [simp]: "reg_at a step 0 = a"
  by (simp add: reg_at_def)

lemma reg_at_Suc: "reg_at (a + ucast step) step i = reg_at a step (Suc i)"
  by (simp add: reg_at_def algebra_simps)

lemma reg_at_inj: "n \<le> 2 ^ 32 \<Longrightarrow> inj_on (reg_at a 4) {..<n}"
proof (rule inj_onI)
  fix i j assume "n \<le> 2 ^ 32" "i \<in> {..<n}" "j \<in> {..<n}" and eq: "reg_at a 4 i = reg_at a 4 j"
  then have small: "4 * i < 2 ^ 64" "4 * j < 2 ^ 64" by simp_all
  have "(of_nat (4 * i) :: u64) = of_nat (4 * j)" using eq by (simp add: reg_at_def mult.commute)
  then show "i = j" using small by (simp only: word_of_nat_eq_iff) (simp add: take_bit_nat_eq_self)
qed

lemma write_32b_regs_loop:
  "write_32b_regs hw a vs step s = for_upto (length vs) (\<lambda>i. wr32 hw (reg_at a step i) (vs ! i)) s"
proof (induction vs arbitrary: a s)
  case (Cons v vs)
  then show ?case by (simp add: for_upto_shift write_32b_def reg_at_Suc)
qed simp

context word_store
begin

lemma read_32b_regs_look:
  assumes "\<And>i. i < n \<Longrightarrow> reg_at a step i \<in> A"
  shows "read_32b_regs hw a n step s = (map (\<lambda>i. look s (reg_at a step i)) [0..<n], s)"
  using assms
proof (induction n arbitrary: a)
  case (Suc n)
  have "reg_at (a + ucast step) step i \<in> A" if "i < n" for i
    using Suc.prems [of "Suc i"] that by (simp add: reg_at_Suc)
  moreover have "a \<in> A" using Suc.prems [of 0] by simp
  ultimately show ?case using Suc.IH [of "a + ucast step"]
    by (simp add: read_32b_def load reg_at_Suc upt_conv_Cons map_Suc_upt [symmetric] del: upt_Suc)
qed simp

text \<open>Writing a block and reading it back: no difference, and the block holds the values.\<close>

lemma test_spm_ok:
  assumes "\<And>i. i < length vs \<Longrightarrow> reg_at a 4 i \<in> A" "length vs \<le> 2 ^ 32"
  shows "\<exists>s'. test_spm hw a vs s = (0, s') \<and> (\<forall>i < length vs. look s' (reg_at a 4 i) = vs ! i) \<and>
    (\<forall>b \<in> A - reg_at a 4 ` {..<length vs}. look s' b = look s b)"
proof -
  let ?s = "write_32b_regs hw a vs 4 s"
  have inj: "inj_on (reg_at a 4) {..<length vs}" using assms(2) by (rule reg_at_inj)
  have at: "look ?s (reg_at a 4 i) = vs ! i" if "i < length vs" for i
    unfolding write_32b_regs_loop using assms(1) inj that by (rule look_block_at)
  have other: "look ?s b = look s b" if "b \<in> A - reg_at a 4 ` {..<length vs}" for b
    unfolding write_32b_regs_loop using look_block [OF assms(1) inj] that by simp
  have "read_32b_regs hw a (length vs) 4 ?s = (vs, ?s)"
    using assms(1) at by (simp add: read_32b_regs_look) (rule nth_equalityI, simp_all)
  then have "test_spm hw a vs s = (0, ?s)"
    by (simp add: test_spm_def count_diff_def zip_same_conv_map)
  then show ?thesis using at other by blast
qed

end


lemma read_32b_regs_steady:
  assumes keep: "\<And>s a. I s \<Longrightarrow> \<exists>s'. rd32 hw a s = (f a, s') \<and> I s'" and "I s"
  shows "\<exists>s'. read_32b_regs hw a n step s = (map (\<lambda>i. f (reg_at a step i)) [0..<n], s') \<and> I s'"
  using assms(2)
proof (induction n arbitrary: a s)
  case (Suc n)
  obtain s' where s': "rd32 hw a s = (f a, s')" "I s'" using keep Suc.prems by blast
  obtain s'' where "read_32b_regs hw (a + ucast step) n step s' =
      (map (\<lambda>i. f (reg_at (a + ucast step) step i)) [0..<n], s'')" "I s''"
    using Suc.IH s'(2) by blast
  then show ?case using s'
    by (simp add: read_32b_def reg_at_Suc upt_conv_Cons map_Suc_upt [symmetric] del: upt_Suc)
qed simp

subsection \<open>CVA6 and the core on one memory\<close>

type_synonym words = "u64 \<Rightarrow> u32"

definition counter_word :: "u32 \<Rightarrow> u64" where
  "counter_word i = u32_to_addr (COUNTER_BASE_ADDR + i * COUNTER_BUNDLE_SIZE)"

definition core_hw :: "words hw" where
  "core_hw = \<lparr>rd32 = (\<lambda>a m. (m a, m)), wr32 = (\<lambda>a v m. m(a := v)),
     rd64 = (\<lambda>a m. (ucast (m a), m)), wr64 = (\<lambda>a v m. m(a := ucast v, a + 4 := ucast (drop_bit 32 v))),
     wr8 = (\<lambda>a v m. m), csr_rd = (\<lambda>r m. (0, m)), csr_wr = (\<lambda>r v m. m),
     cnt_rd = (\<lambda>i m. (m (counter_word i), m)), cnt_wr = (\<lambda>i v m. m(counter_word i := v)),
     fence = (\<lambda>m. m)\<rparr>"

lemma core_hw_simps [simp]:
  "rd32 core_hw a m = (m a, m)" "wr32 core_hw a v m = m(a := v)"
  "cnt_rd core_hw i m = (m (counter_word i), m)" "cnt_wr core_hw i v m = m(counter_word i := v)"
  by (simp_all add: core_hw_def)

interpretation spm: word_store core_hw UNIV "\<lambda>m a. m a"
  by unfold_locales simp_all

interpretation sorter: sort_memory core_hw UNIV "\<lambda>m a. m a" b "min k 512" for b :: u32 and k :: nat
  by unfold_locales simp_all

text \<open>A released core has a copy of the instruction memory; a stopped one has no state.\<close>

record bring_sys =
  sys_mem :: words
  sys_core :: "(instr option list \<times> rv) option"

definition core_step :: "bring_sys \<Rightarrow> bring_sys" where
  "core_step s = (case sys_core s of None \<Rightarrow> s | Some (code, r) \<Rightarrow>
     (case rv_step core_hw code (r, sys_mem s) of None \<Rightarrow> s
      | Some (r', m') \<Rightarrow> s\<lparr>sys_mem := m', sys_core := Some (code, r')\<rparr>))"

definition core_steps :: "nat \<Rightarrow> bring_sys \<Rightarrow> bring_sys" where
  "core_steps n = core_step ^^ n"

definition ispm_code :: "words \<Rightarrow> instr option list" where
  "ispm_code m = load_code (map (\<lambda>i. m (reg_at (u32_to_addr ISPM_BASE_ADDR) 4 i)) [0..<1024])"

definition cva_write :: "u64 \<Rightarrow> u32 \<Rightarrow> bring_sys \<Rightarrow> bring_sys" where
  "cva_write a v s =
     (if a = u32_to_addr PMC_STATUS_ADDR
      then s\<lparr>sys_core := (if v = 0 then Some (ispm_code (sys_mem s), rv_reset) else None)\<rparr>
      else s\<lparr>sys_mem := (sys_mem s)(a := v)\<rparr>)"

definition bring_hw :: "nat \<Rightarrow> bring_sys hw" where
  "bring_hw n = \<lparr>rd32 = (\<lambda>a s. let s = core_steps n s in (sys_mem s a, s)),
     wr32 = (\<lambda>a v s. cva_write a v (core_steps n s)),
     rd64 = (\<lambda>a s. (ucast (sys_mem s a), s)), wr64 = (\<lambda>a v s. s), wr8 = (\<lambda>a v s. s),
     csr_rd = (\<lambda>r s. (0, s)), csr_wr = (\<lambda>r v s. s), cnt_rd = (\<lambda>i s. (0, s)),
     cnt_wr = (\<lambda>i v s. s), fence = (\<lambda>s. s)\<rparr>"

lemma bring_hw_simps [simp]:
  "rd32 (bring_hw n) a s = (sys_mem (core_steps n s) a, core_steps n s)"
  "wr32 (bring_hw n) a v s = cva_write a v (core_steps n s)"
  by (simp_all add: bring_hw_def Let_def)

lemma core_steps_halted [simp]: "sys_core s = None \<Longrightarrow> core_steps n s = s"
  by (induction n) (simp_all add: core_steps_def core_step_def)

lemma core_steps_run:
  "rv_run core_hw code n (r, m) = Some (r', m') \<Longrightarrow>
   core_steps n \<lparr>sys_mem = m, sys_core = Some (code, r)\<rparr> = \<lparr>sys_mem = m', sys_core = Some (code, r')\<rparr>"
proof (induction n arbitrary: r m)
  case (Suc n)
  then obtain r1 m1 where "rv_step core_hw code (r, m) = Some (r1, m1)"
    by (cases "rv_step core_hw code (r, m)") auto
  with Suc show ?case by (simp add: core_steps_def core_step_def funpow_swap1)
qed (simp add: core_steps_def)

text \<open>While the core is stopped, CVA6 has the memory for itself.\<close>

lemma halted_writes:
  "sys_core s = None \<Longrightarrow> (\<And>i. i < length vs \<Longrightarrow> reg_at a step i \<noteq> u32_to_addr PMC_STATUS_ADDR) \<Longrightarrow>
   write_32b_regs (bring_hw n) a vs step s = s\<lparr>sys_mem := write_32b_regs core_hw a vs step (sys_mem s)\<rparr>"
proof (induction vs arbitrary: a s)
  case (Cons v vs)
  have "reg_at (a + ucast step) step i \<noteq> u32_to_addr PMC_STATUS_ADDR" if "i < length vs" for i
    using Cons.prems(2) [of "Suc i"] that by (simp add: reg_at_Suc)
  moreover have "a \<noteq> u32_to_addr PMC_STATUS_ADDR" using Cons.prems(2) [of 0] by simp
  ultimately show ?case 
    using Cons.IH [where s = "s\<lparr>sys_mem := (sys_mem s)(a := v)\<rparr>" and a = "a + ucast step"] Cons.prems(1)
    by (simp add: write_32b_def cva_write_def fun_upd_def)
qed simp

lemma halted_reads:
  assumes "sys_core s = None"
  shows "read_32b_regs (bring_hw n) a k step s = (map (\<lambda>i. sys_mem s (reg_at a step i)) [0..<k], s)"
  using read_32b_regs_steady [of "\<lambda>t. t = s" "bring_hw n" "sys_mem s" s a k step] assms by simp

lemma halted_test_spm:
  assumes "sys_core s = None" "length vs \<le> 2 ^ 32"
    and "\<And>i. i < length vs \<Longrightarrow> reg_at a 4 i \<noteq> u32_to_addr PMC_STATUS_ADDR"
  shows "\<exists>m. test_spm (bring_hw n) a vs s = (0, s\<lparr>sys_mem := m\<rparr>) \<and>
    (\<forall>i < length vs. m (reg_at a 4 i) = vs ! i) \<and>
    (\<forall>b. b \<notin> reg_at a 4 ` {..<length vs} \<longrightarrow> m b = sys_mem s b)"
proof -
  obtain m where m: "test_spm core_hw a vs (sys_mem s) = (0, m)" "\<forall>i < length vs. m (reg_at a 4 i) = vs ! i"
      "\<forall>b. b \<notin> reg_at a 4 ` {..<length vs} \<longrightarrow> m b = sys_mem s b"
    using spm.test_spm_ok [of vs a "sys_mem s"] assms(2) by auto
  have "test_spm (bring_hw n) a vs s = (fst (test_spm core_hw a vs (sys_mem s)),
      s\<lparr>sys_mem := snd (test_spm core_hw a vs (sys_mem s))\<rparr>)"
    using assms by (simp add: test_spm_def halted_writes halted_reads spm.read_32b_regs_look Let_def)
  then show ?thesis using m by auto
qed


subsection \<open>Programs that end in a loop\<close>

text \<open>The two instructions at \<open>p\<close> jump to each other and store nothing.\<close>

definition idle_loop :: "instr option list \<Rightarrow> u32 \<Rightarrow> bool" where
  "idle_loop code p \<longleftrightarrow> (\<forall>r (m :: words). rv_pc r = p \<or> rv_pc r = p + 4 \<longrightarrow>
     (\<exists>r'. rv_step core_hw code (r, m) = Some (r', m) \<and> (rv_pc r' = p \<or> rv_pc r' = p + 4)))"

lemma idle_loopI:
  assumes "\<And>r (m :: words). rv_pc r = p \<Longrightarrow> \<exists>r'. rv_step core_hw code (r, m) = Some (r', m) \<and> rv_pc r' = p + 4"
    and "\<And>r (m :: words). rv_pc r = p + 4 \<Longrightarrow> \<exists>r'. rv_step core_hw code (r, m) = Some (r', m) \<and> rv_pc r' = p"
  shows "idle_loop code p"
  unfolding idle_loop_def using assms by blast

lemma idle_loop_run:
  "idle_loop code p \<Longrightarrow> rv_pc r = p \<or> rv_pc r = p + 4 \<Longrightarrow>
   \<exists>r'. rv_run core_hw code j (r, m) = Some (r', m) \<and> (rv_pc r' = p \<or> rv_pc r' = p + 4)"
proof (induction j arbitrary: r)
  case (Suc j)
  then obtain r' where r': "rv_step core_hw code (r, m) = Some (r', m)" "rv_pc r' = p \<or> rv_pc r' = p + 4"
    unfolding idle_loop_def by blast
  then show ?case using Suc.IH [OF Suc.prems(1) r'(2)] by simp
qed simp

text \<open>Once the core idles, the words CVA6 reads no longer change.\<close>

definition parked :: "instr option list \<Rightarrow> u32 \<Rightarrow> words \<Rightarrow> bring_sys \<Rightarrow> bool" where
  "parked code p m s \<longleftrightarrow> (\<exists>r rest. s = \<lparr>sys_mem = m, sys_core = Some (code @ rest, r)\<rparr> \<and>
     (rv_pc r = p \<or> rv_pc r = p + 4))"

lemma parked_steps: "idle_loop code p \<Longrightarrow> parked code p m s \<Longrightarrow> parked code p m (core_steps n s)"
proof -
  assume loop: "idle_loop code p" and "parked code p m s"
  then obtain r rest where s: "s = \<lparr>sys_mem = m, sys_core = Some (code @ rest, r)\<rparr>"
      "rv_pc r = p \<or> rv_pc r = p + 4"
    by (auto simp: parked_def)
  obtain r' where r': "rv_run core_hw code n (r, m) = Some (r', m)" "rv_pc r' = p \<or> rv_pc r' = p + 4"
    using idle_loop_run [OF loop s(2)] by blast
  show ?thesis
    using core_steps_run [OF rv_run_append [OF r'(1)]] r'(2) s(1) by (auto simp: parked_def)
qed

lemma parked_mem: "parked code p m s \<Longrightarrow> sys_mem s = m"
  by (auto simp: parked_def)

text \<open>A released core that is given the time its program takes is parked afterwards.\<close>

lemma released_parks:
  assumes "idle_loop code p" "rv_reaches core_hw code k (rv_reset, m) (\<lambda>c. rv_pc (fst c) = p \<and> P (snd c))"
    and "k \<le> n"
  shows "\<exists>m'. parked code p m' (core_steps n \<lparr>sys_mem = m, sys_core = Some (code @ rest, rv_reset)\<rparr>) \<and> P m'"
proof -
  obtain j c where c: "j \<le> k" "rv_run core_hw code j (rv_reset, m) = Some c" "rv_pc (fst c) = p" "P (snd c)"
    using assms(2) unfolding rv_reaches_def by blast
  obtain r m' where "c = (r, m')" by (cases c)
  with c assms(3) have j: "j \<le> n" "rv_run core_hw code j (rv_reset, m) = Some (r, m')" "rv_pc r = p" "P m'"
    by simp_all
  obtain r' where r': "rv_run core_hw code (n - j) (r, m') = Some (r', m')" "rv_pc r' = p \<or> rv_pc r' = p + 4"
    using idle_loop_run [OF assms(1)] j(3) by blast
  have "rv_run core_hw code n (rv_reset, m) = Some (r', m')"
    using rv_run_add [of core_hw code j "n - j" "(rv_reset, m)"] j(1,2) r'(1) by simp
  then have "core_steps n \<lparr>sys_mem = m, sys_core = Some (code @ rest, rv_reset)\<rparr> =
      \<lparr>sys_mem = m', sys_core = Some (code @ rest, r')\<rparr>"
    by (intro core_steps_run rv_run_append)
  then show ?thesis using r'(2) j(4) by (auto simp: parked_def)
qed

lemma uint_reg_at:
  assumes "uint b + 4 * int i < 2 ^ 32"
  shows "uint (reg_at (u32_to_addr b) 4 i) = uint b + 4 * int i"
proof -
  have nn: "0 \<le> uint b" by simp
  have "reg_at (u32_to_addr b) 4 i = word_of_int (uint b + 4 * int i)"
    by (simp add: reg_at_def mult.commute)
  moreover have "uint (word_of_int (uint b + 4 * int i) :: u64) = uint b + 4 * int i"
    using assms nn by (simp add: unsigned_of_int take_bit_int_eq_self del: of_int_add of_int_mult)
  ultimately show ?thesis by simp
qed

lemma cell_reg_at:
  assumes "uint b + 4 * int i < 2 ^ 32"
  shows "cell b i = reg_at (u32_to_addr b) 4 i"
proof -
  have nn: "0 \<le> uint b" by simp
  have "b + 4 * of_nat i = word_of_int (uint b + 4 * int i)" by simp
  then have "uint (b + 4 * of_nat i) = uint b + 4 * int i"
    using assms nn by (simp add: unsigned_of_int take_bit_int_eq_self del: of_int_add of_int_mult)
  then have "uint (cell b i) = uint (reg_at (u32_to_addr b) 4 i)"
    using uint_reg_at [OF assms] by (simp only: cell_def uint_u32_to_addr)
  then show ?thesis by (simp only: word_uint_eq_iff)
qed


text \<open>The program and the array are apart from each other and from the status word.\<close>

abbreviation "ispm_word \<equiv> reg_at (u32_to_addr ISPM_BASE_ADDR) 4"
abbreviation "dspm_word \<equiv> reg_at (u32_to_addr DSPM_BASE_ADDR) 4"

lemma uint_ispm_word: "i < 1024 \<Longrightarrow> uint (ispm_word i) = 0x10427000 + 4 * int i"
  using uint_reg_at [of ISPM_BASE_ADDR i] by (simp add: ISPM_BASE_ADDR_def)

lemma uint_dspm_word: "j < 32768 \<Longrightarrow> uint (dspm_word j) = 0x10428000 + 4 * int j"
  using uint_reg_at [of DSPM_BASE_ADDR j] by (simp add: DSPM_BASE_ADDR_def)

lemma uint_status: "uint (u32_to_addr PMC_STATUS_ADDR) = 0x10406000"
  by (simp add: uint_u32_to_addr PMC_STATUS_ADDR_def PMU_B_BASE_ADDR_def)

lemma ispm_not_status: "i < 1024 \<Longrightarrow> ispm_word i \<noteq> u32_to_addr PMC_STATUS_ADDR"
  using uint_ispm_word [of i] uint_status by (intro notI) simp

lemma dspm_not_status: "j < 32768 \<Longrightarrow> dspm_word j \<noteq> u32_to_addr PMC_STATUS_ADDR"
  using uint_dspm_word [of j] uint_status by (intro notI) simp

lemma ispm_not_dspm: "i < 1024 \<Longrightarrow> j < 32768 \<Longrightarrow> ispm_word i \<noteq> dspm_word j"
  using uint_ispm_word [of i] uint_dspm_word [of j] by (intro notI) simp

lemma cell_dspm: "j < 32768 \<Longrightarrow> cell DSPM_BASE_ADDR j = dspm_word j"
  by (intro cell_reg_at) (simp add: DSPM_BASE_ADDR_def)

lemma load_program:
  assumes "sys_core s = None" "length prog \<le> 1024"
  shows "\<exists>m. test_spm (bring_hw n) (u32_to_addr ISPM_BASE_ADDR) prog s = (0, s\<lparr>sys_mem := m\<rparr>) \<and>
    (\<forall>i < length prog. m (ispm_word i) = prog ! i) \<and>
    (\<forall>b. b \<notin> ispm_word ` {..<length prog} \<longrightarrow> m b = sys_mem s b)"
  using assms by (intro halted_test_spm) (simp_all add: ispm_not_status)

lemma load_data:
  assumes "sys_core s = None" "length vals \<le> 32768"
  shows "\<exists>m. test_spm (bring_hw n) (u32_to_addr DSPM_BASE_ADDR) vals s = (0, s\<lparr>sys_mem := m\<rparr>) \<and>
    (\<forall>i < length vals. m (dspm_word i) = vals ! i) \<and>
    (\<forall>b. b \<notin> dspm_word ` {..<length vals} \<longrightarrow> m b = sys_mem s b)"
  using assms by (intro halted_test_spm) (simp_all add: dspm_not_status)

lemma cva_status [simp]:
  "cva_write (u32_to_addr PMC_STATUS_ADDR) v s =
     s\<lparr>sys_core := (if v = 0 then Some (ispm_code (sys_mem s), rv_reset) else None)\<rparr>"
  by (simp add: cva_write_def)

lemma ispm_code_prefix:
  assumes "\<forall>i < length prog. m (reg_at (u32_to_addr ISPM_BASE_ADDR) 4 i) = prog ! i" "length prog \<le> 1024"
  shows "\<exists>rest. ispm_code m = load_code prog @ rest"
proof -
  let ?f = "\<lambda>i. m (reg_at (u32_to_addr ISPM_BASE_ADDR) 4 i)"
  have "[0..<1024] = [0..<length prog] @ [length prog..<1024]"
    using upt_add_eq_append [of 0 "length prog" "1024 - length prog"] assms(2) by simp
  moreover have "map ?f [0..<length prog] = prog" using assms(1) by (intro nth_equalityI) simp_all
  ultimately have "ispm_code m = load_code prog @ load_code (map ?f [length prog..<1024])"
    by (simp add: ispm_code_def load_code_def)
  then show ?thesis by blast
qed

text \<open>What stopping the core, writing a program and releasing it gives, from any state.\<close>

lemma load_and_start_ok:
  assumes "length prog \<le> 1024"
  shows "\<exists>m rest. load_and_start (bring_hw n) ISPM_BASE_ADDR PMC_STATUS_ADDR prog s =
      (0, \<lparr>sys_mem = m, sys_core = Some (load_code prog @ rest, rv_reset)\<rparr>) \<and>
    (\<forall>b. b \<notin> ispm_word ` {..<length prog} \<longrightarrow> m b = sys_mem (core_steps n s) b)"
proof -
  define s1 where "s1 = (core_steps n s)\<lparr>sys_core := None\<rparr>"
  have s1: "sys_core s1 = None" "sys_mem s1 = sys_mem (core_steps n s)" by (simp_all add: s1_def)
  have stop: "write_32b (bring_hw n) (u32_to_addr PMC_STATUS_ADDR) 1 s = s1"
    by (simp add: write_32b_def s1_def)
  obtain m where m: "test_spm (bring_hw n) (u32_to_addr ISPM_BASE_ADDR) prog s1 = (0, s1\<lparr>sys_mem := m\<rparr>)"
      "\<forall>i < length prog. m (ispm_word i) = prog ! i"
      "\<forall>b. b \<notin> ispm_word ` {..<length prog} \<longrightarrow> m b = sys_mem s1 b"
    using load_program [OF s1(1) assms] by blast
  obtain rest where "ispm_code m = load_code prog @ rest" using ispm_code_prefix [OF m(2) assms] by blast
  then have "load_and_start (bring_hw n) ISPM_BASE_ADDR PMC_STATUS_ADDR prog s =
      (0, \<lparr>sys_mem = m, sys_core = Some (load_code prog @ rest, rv_reset)\<rparr>)"
    using m(1) s1(1) by (simp add: load_and_start_def stop) (simp add: write_32b_def)
  then show ?thesis using m(3) s1(2) by auto
qed

text \<open>Reads of a parked system.\<close>

lemma parked_reads:
  assumes loop: "idle_loop code p" and "parked code p m (core_steps n s)"
  shows "\<exists>s'. read_32b_regs (bring_hw n) a k step s = (map (\<lambda>i. m (reg_at a step i)) [0..<k], s') \<and>
    parked code p m (core_steps n s')"
  using assms(2)
  by (intro read_32b_regs_steady [of "\<lambda>s. parked code p m (core_steps n s)"])
    (auto simp: parked_mem parked_steps [OF loop])

subsection \<open>The bubble sort test\<close>

lemma bubble_idle: "idle_loop (bubble_code b l) 68"
  by (rule idle_loopI) (simp_all add: bubble_at exec_simps)

text \<open>The array is sorted before the first read of the polling loop.\<close>

lemma poll_sorted_parked:
  assumes loop: "idle_loop code p" and "parked code p m (core_steps n s)" "\<forall>i < length g. m (reg_at a 4 i) = g ! i"
  shows "\<exists>s'. poll_sorted (bring_hw n) a g (- 1) 0 s = Some (0, s') \<and> parked code p m (core_steps n s')"
proof -
  obtain s' where s': "read_32b_regs (bring_hw n) a (length g) 4 s = (map (\<lambda>i. m (reg_at a 4 i)) [0..<length g], s')"
      "parked code p m (core_steps n s')"
    using parked_reads [OF assms(1,2)] by blast
  moreover have "map (\<lambda>i. m (reg_at a 4 i)) [0..<length g] = g"
    using assms(3) by (intro nth_equalityI) simp_all
  ultimately have "poll_sorted (bring_hw n) a g (- 1) 0 s = poll_sorted (bring_hw n) a g 0 0 s'"
    by (subst poll_sorted.simps) (simp add: count_diff_def zip_same_conv_map)
  then show ?thesis using s'(2) by (simp add: poll_sorted.simps [of _ _ _ 0 0])
qed

lemma bubble_sort_test_ok:
  assumes len: "unat len = k" "2 \<le> k" "k \<le> 512" "4 + k * (8 * k + 5) \<le> n"
  shows "\<exists>s'. test_pmu_core_bubble_sort (bring_hw n) ISPM_BASE_ADDR DSPM_BASE_ADDR PMC_STATUS_ADDR len s = Some (0, s') \<and>
    (\<forall>i < k. sys_mem (core_steps n s') (dspm_word i) = sort (rand_vals (u32_to_addr DSPM_BASE_ADDR) len) ! i)"
proof -
  let ?I = "u32_to_addr ISPM_BASE_ADDR" and ?D = "u32_to_addr DSPM_BASE_ADDR" and ?S = "u32_to_addr PMC_STATUS_ADDR"
  let ?prog = "bubble_program DSPM_BASE_ADDR len" and ?vals = "rand_vals ?D len" and ?hw = "bring_hw n"
  have lens: "length ?prog = 19" "length ?vals = k"
    using len(1) by (simp_all add: bubble_program_def bubble_words_def rand_vals_def)
  define s1 where "s1 = write_32b ?hw ?S 1 s"
  have h1: "sys_core s1 = None" by (simp add: s1_def write_32b_def)
  obtain m2 where m2: "test_spm ?hw ?I ?prog s1 = (0, s1\<lparr>sys_mem := m2\<rparr>)"
      "\<forall>i < length ?prog. m2 (ispm_word i) = ?prog ! i"
    using load_program [OF h1, of ?prog n] lens by auto
  define s2 where "s2 = s1\<lparr>sys_mem := m2\<rparr>"
  have h2: "sys_core s2 = None" using h1 by (simp add: s2_def)
  obtain m3 where m3: "test_spm ?hw ?D ?vals s2 = (0, s2\<lparr>sys_mem := m3\<rparr>)"
      "\<forall>i < k. m3 (dspm_word i) = ?vals ! i" "\<forall>b. b \<notin> dspm_word ` {..<k} \<longrightarrow> m3 b = m2 b"
    using load_data [OF h2, of ?vals n] lens len(3) by (auto simp: s2_def)
  have "m3 (ispm_word i) = ?prog ! i" if "i < length ?prog" for i
  proof -
    have "i < 1024" using that lens(1) by simp
    then have "ispm_word i \<notin> dspm_word ` {..<k}" using len(3) by (auto simp: image_iff ispm_not_dspm)
    then show ?thesis using m2(2) m3(3) that by simp
  qed
  then obtain rest where code: "ispm_code m3 = bubble_code DSPM_BASE_ADDR len @ rest"
    using ispm_code_prefix [of ?prog m3] lens(1) by (auto simp: bubble_code_def)
  define s3 where "s3 = s2\<lparr>sys_mem := m3\<rparr>"
  have h3: "sys_core s3 = None" using h2 by (simp add: s3_def)
  have "map (\<lambda>i. m3 (dspm_word i)) [0..<k] = ?vals"
    using m3(2) lens(2) by (intro nth_equalityI) simp_all
  then have read: "read_32b_regs ?hw ?D k 4 s3 = (?vals, s3)"
    using halted_reads [OF h3, of n ?D k 4] by (simp add: s3_def)
  define s4 where "s4 = write_32b ?hw ?S 0 s3"
  have s4: "s4 = \<lparr>sys_mem = m3, sys_core = Some (bubble_code DSPM_BASE_ADDR len @ rest, rv_reset)\<rparr>"
    using h3 code by (simp add: s4_def write_32b_def s3_def)
  have "rv_reaches core_hw (bubble_code DSPM_BASE_ADDR len) (4 + k * (8 * k + 5)) (rv_reset, m3)
      (\<lambda>c. rv_pc (fst c) = 68 \<and> array_at (\<lambda>m a. m a) DSPM_BASE_ADDR (sort ?vals) (snd c))"
  proof (rule rv_reaches_mono [OF sorter.program_sorts])
    show "len = of_nat (min k 512)" using len(1,3) by auto
    show "array_at (\<lambda>m a. m a) DSPM_BASE_ADDR ?vals m3"
      using m3(2) lens(2) len(3) by (simp add: array_at_def cell_dspm)
  qed (use len lens(2) in \<open>simp_all add: DSPM_BASE_ADDR_def min_absorb1\<close>)
  then obtain m' where m': "parked (bubble_code DSPM_BASE_ADDR len) 68 m' (core_steps n s4)"
      "array_at (\<lambda>m a. m a) DSPM_BASE_ADDR (sort ?vals) m'"
    using released_parks [OF bubble_idle _ len(4)] s4 by blast
  have sorted: "\<forall>i < length (sort ?vals). m' (dspm_word i) = sort ?vals ! i"
    using m'(2) lens(2) len(3) by (simp add: array_at_def cell_dspm)
  then obtain s5 where s5: "poll_sorted ?hw ?D (sort ?vals) (- 1) 0 s4 = Some (0, s5)"
      "parked (bubble_code DSPM_BASE_ADDR len) 68 m' (core_steps n s5)"
    using poll_sorted_parked [OF bubble_idle m'(1)] by blast
  have "bubble_sort ?vals = Some (sort ?vals)" using lens(2) len(2) by (intro bubble_sort_is_sort) auto
  then have "test_pmu_core_bubble_sort ?hw ISPM_BASE_ADDR DSPM_BASE_ADDR PMC_STATUS_ADDR len s = Some (0, s5)"
    using m2(1) m3(1) read s5(1) len(1)
    by (simp add: test_pmu_core_bubble_sort_def s1_def [symmetric] s2_def [symmetric] s3_def [symmetric]
        s4_def [symmetric] test_spm_rand_def Let_def)
  then show ?thesis using sorted lens(2) parked_mem [OF s5(2)] by auto
qed

end
