(* ===== verification/Pmu_Core_Programs.thy ===== *)
theory Pmu_Core_Programs
  imports Pmu_Test_System
begin

text \<open>
  The other machine programs of the bring-up tests: their instructions, what they do on the core, and
  what the C function that loads them returns.
\<close>

subsection \<open>Instructions\<close>

definition interrupt_code :: "u32 \<Rightarrow> u32 \<Rightarrow> instr option list" where
  "interrupt_code ca ta = load_code (interrupt_program ca ta)"

lemma interrupt_code:
  "interrupt_code ca ta =
    [Some (Op Add 0 0 0),
     Some (Lui 1 (push_bit 12 (drop_bit 12 ca))),
     Some (OpImm Add 1 1 (sign_extend 12 (take_bit 12 ca))),
     Some (Lui 7 (push_bit 12 (drop_bit 12 ta))),
     Some (OpImm Add 7 7 (sign_extend 12 (take_bit 12 ta))),
     Some (Lui 2 0x40000000),
     Some (Sw 2 1 0),
     Some (OpImm Add 8 0 101),
     Some (Sw 8 7 0),
     Some (Op Add 0 0 0),
     Some (Branch Beq 0 0 (- 4))]"
  unfolding interrupt_code_def load_code_def interrupt_program_def interrupt_words_def memory_map_defs
  by (simp add: decode_encodeLUI decode_encodeADDI and_masks) (simp add: decode_simps)

lemma interrupt_at:
  "rv_pc r = 0 \<Longrightarrow> rv_step hw (interrupt_code ca ta) (r, s) = Some (exec hw (Op Add 0 0 0) (r, s))"
  "rv_pc r = 4 \<Longrightarrow> rv_step hw (interrupt_code ca ta) (r, s) = Some (exec hw (Lui 1 (push_bit 12 (drop_bit 12 ca))) (r, s))"
  "rv_pc r = 8 \<Longrightarrow> rv_step hw (interrupt_code ca ta) (r, s) = Some (exec hw (OpImm Add 1 1 (sign_extend 12 (take_bit 12 ca))) (r, s))"
  "rv_pc r = 12 \<Longrightarrow> rv_step hw (interrupt_code ca ta) (r, s) = Some (exec hw (Lui 7 (push_bit 12 (drop_bit 12 ta))) (r, s))"
  "rv_pc r = 16 \<Longrightarrow> rv_step hw (interrupt_code ca ta) (r, s) = Some (exec hw (OpImm Add 7 7 (sign_extend 12 (take_bit 12 ta))) (r, s))"
  "rv_pc r = 20 \<Longrightarrow> rv_step hw (interrupt_code ca ta) (r, s) = Some (exec hw (Lui 2 0x40000000) (r, s))"
  "rv_pc r = 24 \<Longrightarrow> rv_step hw (interrupt_code ca ta) (r, s) = Some (exec hw (Sw 2 1 0) (r, s))"
  "rv_pc r = 28 \<Longrightarrow> rv_step hw (interrupt_code ca ta) (r, s) = Some (exec hw (OpImm Add 8 0 101) (r, s))"
  "rv_pc r = 32 \<Longrightarrow> rv_step hw (interrupt_code ca ta) (r, s) = Some (exec hw (Sw 8 7 0) (r, s))"
  "rv_pc r = 36 \<Longrightarrow> rv_step hw (interrupt_code ca ta) (r, s) = Some (exec hw (Op Add 0 0 0) (r, s))"
  "rv_pc r = 40 \<Longrightarrow> rv_step hw (interrupt_code ca ta) (r, s) = Some (exec hw (Branch Beq 0 0 (- 4)) (r, s))"
  by (simp_all add: rv_step_def fetch_def interrupt_code)

definition counter_code :: "u32 \<Rightarrow> u32 \<Rightarrow> u32 \<Rightarrow> instr option list" where
  "counter_code ca ta nc = load_code (counter_program ca ta nc)"

lemma counter_code:
  "counter_code ca ta nc =
    [Some (Op Add 0 0 0),
     Some (Lui 1 (push_bit 12 (drop_bit 12 ca))),
     Some (OpImm Add 1 1 (sign_extend 12 (take_bit 12 ca))),
     Some (Lui 7 (push_bit 12 (drop_bit 12 ta))),
     Some (OpImm Add 7 7 (sign_extend 12 (take_bit 12 ta))),
     Some (OpImm Add 2 0 (sign_extend 12 (take_bit 12 nc))),
     Some (Lui 3 0x1000),
     Some (OpImm Add 3 3 0),
     Some (Op Add 4 0 0),
     Some (Op Add 5 1 0),
     Some (OpImm Add 6 0 271),
     Some (Sw 6 5 0),
     Some (OpImm Add 6 6 271),
     Some (Sw 6 5 4),
     Some (OpImm Add 6 6 271),
     Some (Sw 6 5 8),
     Some (OpImm Add 6 6 271),
     Some (Sw 6 5 12),
     Some (OpImm Add 6 6 271),
     Some (OpImm Add 4 4 1),
     Some (Op Add 5 5 3),
     Some (Branch Bne 4 2 (- 40)),
     Some (OpImm Add 8 0 101),
     Some (Sw 8 7 0),
     Some (Op Add 0 0 0),
     Some (Branch Beq 0 0 (- 4))]"
  unfolding counter_code_def load_code_def counter_program_def counter_words_def memory_map_defs
  by (simp add: decode_encodeLUI decode_encodeADDI and_masks) (simp add: decode_simps)

lemma counter_at:
  "rv_pc r = 0 \<Longrightarrow> rv_step hw (counter_code ca ta nc) (r, s) = Some (exec hw (Op Add 0 0 0) (r, s))"
  "rv_pc r = 4 \<Longrightarrow> rv_step hw (counter_code ca ta nc) (r, s) = Some (exec hw (Lui 1 (push_bit 12 (drop_bit 12 ca))) (r, s))"
  "rv_pc r = 8 \<Longrightarrow> rv_step hw (counter_code ca ta nc) (r, s) = Some (exec hw (OpImm Add 1 1 (sign_extend 12 (take_bit 12 ca))) (r, s))"
  "rv_pc r = 12 \<Longrightarrow> rv_step hw (counter_code ca ta nc) (r, s) = Some (exec hw (Lui 7 (push_bit 12 (drop_bit 12 ta))) (r, s))"
  "rv_pc r = 16 \<Longrightarrow> rv_step hw (counter_code ca ta nc) (r, s) = Some (exec hw (OpImm Add 7 7 (sign_extend 12 (take_bit 12 ta))) (r, s))"
  "rv_pc r = 20 \<Longrightarrow> rv_step hw (counter_code ca ta nc) (r, s) = Some (exec hw (OpImm Add 2 0 (sign_extend 12 (take_bit 12 nc))) (r, s))"
  "rv_pc r = 24 \<Longrightarrow> rv_step hw (counter_code ca ta nc) (r, s) = Some (exec hw (Lui 3 0x1000) (r, s))"
  "rv_pc r = 28 \<Longrightarrow> rv_step hw (counter_code ca ta nc) (r, s) = Some (exec hw (OpImm Add 3 3 0) (r, s))"
  "rv_pc r = 32 \<Longrightarrow> rv_step hw (counter_code ca ta nc) (r, s) = Some (exec hw (Op Add 4 0 0) (r, s))"
  "rv_pc r = 36 \<Longrightarrow> rv_step hw (counter_code ca ta nc) (r, s) = Some (exec hw (Op Add 5 1 0) (r, s))"
  "rv_pc r = 40 \<Longrightarrow> rv_step hw (counter_code ca ta nc) (r, s) = Some (exec hw (OpImm Add 6 0 271) (r, s))"
  "rv_pc r = 44 \<Longrightarrow> rv_step hw (counter_code ca ta nc) (r, s) = Some (exec hw (Sw 6 5 0) (r, s))"
  "rv_pc r = 48 \<Longrightarrow> rv_step hw (counter_code ca ta nc) (r, s) = Some (exec hw (OpImm Add 6 6 271) (r, s))"
  "rv_pc r = 52 \<Longrightarrow> rv_step hw (counter_code ca ta nc) (r, s) = Some (exec hw (Sw 6 5 4) (r, s))"
  "rv_pc r = 56 \<Longrightarrow> rv_step hw (counter_code ca ta nc) (r, s) = Some (exec hw (OpImm Add 6 6 271) (r, s))"
  "rv_pc r = 60 \<Longrightarrow> rv_step hw (counter_code ca ta nc) (r, s) = Some (exec hw (Sw 6 5 8) (r, s))"
  "rv_pc r = 64 \<Longrightarrow> rv_step hw (counter_code ca ta nc) (r, s) = Some (exec hw (OpImm Add 6 6 271) (r, s))"
  "rv_pc r = 68 \<Longrightarrow> rv_step hw (counter_code ca ta nc) (r, s) = Some (exec hw (Sw 6 5 12) (r, s))"
  "rv_pc r = 72 \<Longrightarrow> rv_step hw (counter_code ca ta nc) (r, s) = Some (exec hw (OpImm Add 6 6 271) (r, s))"
  "rv_pc r = 76 \<Longrightarrow> rv_step hw (counter_code ca ta nc) (r, s) = Some (exec hw (OpImm Add 4 4 1) (r, s))"
  "rv_pc r = 80 \<Longrightarrow> rv_step hw (counter_code ca ta nc) (r, s) = Some (exec hw (Op Add 5 5 3) (r, s))"
  "rv_pc r = 84 \<Longrightarrow> rv_step hw (counter_code ca ta nc) (r, s) = Some (exec hw (Branch Bne 4 2 (- 40)) (r, s))"
  "rv_pc r = 88 \<Longrightarrow> rv_step hw (counter_code ca ta nc) (r, s) = Some (exec hw (OpImm Add 8 0 101) (r, s))"
  "rv_pc r = 92 \<Longrightarrow> rv_step hw (counter_code ca ta nc) (r, s) = Some (exec hw (Sw 8 7 0) (r, s))"
  "rv_pc r = 96 \<Longrightarrow> rv_step hw (counter_code ca ta nc) (r, s) = Some (exec hw (Op Add 0 0 0) (r, s))"
  "rv_pc r = 100 \<Longrightarrow> rv_step hw (counter_code ca ta nc) (r, s) = Some (exec hw (Branch Beq 0 0 (- 4)) (r, s))"
  by (simp_all add: rv_step_def fetch_def counter_code)

definition halt_code :: "u32 \<Rightarrow> instr option list" where
  "halt_code core = load_code (halt_program core)"

lemma halt_code:
  "halt_code core =
    [Some (Op Add 0 0 0),
     Some (Lui 2 0x0),
     Some (OpImm Add 2 2 512),
     Some (OpImm Add 4 0 (sign_extend 12 (take_bit 12 core))),
     Some (Sw 4 2 0),
     Some (Op Add 0 0 0),
     Some (Branch Beq 0 0 (- 4))]"
  unfolding halt_code_def load_code_def halt_program_def halt_words_def memory_map_defs
  by (simp add: decode_encodeLUI decode_encodeADDI and_masks) (simp add: decode_simps)

lemma halt_at:
  "rv_pc r = 0 \<Longrightarrow> rv_step hw (halt_code core) (r, s) = Some (exec hw (Op Add 0 0 0) (r, s))"
  "rv_pc r = 4 \<Longrightarrow> rv_step hw (halt_code core) (r, s) = Some (exec hw (Lui 2 0x0) (r, s))"
  "rv_pc r = 8 \<Longrightarrow> rv_step hw (halt_code core) (r, s) = Some (exec hw (OpImm Add 2 2 512) (r, s))"
  "rv_pc r = 12 \<Longrightarrow> rv_step hw (halt_code core) (r, s) = Some (exec hw (OpImm Add 4 0 (sign_extend 12 (take_bit 12 core))) (r, s))"
  "rv_pc r = 16 \<Longrightarrow> rv_step hw (halt_code core) (r, s) = Some (exec hw (Sw 4 2 0) (r, s))"
  "rv_pc r = 20 \<Longrightarrow> rv_step hw (halt_code core) (r, s) = Some (exec hw (Op Add 0 0 0) (r, s))"
  "rv_pc r = 24 \<Longrightarrow> rv_step hw (halt_code core) (r, s) = Some (exec hw (Branch Beq 0 0 (- 4)) (r, s))"
  by (simp_all add: rv_step_def fetch_def halt_code)

definition resume_code :: "u32 \<Rightarrow> instr option list" where
  "resume_code core = load_code (resume_program core)"

lemma resume_code:
  "resume_code core =
    [Some (Op Add 0 0 0),
     Some (Lui 2 0x0),
     Some (OpImm Add 2 2 512),
     Some (OpImm Add 4 0 (sign_extend 12 (take_bit 12 core))),
     Some (Sw 4 2 8),
     Some (Op Add 0 0 0),
     Some (Branch Beq 0 0 (- 4))]"
  unfolding resume_code_def load_code_def resume_program_def resume_words_def memory_map_defs
  by (simp add: decode_encodeLUI decode_encodeADDI and_masks) (simp add: decode_simps)

lemma resume_at:
  "rv_pc r = 0 \<Longrightarrow> rv_step hw (resume_code core) (r, s) = Some (exec hw (Op Add 0 0 0) (r, s))"
  "rv_pc r = 4 \<Longrightarrow> rv_step hw (resume_code core) (r, s) = Some (exec hw (Lui 2 0x0) (r, s))"
  "rv_pc r = 8 \<Longrightarrow> rv_step hw (resume_code core) (r, s) = Some (exec hw (OpImm Add 2 2 512) (r, s))"
  "rv_pc r = 12 \<Longrightarrow> rv_step hw (resume_code core) (r, s) = Some (exec hw (OpImm Add 4 0 (sign_extend 12 (take_bit 12 core))) (r, s))"
  "rv_pc r = 16 \<Longrightarrow> rv_step hw (resume_code core) (r, s) = Some (exec hw (Sw 4 2 8) (r, s))"
  "rv_pc r = 20 \<Longrightarrow> rv_step hw (resume_code core) (r, s) = Some (exec hw (Op Add 0 0 0) (r, s))"
  "rv_pc r = 24 \<Longrightarrow> rv_step hw (resume_code core) (r, s) = Some (exec hw (Branch Beq 0 0 (- 4)) (r, s))"
  by (simp_all add: rv_step_def fetch_def resume_code)

definition debug_code :: "u32 \<Rightarrow> u32 \<Rightarrow> instr option list" where
  "debug_code nc wt = load_code (debug_program nc wt)"

lemma debug_code:
  "debug_code nc wt =
    [Some (Op Add 0 0 0),
     Some (OpImm Add 1 0 (sign_extend 12 (take_bit 12 nc))),
     Some (OpImm Add 6 0 (sign_extend 12 (take_bit 12 wt))),
     Some (Lui 2 0x0),
     Some (OpImm Add 2 2 512),
     Some (OpImm Add 4 0 0),
     Some (OpImm Add 5 0 0),
     Some (Sw 4 2 0),
     Some (OpImm Add 4 4 1),
     Some (OpImm Add 5 5 1),
     Some (Branch Bne 5 1 (- 12)),
     Some (Op Add 7 0 0),
     Some (Op Add 0 0 0),
     Some (OpImm Add 7 7 1),
     Some (Branch Bne 7 6 (- 8)),
     Some (OpImm Add 4 0 0),
     Some (OpImm Add 5 0 0),
     Some (Sw 4 2 8),
     Some (OpImm Add 4 4 1),
     Some (OpImm Add 5 5 1),
     Some (Branch Bne 5 1 (- 12)),
     Some (Op Add 0 0 0),
     Some (Branch Beq 0 0 (- 4))]"
  unfolding debug_code_def load_code_def debug_program_def debug_words_def memory_map_defs
  by (simp add: decode_encodeLUI decode_encodeADDI and_masks) (simp add: decode_simps)

lemma debug_at:
  "rv_pc r = 0 \<Longrightarrow> rv_step hw (debug_code nc wt) (r, s) = Some (exec hw (Op Add 0 0 0) (r, s))"
  "rv_pc r = 4 \<Longrightarrow> rv_step hw (debug_code nc wt) (r, s) = Some (exec hw (OpImm Add 1 0 (sign_extend 12 (take_bit 12 nc))) (r, s))"
  "rv_pc r = 8 \<Longrightarrow> rv_step hw (debug_code nc wt) (r, s) = Some (exec hw (OpImm Add 6 0 (sign_extend 12 (take_bit 12 wt))) (r, s))"
  "rv_pc r = 12 \<Longrightarrow> rv_step hw (debug_code nc wt) (r, s) = Some (exec hw (Lui 2 0x0) (r, s))"
  "rv_pc r = 16 \<Longrightarrow> rv_step hw (debug_code nc wt) (r, s) = Some (exec hw (OpImm Add 2 2 512) (r, s))"
  "rv_pc r = 20 \<Longrightarrow> rv_step hw (debug_code nc wt) (r, s) = Some (exec hw (OpImm Add 4 0 0) (r, s))"
  "rv_pc r = 24 \<Longrightarrow> rv_step hw (debug_code nc wt) (r, s) = Some (exec hw (OpImm Add 5 0 0) (r, s))"
  "rv_pc r = 28 \<Longrightarrow> rv_step hw (debug_code nc wt) (r, s) = Some (exec hw (Sw 4 2 0) (r, s))"
  "rv_pc r = 32 \<Longrightarrow> rv_step hw (debug_code nc wt) (r, s) = Some (exec hw (OpImm Add 4 4 1) (r, s))"
  "rv_pc r = 36 \<Longrightarrow> rv_step hw (debug_code nc wt) (r, s) = Some (exec hw (OpImm Add 5 5 1) (r, s))"
  "rv_pc r = 40 \<Longrightarrow> rv_step hw (debug_code nc wt) (r, s) = Some (exec hw (Branch Bne 5 1 (- 12)) (r, s))"
  "rv_pc r = 44 \<Longrightarrow> rv_step hw (debug_code nc wt) (r, s) = Some (exec hw (Op Add 7 0 0) (r, s))"
  "rv_pc r = 48 \<Longrightarrow> rv_step hw (debug_code nc wt) (r, s) = Some (exec hw (Op Add 0 0 0) (r, s))"
  "rv_pc r = 52 \<Longrightarrow> rv_step hw (debug_code nc wt) (r, s) = Some (exec hw (OpImm Add 7 7 1) (r, s))"
  "rv_pc r = 56 \<Longrightarrow> rv_step hw (debug_code nc wt) (r, s) = Some (exec hw (Branch Bne 7 6 (- 8)) (r, s))"
  "rv_pc r = 60 \<Longrightarrow> rv_step hw (debug_code nc wt) (r, s) = Some (exec hw (OpImm Add 4 0 0) (r, s))"
  "rv_pc r = 64 \<Longrightarrow> rv_step hw (debug_code nc wt) (r, s) = Some (exec hw (OpImm Add 5 0 0) (r, s))"
  "rv_pc r = 68 \<Longrightarrow> rv_step hw (debug_code nc wt) (r, s) = Some (exec hw (Sw 4 2 8) (r, s))"
  "rv_pc r = 72 \<Longrightarrow> rv_step hw (debug_code nc wt) (r, s) = Some (exec hw (OpImm Add 4 4 1) (r, s))"
  "rv_pc r = 76 \<Longrightarrow> rv_step hw (debug_code nc wt) (r, s) = Some (exec hw (OpImm Add 5 5 1) (r, s))"
  "rv_pc r = 80 \<Longrightarrow> rv_step hw (debug_code nc wt) (r, s) = Some (exec hw (Branch Bne 5 1 (- 12)) (r, s))"
  "rv_pc r = 84 \<Longrightarrow> rv_step hw (debug_code nc wt) (r, s) = Some (exec hw (Op Add 0 0 0) (r, s))"
  "rv_pc r = 88 \<Longrightarrow> rv_step hw (debug_code nc wt) (r, s) = Some (exec hw (Branch Beq 0 0 (- 4)) (r, s))"
  by (simp_all add: rv_step_def fetch_def debug_code)

subsection \<open>What the programs store\<close>

lemma halt_run:
  assumes "unat core < 2048"
  shows "\<exists>r. rv_run hw (halt_code core) 5 (rv_reset, s) = Some (r, wr32 hw 0x200 core s) \<and> rv_pc r = 20"
  using sign_extend_small [OF assms] by (simp add: exec_simps halt_at rv_reset_def)

lemma resume_run:
  assumes "unat core < 2048"
  shows "\<exists>r. rv_run hw (resume_code core) 5 (rv_reset, s) = Some (r, wr32 hw 0x208 core s) \<and> rv_pc r = 20"
  using sign_extend_small [OF assms] by (simp add: exec_simps resume_at rv_reset_def)

lemma interrupt_run:
  assumes "\<not> bit ca 11" "\<not> bit ta 11"
  shows "\<exists>r. rv_run hw (interrupt_code ca ta) 9 (rv_reset, s) =
      Some (r, wr32 hw (u32_to_addr ta) 101 (wr32 hw (u32_to_addr ca) 0x40000000 s)) \<and> rv_pc r = 36"
  using assms by (simp add: exec_simps interrupt_at rv_reset_def lui_addi)

text \<open>The programs end in a loop of two instructions.\<close>

lemma idle_loops:
  "idle_loop (halt_code core) 20" "idle_loop (resume_code core) 20" "idle_loop (interrupt_code ca ta) 36"
  "idle_loop (counter_code ca ta nc) 96" "idle_loop (debug_code nc wt) 84"
  by (auto intro!: idle_loopI simp: halt_at resume_at interrupt_at counter_at debug_at exec_simps)

text \<open>
  The counter program stores the multiples of 271 to the registers of the bundles in turn: register
  number \<open>q\<close>, counted over all bundles, gets \<open>271 (q + 1)\<close>.
\<close>

definition bundle_word :: "u32 \<Rightarrow> nat \<Rightarrow> u64" where
  "bundle_word ca q = u32_to_addr (ca + 0x1000 * of_nat (q div 4) + 4 * of_nat (q mod 4))"

definition fill_bundles :: "'s hw \<Rightarrow> u32 \<Rightarrow> nat \<Rightarrow> 's \<Rightarrow> 's" where
  "fill_bundles hw ca n s = for_upto n (\<lambda>q. wr32 hw (bundle_word ca q) (271 * of_nat (Suc q))) s"

lemma fill_bundles_Suc:
  "fill_bundles hw ca (4 * Suc i) s =
     (let a = ca + 0x1000 * of_nat i; v = 271 * of_nat (4 * i) in
      wr32 hw (u32_to_addr (a + 12)) (v + 271 + 271 + 271 + 271)
     (wr32 hw (u32_to_addr (a + 8)) (v + 271 + 271 + 271) (wr32 hw (u32_to_addr (a + 4)) (v + 271 + 271)
     (wr32 hw (u32_to_addr a) (v + 271) (fill_bundles hw ca (4 * i) s)))))"
proof -
  have n: "4 * Suc i = Suc (Suc (Suc (Suc (4 * i))))" by simp
  have d: "Suc (4 * i) div 4 = i" "Suc (Suc (4 * i)) div 4 = i" "Suc (Suc (Suc (4 * i))) div 4 = i"
    "Suc (4 * i) mod 4 = 1" "Suc (Suc (4 * i)) mod 4 = 2" "Suc (Suc (Suc (4 * i))) mod 4 = 3"
    by presburger+
  show ?thesis
    unfolding fill_bundles_def n
    by (simp only: for_upto_Suc bundle_word_def d Let_def) (simp add: algebra_simps)
qed

definition counter_turn :: "'s hw \<Rightarrow> u32 \<Rightarrow> u32 \<Rightarrow> u32 \<Rightarrow> 's \<Rightarrow> u32 \<Rightarrow> nat \<Rightarrow> rv \<times> 's \<Rightarrow> bool" where
  "counter_turn hw ca ta nc s pc i c \<longleftrightarrow> rv_pc (fst c) = pc \<and> rv_regs (fst c) 2 = nc \<and>
     rv_regs (fst c) 3 = 0x1000 \<and> rv_regs (fst c) 4 = of_nat i \<and>
     rv_regs (fst c) 5 = ca + 0x1000 * of_nat i \<and> rv_regs (fst c) 6 = 271 * of_nat (4 * i) + 271 \<and>
     rv_regs (fst c) 7 = ta \<and> snd c = fill_bundles hw ca (4 * i) s"

lemma counter_body:
  assumes "counter_turn hw ca ta nc s 44 i c"
  shows "rv_reaches hw (counter_code ca ta nc) 11 c
    (counter_turn hw ca ta nc s (if of_nat (Suc i) = nc then 88 else 44) (Suc i))"
proof -
  obtain r t where c: "c = (r, t)" by (cases c)
  have regs: "rv_pc r = 44" "rv_regs r 2 = nc" "rv_regs r 3 = 0x1000" "rv_regs r 4 = of_nat i"
     "rv_regs r 5 = ca + 0x1000 * of_nat i" "rv_regs r 6 = 271 * of_nat (4 * i) + 271" "rv_regs r 7 = ta"
     "t = fill_bundles hw ca (4 * i) s"
    using assms by (simp_all add: counter_turn_def c)
  have "\<exists>r'. rv_run hw (counter_code ca ta nc) 11 c = Some (r', fill_bundles hw ca (4 * Suc i) s) \<and>
      rv_pc r' = (if of_nat (Suc i) = nc then 88 else 44) \<and> rv_regs r' 2 = nc \<and> rv_regs r' 3 = 0x1000 \<and>
      rv_regs r' 4 = of_nat (Suc i) \<and> rv_regs r' 5 = ca + 0x1000 * of_nat (Suc i) \<and>
      rv_regs r' 6 = 271 * of_nat (4 * Suc i) + 271 \<and> rv_regs r' 7 = ta"
    unfolding fill_bundles_Suc using regs
    by (simp add: c exec_simps counter_at Let_def algebra_simps)
  then show ?thesis by (elim exE conjE) (rule rv_reachesI, assumption, simp_all add: counter_turn_def)
qed


lemma word_count_end: "i < unat n \<Longrightarrow> of_nat (Suc i) = (n :: u32) \<longleftrightarrow> Suc i = unat n"
proof -
  assume "i < unat n"
  then have "Suc i < 2 ^ 32" using unsigned_less [of n, where 'a = nat] by simp
  then have "unat (of_nat (Suc i) :: u32) = Suc i" by (simp only: unat_of_nat) simp
  then show ?thesis by (metis word_unat_eq_iff)
qed

lemma counter_loop:
  assumes "counter_turn hw ca ta nc s 44 i c" "i < unat nc"
  shows "rv_reaches hw (counter_code ca ta nc) (11 * (unat nc - i)) c (counter_turn hw ca ta nc s 88 (unat nc))"
  using assms
proof (induction "unat nc - i" arbitrary: i c)
  case (Suc d)
  note last = word_count_end [OF Suc.prems(2)]
  have "rv_reaches hw (counter_code ca ta nc) (11 * (unat nc - Suc i)) c' (counter_turn hw ca ta nc s 88 (unat nc))"
    if "counter_turn hw ca ta nc s (if of_nat (Suc i) = nc then 88 else 44) (Suc i) c'" for c'
  proof (cases "Suc i = unat nc")
    case True
    then show ?thesis using that last by (simp add: rv_reaches_here)
  next
    case False
    then show ?thesis using that last Suc by (intro Suc.hyps(1)) simp_all
  qed
  then have "rv_reaches hw (counter_code ca ta nc) (11 + 11 * (unat nc - Suc i)) c
      (counter_turn hw ca ta nc s 88 (unat nc))"
    by (rule rv_reaches_trans [OF counter_body [OF Suc.prems(1)]])
  moreover have "11 * (unat nc - i) = 11 + 11 * (unat nc - Suc i)" using Suc.prems(2) by simp
  ultimately show ?case by simp
qed simp

lemma counter_run:
  assumes "\<not> bit ca 11" "\<not> bit ta 11" "0 < unat nc" "unat nc < 2048"
  shows "rv_reaches hw (counter_code ca ta nc) (13 + 11 * unat nc) (rv_reset, s)
    (\<lambda>c. rv_pc (fst c) = 96 \<and> snd c = wr32 hw (u32_to_addr ta) 101 (fill_bundles hw ca (4 * unat nc) s))"
proof -
  have "\<exists>r. rv_run hw (counter_code ca ta nc) 11 (rv_reset, s) = Some (r, s) \<and>
      counter_turn hw ca ta nc s 44 0 (r, s)"
    using assms sign_extend_small [OF assms(4)]
    by (simp add: exec_simps counter_at rv_reset_def lui_addi counter_turn_def fill_bundles_def)
  then have start: "rv_reaches hw (counter_code ca ta nc) 11 (rv_reset, s) (counter_turn hw ca ta nc s 44 0)"
    by (auto intro: rv_reachesI)
  have "rv_reaches hw (counter_code ca ta nc) 2 c
      (\<lambda>c. rv_pc (fst c) = 96 \<and> snd c = wr32 hw (u32_to_addr ta) 101 (fill_bundles hw ca (4 * unat nc) s))"
    if "counter_turn hw ca ta nc s 88 (unat nc) c" for c
  proof -
    have "\<exists>r. rv_run hw (counter_code ca ta nc) 2 c =
        Some (r, wr32 hw (u32_to_addr ta) 101 (fill_bundles hw ca (4 * unat nc) s)) \<and> rv_pc r = 96"
      using that by (cases c) (simp add: exec_simps counter_at counter_turn_def)
    then show ?thesis by (auto intro: rv_reachesI)
  qed
  then have "rv_reaches hw (counter_code ca ta nc) (11 + 11 * (unat nc - 0) + 2) (rv_reset, s)
      (\<lambda>c. rv_pc (fst c) = 96 \<and> snd c = wr32 hw (u32_to_addr ta) 101 (fill_bundles hw ca (4 * unat nc) s))"
    using assms(3) by (intro rv_reaches_trans [OF rv_reaches_trans [OF start counter_loop]])
  then show ?thesis by (rule rv_reaches_mono) simp_all
qed

text \<open>
  The debug program stores the numbers of the cores to the halt register in turn, waits, and stores
  them to the resume register in turn.
\<close>

definition store_ids :: "'s hw \<Rightarrow> u64 \<Rightarrow> nat \<Rightarrow> 's \<Rightarrow> 's" where
  "store_ids hw a n s = for_upto n (\<lambda>i. wr32 hw a (of_nat i)) s"

lemma store_ids_Suc: "store_ids hw a (Suc i) s = wr32 hw a (of_nat i) (store_ids hw a i s)"
  by (simp add: store_ids_def for_upto_Suc)

definition debug_turn :: "'s hw \<Rightarrow> u32 \<Rightarrow> u32 \<Rightarrow> u64 \<Rightarrow> 's \<Rightarrow> u32 \<Rightarrow> nat \<Rightarrow> rv \<times> 's \<Rightarrow> bool" where
  "debug_turn hw nc wt a s pc i c \<longleftrightarrow> rv_pc (fst c) = pc \<and> rv_regs (fst c) 1 = nc \<and>
     rv_regs (fst c) 2 = 0x200 \<and> rv_regs (fst c) 6 = wt \<and> rv_regs (fst c) 4 = of_nat i \<and>
     rv_regs (fst c) 5 = of_nat i \<and> snd c = store_ids hw a i s"

lemma debug_body:
  assumes turn: "debug_turn hw nc wt (u32_to_addr (0x200 + off)) s pc i c"
    and loop: "pc = 28 \<and> off = 0 \<or> pc = 68 \<and> off = 8"
  shows "rv_reaches hw (debug_code nc wt) 4 c
    (debug_turn hw nc wt (u32_to_addr (0x200 + off)) s (if of_nat (Suc i) = nc then pc + 16 else pc) (Suc i))"
proof -
  obtain r t where c: "c = (r, t)" by (cases c)
  have regs: "rv_pc r = pc" "rv_regs r 1 = nc" "rv_regs r 2 = 0x200" "rv_regs r 6 = wt" "rv_regs r 4 = of_nat i"
      "rv_regs r 5 = of_nat i" "t = store_ids hw (u32_to_addr (0x200 + off)) i s"
    using turn by (simp_all add: debug_turn_def c)
  have "\<exists>r'. rv_run hw (debug_code nc wt) 4 (r, t) = Some (r', store_ids hw (u32_to_addr (0x200 + off)) (Suc i) s) \<and>
      rv_pc r' = (if of_nat (Suc i) = nc then pc + 16 else pc) \<and> rv_regs r' 1 = nc \<and> rv_regs r' 2 = 0x200 \<and>
      rv_regs r' 6 = wt \<and> rv_regs r' 4 = of_nat (Suc i) \<and> rv_regs r' 5 = of_nat (Suc i)"
    using loop
  proof (elim disjE conjE)
    assume "pc = 28" "off = 0"
    with regs show ?thesis by (simp add: exec_simps debug_at store_ids_Suc add.commute [of "1 :: u32"])
  next
    assume "pc = 68" "off = 8"
    with regs show ?thesis by (simp add: exec_simps debug_at store_ids_Suc add.commute [of "1 :: u32"])
  qed
  then show ?thesis by (elim exE conjE) (rule rv_reachesI, unfold c, assumption, simp_all add: debug_turn_def)
qed

lemma debug_loop:
  assumes "debug_turn hw nc wt (u32_to_addr (0x200 + off)) s pc i c" "i < unat nc"
    and loop: "pc = 28 \<and> off = 0 \<or> pc = 68 \<and> off = 8"
  shows "rv_reaches hw (debug_code nc wt) (4 * (unat nc - i)) c
    (debug_turn hw nc wt (u32_to_addr (0x200 + off)) s (pc + 16) (unat nc))"
  using assms(1,2)
proof (induction "unat nc - i" arbitrary: i c)
  case (Suc d)
  let ?turn = "debug_turn hw nc wt (u32_to_addr (0x200 + off)) s"
  have "rv_reaches hw (debug_code nc wt) (4 * (unat nc - Suc i)) c' (?turn (pc + 16) (unat nc))"
    if "?turn (if of_nat (Suc i) = nc then pc + 16 else pc) (Suc i) c'" for c'
  proof (cases "Suc i = unat nc")
    case True
    then show ?thesis using that word_count_end [OF Suc.prems(2)] by (simp add: rv_reaches_here)
  next
    case False
    then show ?thesis using that word_count_end [OF Suc.prems(2)] Suc by (intro Suc.hyps(1)) simp_all
  qed
  then have "rv_reaches hw (debug_code nc wt) (4 + 4 * (unat nc - Suc i)) c (?turn (pc + 16) (unat nc))"
    by (rule rv_reaches_trans [OF debug_body [OF Suc.prems(1) loop]])
  moreover have "4 * (unat nc - i) = 4 + 4 * (unat nc - Suc i)" using Suc.prems(2) by simp
  ultimately show ?case by simp
qed simp

text \<open>Between the two loops the program counts to \<open>wt\<close>.\<close>

definition delay_turn :: "u32 \<Rightarrow> u32 \<Rightarrow> 's \<Rightarrow> u32 \<Rightarrow> nat \<Rightarrow> rv \<times> 's \<Rightarrow> bool" where
  "delay_turn nc wt t pc i c \<longleftrightarrow> rv_pc (fst c) = pc \<and> rv_regs (fst c) 1 = nc \<and>
     rv_regs (fst c) 2 = 0x200 \<and> rv_regs (fst c) 6 = wt \<and> rv_regs (fst c) 7 = of_nat i \<and> snd c = t"

lemma delay_body:
  assumes "delay_turn nc wt t 48 i c"
  shows "rv_reaches hw (debug_code nc wt) 3 c (delay_turn nc wt t (if of_nat (Suc i) = wt then 60 else 48) (Suc i))"
proof -
  obtain r where c: "c = (r, t)" using assms by (cases c) (simp add: delay_turn_def)
  have "\<exists>r'. rv_run hw (debug_code nc wt) 3 c = Some (r', t) \<and>
      delay_turn nc wt t (if of_nat (Suc i) = wt then 60 else 48) (Suc i) (r', t)"
    using assms by (simp add: c exec_simps debug_at delay_turn_def add.commute [of "1 :: u32"])
  then show ?thesis by (elim exE conjE) (rule rv_reachesI, assumption, simp_all)
qed

lemma delay_loop:
  assumes "delay_turn nc wt t 48 i c" "i < unat wt"
  shows "rv_reaches hw (debug_code nc wt) (3 * (unat wt - i)) c (delay_turn nc wt t 60 (unat wt))"
  using assms
proof (induction "unat wt - i" arbitrary: i c)
  case (Suc d)
  have "rv_reaches hw (debug_code nc wt) (3 * (unat wt - Suc i)) c' (delay_turn nc wt t 60 (unat wt))"
    if "delay_turn nc wt t (if of_nat (Suc i) = wt then 60 else 48) (Suc i) c'" for c'
  proof (cases "Suc i = unat wt")
    case True
    then show ?thesis using that word_count_end [OF Suc.prems(2)] by (simp add: rv_reaches_here)
  next
    case False
    then show ?thesis using that word_count_end [OF Suc.prems(2)] Suc by (intro Suc.hyps(1)) simp_all
  qed
  then have "rv_reaches hw (debug_code nc wt) (3 + 3 * (unat wt - Suc i)) c (delay_turn nc wt t 60 (unat wt))"
    by (rule rv_reaches_trans [OF delay_body [OF Suc.prems(1)]])
  moreover have "3 * (unat wt - i) = 3 + 3 * (unat wt - Suc i)" using Suc.prems(2) by simp
  ultimately show ?case by simp
qed simp


lemma debug_run:
  assumes "0 < unat nc" "unat nc < 2048" "0 < unat wt" "unat wt < 2048"
  shows "rv_reaches hw (debug_code nc wt) (10 + 8 * unat nc + 3 * unat wt) (rv_reset, s)
    (\<lambda>c. rv_pc (fst c) = 84 \<and> snd c = store_ids hw 0x208 (unat nc) (store_ids hw 0x200 (unat nc) s))"
proof -
  let ?reaches = "rv_reaches hw (debug_code nc wt)" and ?t = "store_ids hw 0x200 (unat nc) s"
  have "\<exists>r. rv_run hw (debug_code nc wt) 7 (rv_reset, s) = Some (r, s) \<and>
      debug_turn hw nc wt (u32_to_addr (0x200 + 0)) s 28 0 (r, s)"
    using sign_extend_small [OF assms(2)] sign_extend_small [OF assms(4)]
    by (simp add: exec_simps debug_at rv_reset_def debug_turn_def store_ids_def)
  then have start: "?reaches 7 (rv_reset, s) (debug_turn hw nc wt (u32_to_addr (0x200 + 0)) s 28 0)"
    by (auto intro: rv_reachesI)
  have halt: "?reaches (4 * (unat nc - 0)) c (debug_turn hw nc wt (u32_to_addr (0x200 + 0)) s (28 + 16) (unat nc))"
    if "debug_turn hw nc wt (u32_to_addr (0x200 + 0)) s 28 0 c" for c
    using that assms(1) by (intro debug_loop) simp_all
  have to_delay: "?reaches 1 c (delay_turn nc wt ?t 48 0)"
    if "debug_turn hw nc wt (u32_to_addr (0x200 + 0)) s (28 + 16) (unat nc) c" for c
  proof -
    have "\<exists>r. rv_run hw (debug_code nc wt) 1 c = Some (r, ?t) \<and> delay_turn nc wt ?t 48 0 (r, ?t)"
      using that by (cases c) (simp add: exec_simps debug_at debug_turn_def delay_turn_def)
    then show ?thesis by (elim exE conjE) (rule rv_reachesI, assumption, simp_all)
  qed
  have delay: "?reaches (3 * (unat wt - 0)) c (delay_turn nc wt ?t 60 (unat wt))"
    if "delay_turn nc wt ?t 48 0 c" for c
    using that assms(3) by (intro delay_loop)
  have to_resume: "?reaches 2 c (debug_turn hw nc wt (u32_to_addr (0x200 + 8)) ?t 68 0)"
    if "delay_turn nc wt ?t 60 (unat wt) c" for c
  proof -
    have "\<exists>r. rv_run hw (debug_code nc wt) 2 c = Some (r, ?t) \<and>
        debug_turn hw nc wt (u32_to_addr (0x200 + 8)) ?t 68 0 (r, ?t)"
      using that by (cases c) (simp add: exec_simps debug_at debug_turn_def delay_turn_def store_ids_def)
    then show ?thesis by (auto intro: rv_reachesI)
  qed
  have resume: "?reaches (4 * (unat nc - 0)) c (debug_turn hw nc wt (u32_to_addr (0x200 + 8)) ?t (68 + 16) (unat nc))"
    if "debug_turn hw nc wt (u32_to_addr (0x200 + 8)) ?t 68 0 c" for c
    using that assms(1) by (intro debug_loop) simp_all
  have "?reaches (7 + 4 * (unat nc - 0) + 1 + 3 * (unat wt - 0) + 2 + 4 * (unat nc - 0)) (rv_reset, s)
      (debug_turn hw nc wt (u32_to_addr (0x200 + 8)) ?t (68 + 16) (unat nc))"
    by (rule rv_reaches_trans [OF rv_reaches_trans [OF rv_reaches_trans [OF rv_reaches_trans
      [OF rv_reaches_trans [OF start halt] to_delay] delay] to_resume] resume])
  then show ?thesis by (rule rv_reaches_mono) (simp_all add: debug_turn_def)
qed

end
