(* ===== verification/Pmu_Test_Theorems.thy ===== *)
theory Pmu_Test_Theorems
  imports Pmu_Core_Programs
begin

text \<open>
  The properties of the bring-up tests of \<open>pmu_test_func.c\<close>: what the tests return against a core that
  executes the programs they load, and where the encoders and the helpers go wrong.
\<close>

subsection \<open>What the tests return\<close>

lemma wait_parked:
  assumes loop: "idle_loop code p" and "parked code p m (core_steps n s)" "m (u32_to_addr ta) = 101"
  shows "\<exists>s'. wait_for_target (bring_hw n) ta s = Some s' \<and> parked code p m (core_steps n s')"
proof -
  have "poll_until (read_32b (bring_hw n) (u32_to_addr ta)) (\<lambda>v. v = 101) s =
      Some (read_32b (bring_hw n) (u32_to_addr ta) s)"
    using assms(3) parked_mem [OF assms(2)] by (intro poll_until_hit) (simp add: read_32b_def)
  then show ?thesis
    using parked_steps [OF loop assms(2)] by (simp add: wait_for_target_def read_32b_def)
qed





text \<open>The registers of the bundles: where they are, and that the fill leaves its values in them.\<close>

lemma uint_bundle_word:
  assumes "q < 128"
  shows "uint (bundle_word COUNTER_B_BASE_ADDR q) = 0x10407000 + 0x1000 * int (q div 4) + 4 * int (q mod 4)"
proof -
  have "COUNTER_B_BASE_ADDR + 0x1000 * of_nat k + 4 * of_nat j = word_of_int (0x10407000 + 0x1000 * int k + 4 * int j)"
      for k j
    by (simp add: COUNTER_B_BASE_ADDR_def PMU_B_BASE_ADDR_def PMU_BUNDLE_SIZE_def)
  moreover have "uint (word_of_int (0x10407000 + 0x1000 * int (q div 4) + 4 * int (q mod 4)) :: u32) =
      0x10407000 + 0x1000 * int (q div 4) + 4 * int (q mod 4)"
  proof -
    have "q div 4 < 32" "q mod 4 < 4" using assms by presburger+
    then show ?thesis by (simp only: unsigned_of_int) (simp add: take_bit_int_eq_self)
  qed
  ultimately show ?thesis by (simp only: bundle_word_def uint_u32_to_addr)
qed

lemma bundle_word_inj: "inj_on (bundle_word COUNTER_B_BASE_ADDR) {..<128}"
proof (rule inj_onI)
  fix i j assume "i \<in> {..<128 :: nat}" "j \<in> {..<128}" and eq: "bundle_word COUNTER_B_BASE_ADDR i = bundle_word COUNTER_B_BASE_ADDR j"
  then have "int (0x1000 * (i div 4) + 4 * (i mod 4)) = int (0x1000 * (j div 4) + 4 * (j mod 4))"
    using uint_bundle_word [of i] uint_bundle_word [of j] by simp
  then have eq: "0x1000 * (i div 4) + 4 * (i mod 4) = 0x1000 * (j div 4) + 4 * (j mod 4)"
    by (simp only: of_nat_eq_iff)
  have "(0x1000 * a + 4 * b) div 0x1000 = a" if "b < 4" for a b :: nat using that by simp
  then have "i div 4 = j div 4" using arg_cong [OF eq, of "\<lambda>x. x div 0x1000"] by simp
  then show "i = j" using eq by (metis add_left_cancel div_mult_mod_eq mult_cancel1 zero_neq_numeral)
qed

lemma fill_value:
  assumes "n \<le> 128" "q < n"
  shows "fill_bundles core_hw COUNTER_B_BASE_ADDR n m (bundle_word COUNTER_B_BASE_ADDR q) = 271 * of_nat (Suc q)"
  unfolding fill_bundles_def
  using assms by (intro spm.look_block_at inj_on_subset [OF bundle_word_inj]) auto

lemma bundle_registers:
  assumes "i < 32" "j < 4"
  shows "u32_to_addr COUNTER_B_BASE_ADDR + of_nat i * 0x1000 + 4 * of_nat j = bundle_word COUNTER_B_BASE_ADDR (4 * i + j)"
proof -
  have q: "(4 * i + j) div 4 = i" "(4 * i + j) mod 4 = j" using assms by presburger+
  have "u32_to_addr COUNTER_B_BASE_ADDR + of_nat i * 0x1000 + 4 * of_nat j =
      word_of_int (0x10407000 + 0x1000 * int i + 4 * int j)"
    by (simp add: COUNTER_B_BASE_ADDR_def PMU_B_BASE_ADDR_def PMU_BUNDLE_SIZE_def mult.commute)
  moreover have "uint (word_of_int (0x10407000 + 0x1000 * int i + 4 * int j) :: u64) = 0x10407000 + 0x1000 * int i + 4 * int j"
    using assms by (simp only: unsigned_of_int) (simp add: take_bit_int_eq_self)
  ultimately show ?thesis
    using uint_bundle_word [of "4 * i + j"] assms q by (simp add: word_uint_eq_iff)
qed

lemma read_bundles_steady:
  assumes keep: "\<And>s a. I s \<Longrightarrow> \<exists>s'. rd32 hw a s = (f a, s') \<and> I s'" and "I s"
  shows "\<exists>s'. read_bundles hw a step n s = (map (\<lambda>i. let b = a + of_nat i * ucast step in
      \<lparr>counter = f b, event_sel = f (b + 4), event_info = f (b + 4 + 4), init_budget = f (b + 4 + 4 + 4)\<rparr>) [0..<n], s') \<and> I s'"
  using assms(2)
proof (induction n arbitrary: a s)
  case (Suc n)
  obtain s1 s2 s3 s4 where s: "rd32 hw a s = (f a, s1)" "rd32 hw (a + 4) s1 = (f (a + 4), s2)"
      "rd32 hw (a + 4 + 4) s2 = (f (a + 4 + 4), s3)" "rd32 hw (a + 4 + 4 + 4) s3 = (f (a + 4 + 4 + 4), s4)" "I s4"
    using keep Suc.prems by meson
  obtain s' where "read_bundles hw (a + ucast step) step n s4 = (map (\<lambda>i. let b = a + ucast step + of_nat i * ucast step in
      \<lparr>counter = f b, event_sel = f (b + 4), event_info = f (b + 4 + 4), init_budget = f (b + 4 + 4 + 4)\<rparr>) [0..<n], s')" "I s'"
    using Suc.IH [OF s(5)] by blast
  then show ?case using s
    by (simp add: read_counter_b_def read_32b_def upt_conv_Cons map_Suc_upt [symmetric] Let_def algebra_simps del: upt_Suc)
qed simp


lemma counter_write_errors_0:
  "(\<And>i. i < length rs \<Longrightarrow> ucast (counter (rs ! i)) = T + 271 * of_nat (4 * i + 1) \<and>
      ucast (event_sel (rs ! i)) = T + 271 * of_nat (4 * i + 2) \<and>
      ucast (event_info (rs ! i)) = T + 271 * of_nat (4 * i + 3) \<and>
      ucast (init_budget (rs ! i)) = T + 271 * of_nat (4 * i + 4)) \<Longrightarrow> counter_write_errors T rs = 0"
proof (induction rs arbitrary: T)
  case (Cons r rs)
  have "counter_write_errors (T + 271 + 271 + 271 + 271) rs = 0"
  proof (rule Cons.IH)
    fix i assume "i < length rs"
    then show "ucast (counter (rs ! i)) = T + 271 + 271 + 271 + 271 + 271 * of_nat (4 * i + 1) \<and>
      ucast (event_sel (rs ! i)) = T + 271 + 271 + 271 + 271 + 271 * of_nat (4 * i + 2) \<and>
      ucast (event_info (rs ! i)) = T + 271 + 271 + 271 + 271 + 271 * of_nat (4 * i + 3) \<and>
      ucast (init_budget (rs ! i)) = T + 271 + 271 + 271 + 271 + 271 * of_nat (4 * i + 4)"
      using Cons.prems [of "Suc i"] by (simp add: algebra_simps)
  qed
  then show ?case using Cons.prems [of 0] by (simp add: add.assoc)
qed simp

lemma multiple_ucast: "q < 128 \<Longrightarrow> u32_to_addr (271 * of_nat (Suc q)) = 271 * of_nat (Suc q)"
proof -
  assume "q < 128"
  then have "uint (word_of_int (271 * int (Suc q)) :: u32) = 271 * int (Suc q)"
      "uint (word_of_int (271 * int (Suc q)) :: u64) = 271 * int (Suc q)"
    by (simp_all only: unsigned_of_int) (simp_all add: take_bit_int_eq_self)
  then have "uint (u32_to_addr (word_of_int (271 * int (Suc q)))) = uint (word_of_int (271 * int (Suc q)) :: u64)"
    by (simp only: uint_u32_to_addr)
  then have "u32_to_addr (word_of_int (271 * int (Suc q))) = word_of_int (271 * int (Suc q))"
    by (simp only: word_uint_eq_iff)
  moreover have "(word_of_int (271 * int (Suc q)) :: u32) = 271 * of_nat (Suc q)"
    "(word_of_int (271 * int (Suc q)) :: u64) = 271 * of_nat (Suc q)" by simp_all
  ultimately show ?thesis by (simp only:)
qed

lemma bundle_not_dspm: "q < 128 \<Longrightarrow> bundle_word COUNTER_B_BASE_ADDR q \<noteq> u32_to_addr DSPM_BASE_ADDR"
proof
  assume q: "q < 128" and "bundle_word COUNTER_B_BASE_ADDR q = u32_to_addr DSPM_BASE_ADDR"
  then have "0x10407000 + 0x1000 * int (q div 4) + 4 * int (q mod 4) = 0x10428000"
    using uint_bundle_word [of q] by (simp add: uint_u32_to_addr DSPM_BASE_ADDR_def)
  moreover have "q div 4 < 32" "q mod 4 < 4" using q by presburger+
  ultimately show False by simp
qed

lemma counter_test_ok:
  assumes nc: "0 < unat nc" "unat nc \<le> 32" and n: "13 + 11 * unat nc \<le> n"
  shows "\<exists>s'. test_pmu_core_counter_b_writes (bring_hw n) ISPM_BASE_ADDR COUNTER_B_BASE_ADDR DSPM_BASE_ADDR
      PMC_STATUS_ADDR nc s = Some (0, s') \<and>
    (\<forall>q < 4 * unat nc. sys_mem (core_steps n s') (bundle_word COUNTER_B_BASE_ADDR q) = 271 * of_nat (Suc q))"
proof -
  let ?C = COUNTER_B_BASE_ADDR and ?T = DSPM_BASE_ADDR and ?hw = "bring_hw n"
  let ?code = "counter_code ?C ?T nc"
  let ?P = "\<lambda>m :: words. m (u32_to_addr ?T) = 101 \<and> (\<forall>q < 4 * unat nc. m (bundle_word ?C q) = 271 * of_nat (Suc q))"
  obtain m rest where start: "load_and_start ?hw ISPM_BASE_ADDR PMC_STATUS_ADDR (counter_program ?C ?T nc) s =
      (0, \<lparr>sys_mem = m, sys_core = Some (?code @ rest, rv_reset)\<rparr>)"
    using load_and_start_ok [of "counter_program ?C ?T nc" n s]
    by (auto simp: counter_code_def counter_program_def counter_words_def)
  let ?s = "\<lparr>sys_mem = m, sys_core = Some (?code @ rest, rv_reset)\<rparr>"
  have "rv_reaches core_hw ?code (13 + 11 * unat nc) (rv_reset, m) (\<lambda>c. rv_pc (fst c) = 96 \<and> ?P (snd c))"
  proof (rule rv_reaches_mono [OF counter_run])
    show "\<not> bit ?C 11" "\<not> bit ?T 11"
      by (simp_all add: COUNTER_B_BASE_ADDR_def PMU_B_BASE_ADDR_def PMU_BUNDLE_SIZE_def DSPM_BASE_ADDR_def)
    fix c assume "rv_pc (fst c) = 96 \<and> snd c = wr32 core_hw (u32_to_addr ?T) 101 (fill_bundles core_hw ?C (4 * unat nc) m)"
    then show "rv_pc (fst c) = 96 \<and> ?P (snd c)" using nc by (simp add: fill_value bundle_not_dspm)
  qed (use nc in simp_all)
  then obtain m' where m': "parked ?code 96 m' (core_steps n ?s)" "?P m'"
    using released_parks [OF idle_loops(4), of ?C ?T nc _ m ?P n rest] n by blast
  obtain s1 where s1: "wait_for_target ?hw ?T ?s = Some s1" "parked ?code 96 m' (core_steps n s1)"
    using wait_parked [OF idle_loops(4) m'(1)] m'(2) by blast
  let ?b = "\<lambda>i. u32_to_addr ?C + of_nat i * ucast COUNTER_BUNDLE_SIZE"
  let ?row = "\<lambda>i. let b = ?b i in \<lparr>counter = m' b, event_sel = m' (b + 4), event_info = m' (b + 4 + 4), init_budget = m' (b + 4 + 4 + 4)\<rparr>"
  have "\<exists>s'. read_bundles ?hw (u32_to_addr ?C) COUNTER_BUNDLE_SIZE (unat nc) s1 = (map ?row [0..<unat nc], s') \<and>
      parked ?code 96 m' (core_steps n s')"
    using s1(2) by (intro read_bundles_steady [of "\<lambda>s. parked ?code 96 m' (core_steps n s)"])
      (auto simp: parked_mem parked_steps [OF idle_loops(4)])
  then obtain s2 where s2: "read_bundles ?hw (u32_to_addr ?C) COUNTER_BUNDLE_SIZE (unat nc) s1 = (map ?row [0..<unat nc], s2)"
      "parked ?code 96 m' (core_steps n s2)"
    by blast
  have "counter_write_errors 0 (map ?row [0..<unat nc]) = 0"
  proof (rule counter_write_errors_0)
    fix i assume "i < length (map ?row [0..<unat nc])"
    then have i: "i < unat nc" "i < 32" using nc by simp_all
    have reg: "m' (?b i + 4 * of_nat j) = 271 * of_nat (Suc (4 * i + j))" if "j < 4" for j
      using bundle_registers [OF i(2) that] m'(2) i(1) that by (simp add: COUNTER_BUNDLE_SIZE_def)
    have val: "u32_to_addr (m' (?b i + 4 * of_nat j)) = 271 * of_nat (Suc (4 * i + j))" if "j < 4" for j
      unfolding reg [OF that] using i(2) that by (intro multiple_ucast) simp
    show "u32_to_addr (counter (map ?row [0..<unat nc] ! i)) = 0 + 271 * of_nat (4 * i + 1) \<and>
      u32_to_addr (event_sel (map ?row [0..<unat nc] ! i)) = 0 + 271 * of_nat (4 * i + 2) \<and>
      u32_to_addr (event_info (map ?row [0..<unat nc] ! i)) = 0 + 271 * of_nat (4 * i + 3) \<and>
      u32_to_addr (init_budget (map ?row [0..<unat nc] ! i)) = 0 + 271 * of_nat (4 * i + 4)"
      using val [of 0] val [of 1] val [of 2] val [of 3] i(1) by (simp add: Let_def algebra_simps)
  qed
  then have "test_pmu_core_counter_b_writes ?hw ISPM_BASE_ADDR ?C ?T PMC_STATUS_ADDR nc s = Some (0, s2)"
    using start s1(1) s2(1) by (simp add: test_pmu_core_counter_b_writes_def)
  then show ?thesis using m'(2) parked_mem [OF s2(2)] by auto
qed


lemma test_spm_rand_halted:
  assumes "sys_core s = None" "unat len \<le> 1024" "a = ISPM_BASE_ADDR \<or> a = DSPM_BASE_ADDR"
  shows "\<exists>m. test_spm_rand (bring_hw n) (u32_to_addr a) len s = (0, s\<lparr>sys_mem := m\<rparr>)"
proof -
  have len: "length (rand_vals (u32_to_addr a) len) = unat len" by (simp add: rand_vals_def)
  show ?thesis
    using assms load_program [OF assms(1), of "rand_vals (u32_to_addr a) len" n]
      load_data [OF assms(1), of "rand_vals (u32_to_addr a) len" n] len
    by (auto simp: test_spm_rand_def)
qed

subsection \<open>Properties\<close>

text \<open>C15. 
  The whole bring-up suite passes: with a stopped core, arrays of 2 to 512 words, 1 to 32 counter
  bundles and a core that gets the time its programs need between two accesses of CVA6, every read-back
  agrees, the core has sorted the array when CVA6 first looks, the counter registers hold what the core
  was told to write, and the polling loops end. The result is zero errors.
\<close>

theorem run_pmu_core_test_suite_passes:
  assumes halted: "sys_core s = None" and len: "2 \<le> unat len" "unat len \<le> 512"
    and nc: "0 < unat nc" "unat nc \<le> 32"
    and time: "4 + unat len * (8 * unat len + 5) \<le> n" "13 + 11 * unat nc \<le> n"
  shows "\<exists>s'. run_pmu_core_test_suite (bring_hw n) ISPM_BASE_ADDR COUNTER_B_BASE_ADDR DSPM_BASE_ADDR
    PMC_STATUS_ADDR nc len s = Some (0, s')"
proof -
  let ?hw = "bring_hw n"
  obtain m1 where m1: "test_spm_rand ?hw (u32_to_addr ISPM_BASE_ADDR) len s = (0, s\<lparr>sys_mem := m1\<rparr>)"
    using test_spm_rand_halted [OF halted, of len ISPM_BASE_ADDR n] len by auto
  obtain m2 where m2: "test_spm_rand ?hw (u32_to_addr DSPM_BASE_ADDR) len (s\<lparr>sys_mem := m1\<rparr>) = (0, s\<lparr>sys_mem := m2\<rparr>)"
    using test_spm_rand_halted [of "s\<lparr>sys_mem := m1\<rparr>" len DSPM_BASE_ADDR n] halted len by auto
  obtain s3 where s3: "test_pmu_core_bubble_sort ?hw ISPM_BASE_ADDR DSPM_BASE_ADDR PMC_STATUS_ADDR len
      (s\<lparr>sys_mem := m2\<rparr>) = Some (0, s3)"
    using bubble_sort_test_ok [OF refl len time(1)] by blast
  obtain s4 where "test_pmu_core_counter_b_writes ?hw ISPM_BASE_ADDR COUNTER_B_BASE_ADDR DSPM_BASE_ADDR
      PMC_STATUS_ADDR nc s3 = Some (0, s4)"
    using counter_test_ok [OF nc time(2)] by blast
  then show ?thesis using m1 m2 s3 by (simp add: run_pmu_core_test_suite_def)
qed

theorem run_pmu_core_test_suite_passes_witness:
  "\<exists>s'. run_pmu_core_test_suite (bring_hw 100) ISPM_BASE_ADDR COUNTER_B_BASE_ADDR DSPM_BASE_ADDR
    PMC_STATUS_ADDR 4 3 \<lparr>sys_mem = (\<lambda>_. 0), sys_core = None\<rparr> = Some (0, s')"
  by (rule run_pmu_core_test_suite_passes) simp_all

text \<open>The bubble sort test: the machine program written by CVA6, run by the core, leaves in the data
  memory the sorted array, and the test reports no error.
\<close>

theorem test_pmu_core_bubble_sort_passes:
  assumes "2 \<le> unat len" "unat len \<le> 512" "4 + unat len * (8 * unat len + 5) \<le> n"
  shows "\<exists>s'. test_pmu_core_bubble_sort (bring_hw n) ISPM_BASE_ADDR DSPM_BASE_ADDR PMC_STATUS_ADDR len s = Some (0, s') \<and>
    (\<forall>i < unat len. sys_mem (core_steps n s') (dspm_word i) = sort (rand_vals (u32_to_addr DSPM_BASE_ADDR) len) ! i)"
  using assms by (intro bubble_sort_test_ok) simp_all

theorem test_pmu_core_bubble_sort_passes_witness:
  "\<exists>s'. test_pmu_core_bubble_sort (bring_hw 100) ISPM_BASE_ADDR DSPM_BASE_ADDR PMC_STATUS_ADDR 3
      \<lparr>sys_mem = (\<lambda>_. 7), sys_core = None\<rparr> = Some (0, s') \<and>
    (\<forall>i < unat (3 :: u32). sys_mem (core_steps 100 s') (dspm_word i) =
      sort (rand_vals (u32_to_addr DSPM_BASE_ADDR) 3) ! i)"
  by (rule test_pmu_core_bubble_sort_passes) simp_all

text \<open>C16. 
  The machine program refines the C function: started on an array of 2 to 512 words whose base address
  has bit 11 clear, it reaches its final loop within a quadratic number of instructions, with the array
  that \<open>bubble_sort\<close> computes in place and every other word of memory unchanged.
\<close>

theorem bubble_program_refines_bubble_sort:
  assumes "\<not> bit b 11" "2 \<le> unat len" "unat len \<le> 512" "length xs = unat len"
    and "\<forall>i < unat len. m (cell b i) = xs ! i"
  shows "\<exists>ys. bubble_sort xs = Some ys \<and>
    rv_reaches core_hw (load_code (bubble_program b len)) (4 + unat len * (8 * unat len + 5)) (rv_reset, m)
      (\<lambda>c. rv_pc (fst c) = 68 \<and> (\<forall>i < unat len. snd c (cell b i) = ys ! i) \<and>
        (\<forall>a. a \<notin> cell b ` {..<unat len} \<longrightarrow> snd c a = m a))"
proof -
  have "bubble_sort xs = Some (sort xs)" using assms(2,4) by (intro bubble_sort_is_sort) auto
  moreover have "rv_reaches core_hw (bubble_code b len) (4 + unat len * (8 * unat len + 5)) (rv_reset, m)
      (\<lambda>c. rv_pc (fst c) = 68 \<and> array_at (\<lambda>m a. m a) b (sort xs) (snd c) \<and>
        rest_as UNIV (\<lambda>m a. m a) b (unat len) m (snd c))"
    using sorter.program_sorts [of b len "unat len" xs m] assms by (simp add: array_at_def min_absorb1)
  then have "rv_reaches core_hw (bubble_code b len) (4 + unat len * (8 * unat len + 5)) (rv_reset, m)
      (\<lambda>c. rv_pc (fst c) = 68 \<and> (\<forall>i < unat len. snd c (cell b i) = sort xs ! i) \<and>
        (\<forall>a. a \<notin> cell b ` {..<unat len} \<longrightarrow> snd c a = m a))"
    by (rule rv_reaches_mono) (use assms(4) in \<open>simp_all add: array_at_def rest_as_def\<close>)
  ultimately show ?thesis by (simp add: bubble_code_def)
qed

theorem bubble_program_refines_bubble_sort_witness:
  "\<exists>ys. bubble_sort [9, 9, 9] = Some ys \<and>
    rv_reaches core_hw (load_code (bubble_program 0x1000 3)) (4 + unat (3 :: u32) * (8 * unat (3 :: u32) + 5))
      (rv_reset, \<lambda>_. 9)
      (\<lambda>c. rv_pc (fst c) = 68 \<and> (\<forall>i < unat (3 :: u32). snd c (cell 0x1000 i) = ys ! i) \<and>
        (\<forall>a. a \<notin> cell 0x1000 ` {..<unat (3 :: u32)} \<longrightarrow> snd c a = 9))"
proof (rule bubble_program_refines_bubble_sort)
  show "\<forall>i < unat (3 :: u32). 9 = [9, 9, 9 :: u32] ! i"
  proof (intro allI impI)
    fix i assume "i < unat (3 :: u32)"
    then have "i = 0 \<or> i = 1 \<or> i = 2" by auto
    then show "9 = [9, 9, 9 :: u32] ! i" by auto
  qed
qed simp_all

text \<open>C32. 
  The C function \<open>bubble_sort\<close> returns for every non-empty array, the early exit after a pass without a
  swap included, and leaves a sorted permutation of it.
\<close>

theorem bubble_sort_correct:
  assumes "xs \<noteq> []"
  shows "\<exists>ys. bubble_sort xs = Some ys \<and> sorted ys \<and> mset ys = mset xs"
  using assms by (rule bubble_sort_sorts)

theorem bubble_sort_correct_witness:
  "\<exists>ys. bubble_sort [5, 2, 8, 1] = Some ys \<and> sorted ys \<and> mset ys = mset [5, 2, 8, 1]"
  by (rule bubble_sort_correct) simp

text \<open>The counter test passes: the core writes 271, 542, ... to the registers of all bundles in turn, the
  polling loop sees the target word 101, and every register reads back as expected.
\<close>

theorem test_pmu_core_counter_b_writes_passes:
  assumes "0 < unat nc" "unat nc \<le> 32" "13 + 11 * unat nc \<le> n"
  shows "\<exists>s'. test_pmu_core_counter_b_writes (bring_hw n) ISPM_BASE_ADDR COUNTER_B_BASE_ADDR DSPM_BASE_ADDR
      PMC_STATUS_ADDR nc s = Some (0, s') \<and>
    (\<forall>q < 4 * unat nc. sys_mem (core_steps n s') (bundle_word COUNTER_B_BASE_ADDR q) = 271 * of_nat (Suc q))"
  using assms by (rule counter_test_ok)

theorem test_pmu_core_counter_b_writes_passes_witness:
  "\<exists>s'. test_pmu_core_counter_b_writes (bring_hw 365) ISPM_BASE_ADDR COUNTER_B_BASE_ADDR DSPM_BASE_ADDR
      PMC_STATUS_ADDR 32 \<lparr>sys_mem = (\<lambda>_. 0), sys_core = None\<rparr> = Some (0, s') \<and>
    (\<forall>q < 4 * unat (32 :: u32). sys_mem (core_steps 365 s') (bundle_word COUNTER_B_BASE_ADDR q) =
      271 * of_nat (Suc q))"
  by (rule test_pmu_core_counter_b_writes_passes) simp_all



text \<open>The program of \<open>test_pmu_debug_func\<close> halts the cores 0, 1, ... in this order, and only when all are
  halted resumes them in the same order: its stores on any hardware are exactly these.
\<close>

theorem debug_program_halts_then_resumes:
  assumes "0 < unat nc" "unat nc < 2048" "0 < unat wt" "unat wt < 2048"
  shows "rv_reaches hw (load_code (debug_program nc wt)) (10 + 8 * unat nc + 3 * unat wt) (rv_reset, s)
    (\<lambda>c. rv_pc (fst c) = 84 \<and> snd c =
      for_upto (unat nc) (\<lambda>i. wr32 hw 0x208 (of_nat i)) (for_upto (unat nc) (\<lambda>i. wr32 hw 0x200 (of_nat i)) s))"
  using debug_run [OF assms, of hw s] by (simp add: debug_code_def store_ids_def)

theorem debug_program_halts_then_resumes_witness:
  "rv_reaches core_hw (load_code (debug_program 4 20)) (10 + 8 * unat (4 :: u32) + 3 * unat (20 :: u32)) (rv_reset, \<lambda>_. 0)
    (\<lambda>c. rv_pc (fst c) = 84 \<and> snd c =
      for_upto (unat (4 :: u32)) (\<lambda>i. wr32 core_hw 0x208 (of_nat i))
        (for_upto (unat (4 :: u32)) (\<lambda>i. wr32 core_hw 0x200 (of_nat i)) (\<lambda>_. 0)))"
  by (rule debug_program_halts_then_resumes) simp_all

text \<open>C38. 
  The encoders are right: decoding gives back the instruction with its operands cut to their fields. The
  pair that the tests use to load an address gives the address when its bit 11 is clear, and an address
  4096 too low when it is set, because \<open>addi\<close> sign-extends its immediate.
\<close>

theorem encoders_round_trip:
  "decode (encodeLUI rd imm) = Some (Lui (unat (take_bit 5 rd)) (push_bit 12 imm)) \<and>
   decode (encodeADDI rd rs1 imm) =
     Some (OpImm Add (unat (take_bit 5 rd)) (unat (take_bit 5 rs1)) (sign_extend 12 (take_bit 12 imm))) \<and>
   rv_run hw (load_code [encodeLUI 1 (drop_bit 12 a), encodeADDI 1 1 (a AND 0xFFF)]) 2 (rv_reset, s) =
     Some (\<lparr>rv_pc = 8, rv_regs = (\<lambda>_. 0)(1 := if bit a 11 then a - 0x1000 else a)\<rparr>, s)"
proof -
  have "load_code [encodeLUI 1 (drop_bit 12 a), encodeADDI 1 1 (a AND 0xFFF)] =
      [Some (Lui 1 (push_bit 12 (drop_bit 12 a))), Some (OpImm Add 1 1 (sign_extend 12 (take_bit 12 a)))]"
    by (simp add: load_code_def decode_encodeLUI decode_encodeADDI and_masks)
  then show ?thesis
    using lui_addi_value [of a]
    by (simp add: decode_encodeLUI decode_encodeADDI exec_simps rv_step_def fetch_def rv_reset_def)
qed

text \<open>\<open>read_64b_regs\<close> shifts the upper half by its full width while it is still a 32-bit value, so no read
  of at least one register has a defined result.
\<close>

theorem read_64b_regs_undefined:
  "read_64b_regs hw a n step s = (if n = 0 then Some ([], s) else None)"
  by (cases n) (simp_all add: shl32_def split_beta)

end
