(* ===== verification/Case_Study.thy ===== *)
theory Case_Study
  imports Pmu_Core_Programs
begin

text \<open>
  The two case studies at the end of \<open>pmu_test_func.c\<close>: a machine program that watches the latency of the
  core under analysis and the requests of the interfering cores, and decides which of them to halt. The
  first version stores its decision for CVA6 to compare; the second acts on the debug module.
\<close>

subsection \<open>Case study without the debug module\<close>

definition case_study_words :: "u32 list" where
  "case_study_words =
    [0x33, 0x400f93, 0xf37, 0xf0f13, 0x28f0913, 0xeb7, 0x200e8e93, 0x100093, 0xf2e03, 0x4f2d83, 0x8f2b83, 0xcf2c03,
     0x10f2c83, 0x14f2d03, 0x100093, 0xa13, 0x113, 0x193, 0x18207, 0x118193, 0x18287, 0x520233, 0x118193, 0x18387,
     0x19007, 0x118193, 0x18407, 0x19007, 0x8383b3, 0x18f2403, 0x1cf2483, 0x838433, 0x747463, 0x148493, 0x8f2c23, 0x9f2e23,
     0x24e0533, 0x24e35b3, 0x24d8833, 0x24db8b3, 0x95ea63, 0x959463, 0x856663, 0x493, 0x463, 0x100493, 0x110113, 0x118193,
     0x18507, 0x118193, 0x18587, 0x118193, 0x18607, 0x118193, 0x18687, 0x40b50533, 0x40d60633, 0x3750233, 0x37532b3, 0x3858333,
     0x385b3b3, 0x7282b3, 0x620233, 0x627463, 0x128293, 0x458ee63, 0x589463, 0x4486a63, 0x3960333, 0x39633b3, 0x7282b3, 0x620233,
     0x627463, 0x128293, 0x258ec63, 0x589463, 0x2486863, 0x3a68333, 0x3a6b3b3, 0x7282b3, 0x620233, 0x627463, 0x128293, 0x58ea63,
     0x589463, 0x486663, 0x293, 0x463, 0x100293, 0x2099b3, 0x13a7ab3, 0x2adab3, 0x12c313, 0x6afb33, 0x41b0863, 0x1aca93,
     0x154fb33, 0x5b7b33, 0x1b0863, 0xf3f116e3, 0x21f2223, 0xea0006e3, 0x13a6a33, 0x34f2023, 0x10404237, 0x22283, 0x422303, 0x1009213,
     0x220233, 0x492023, 0x592223, 0x692423, 0xc90913, 0xfc0004e3, 0xfff9c993, 0x13a7a33, 0x34f2023, 0x10404237, 0x22283, 0x422303,
     0x1109213, 0x220233, 0x492023, 0x592223, 0x692423, 0xc90913, 0xf8000ae3]"

definition case_study_dspm_val :: "u32 list" where
  "case_study_dspm_val = [60, 20, 60, 80, 100, 200, 0, 0]"

definition case_study_test_cases :: "u32 list list" where
  "case_study_test_cases =
    [[876, 546, 75000, 50000, 776, 66, 45, 23, 670, 56, 200, 1, 80, 80, 200, 50],
     [6546, 7000, 380000, 420000, 776, 66, 45, 23, 670, 56, 200, 1, 35, 20, 200, 50],
     [240, 120, 20000, 10000, 0, 0, 0, 0, 0, 0, 0, 0, 0, 0, 0, 0],
     [654, 700, 500000, 420000, 776, 66, 45, 23, 670, 56, 200, 1, 80, 57, 200, 50],
     [678, 240, 60000, 22000, 435, 44, 322, 222, 0, 0, 0, 0, 100, 100, 100, 100],
     [678, 240, 60000, 22000, 0, 0, 0, 0, 435, 44, 322, 222, 100, 100, 100, 100],
     [678, 240, 60000, 22000, 435, 44, 322, 222, 100, 100, 100, 100, 0, 0, 0, 0],
     [876, 546, 75000, 50000, 776, 66, 45, 23, 0, 0, 0, 0, 0, 0, 0, 0],
     [876, 546, 75000, 50000, 0, 0, 0, 0, 670, 56, 200, 1, 0, 0, 0, 0],
     [876, 546, 75000, 50000, 0, 0, 0, 0, 0, 0, 0, 0, 135, 80, 200, 50]]"

definition case_study_golden_results :: "u32 list" where
  "case_study_golden_results = [0xe, 0, 0, 0xe, 0xa, 0xc, 0x6, 0x2, 0x4, 0x8]"

definition case_study_program :: "u32 \<Rightarrow> u32 \<Rightarrow> u32 list" where
  "case_study_program num_intf_core dspm_base_addr = case_study_words
     [1 := encodeADDI 31 0 (num_intf_core AND 0xFFF),
      2 := encodeLUI 30 (drop_bit 12 dspm_base_addr),
      3 := encodeADDI 30 30 (dspm_base_addr AND 0xFFF)]"

text \<open>
  One test case: the counters are loaded, the core is released, and CVA6 waits until the program has
  set the word at offset \<open>0x24\<close>; the word at \<open>0x20\<close> is its decision. Then the core is stopped and the
  state of the program is cleared.
\<close>

definition wait_for_flag :: "'s hw \<Rightarrow> u32 \<Rightarrow> 's \<Rightarrow> 's option" where
  "wait_for_flag hw dspm_base_addr s =
     map_option snd (poll_until (read_32b hw (u32_to_addr (dspm_base_addr + 0x24))) (\<lambda>v. v = 1) s)"

definition reset_case :: "'s hw \<Rightarrow> u32 \<Rightarrow> u32 \<Rightarrow> 's \<Rightarrow> 's" where
  "reset_case hw dspm_base_addr pmc_status_base_addr s =
     (let s = write_32b hw (u32_to_addr pmc_status_base_addr) 1 s;
          s = write_32b hw (u32_to_addr (dspm_base_addr + 0x18)) 0 s;
          s = write_32b hw (u32_to_addr (dspm_base_addr + 0x1c)) 0 s;
          s = write_32b hw (u32_to_addr (dspm_base_addr + 0x20)) 0 s
      in write_32b hw (u32_to_addr (dspm_base_addr + 0x24)) 0 s)"

text \<open>The trace of the program is printed and cleared up to the first entry with code 0.\<close>

fun print_trace :: "'s hw \<Rightarrow> nat \<Rightarrow> u32 \<Rightarrow> 's \<Rightarrow> 's" where
  "print_trace hw 0 i s = s"
| "print_trace hw (Suc n) i s =
     (let (code, s) = read_32b hw (u32_to_addr (DSPM_BASE_ADDR + 0x28 + i * 0xc)) s;
          (time_lower, s) = read_32b hw (u32_to_addr (DSPM_BASE_ADDR + 0x2c + i * 0xc)) s;
          (time_upper, s) = read_32b hw (u32_to_addr (DSPM_BASE_ADDR + 0x30 + i * 0xc)) s;
          s = write_32b hw (u32_to_addr (DSPM_BASE_ADDR + 0x28 + i * 0xc)) 0 s;
          s = write_32b hw (u32_to_addr (DSPM_BASE_ADDR + 0x2c + i * 0xc)) 0 s;
          s = write_32b hw (u32_to_addr (DSPM_BASE_ADDR + 0x30 + i * 0xc)) 0 s
      in if code = 0 then s else print_trace hw n (i + 1) s)"

fun case_study_loop ::
    "'s hw \<Rightarrow> u32 \<Rightarrow> u32 \<Rightarrow> u32 \<Rightarrow> u32 \<Rightarrow> bool \<Rightarrow> (u32 list \<times> u32) list \<Rightarrow> 's \<Rightarrow> (u32 \<times> 's) option" where
  "case_study_loop hw dspm_base_addr pmc_status_base_addr counter_base_addr counter_bundle_size PRINT_TRACE [] s = Some (0, s)"
| "case_study_loop hw dspm_base_addr pmc_status_base_addr counter_base_addr counter_bundle_size PRINT_TRACE
       ((vals, golden) # tests) s =
     (let s = write_32b_regs hw (u32_to_addr counter_base_addr) vals counter_bundle_size s;
          s = write_32b hw (u32_to_addr pmc_status_base_addr) 0 s
      in do {
        s \<leftarrow> wait_for_flag hw dspm_base_addr s;
        let (result, s) = read_32b hw (u32_to_addr (dspm_base_addr + 0x20)) s;
        let s = (if PRINT_TRACE then print_trace hw 1000 0 s else s);
        let s = reset_case hw dspm_base_addr pmc_status_base_addr s;
        (error_count, s) \<leftarrow> case_study_loop hw dspm_base_addr pmc_status_base_addr counter_base_addr
          counter_bundle_size PRINT_TRACE tests s;
        Some ((if golden \<noteq> result then 1 else 0) + error_count, s)
      })"

definition test_case_study_without_debug ::
    "'s hw \<Rightarrow> u32 \<Rightarrow> u32 \<Rightarrow> u32 \<Rightarrow> u32 \<Rightarrow> u32 \<Rightarrow> u32 \<Rightarrow> u32 \<Rightarrow> bool \<Rightarrow> 's \<Rightarrow> (u32 \<times> 's) option" where
  "test_case_study_without_debug hw ispm_base_addr dspm_base_addr pmc_status_base_addr counter_base_addr
       counter_bundle_size period_base_addr num_intf_core PRINT_TRACE s =
     (let s = write_32b hw (u32_to_addr pmc_status_base_addr) 1 s;
          (e1, s) = test_spm hw (u32_to_addr ispm_base_addr) (case_study_program num_intf_core dspm_base_addr) s;
          (e2, s) = test_spm hw (u32_to_addr dspm_base_addr) (take 6 case_study_dspm_val) s;
          s = write_32b hw (u32_to_addr period_base_addr) 0xFFFFFFFF s;
          s = write_32b hw (u32_to_addr (period_base_addr + 0x4)) 0xFFFFFFFF s
      in do {
        (errors, s) \<leftarrow> case_study_loop hw dspm_base_addr pmc_status_base_addr counter_base_addr
          counter_bundle_size PRINT_TRACE (zip case_study_test_cases case_study_golden_results) s;
        Some (e1 + e2 + errors, s)
      })"

subsection \<open>Case study with the debug module\<close>

definition case_study_debug_words :: "u32 list" where
  "case_study_debug_words =
    [0x33, 0x400f93, 0xf37, 0xf0f13, 0x28f0913, 0xeb7, 0x200e8e93, 0x100093, 0xf2e03, 0x4f2d83, 0x8f2b83, 0xcf2c03,
     0x10f2c83, 0x14f2d03, 0x100093, 0xa13, 0x113, 0x193, 0x18207, 0x118193, 0x18287, 0x520233, 0x118193, 0x18387,
     0x19007, 0x118193, 0x18407, 0x19007, 0x8383b3, 0x18f2403, 0x1cf2483, 0x838433, 0x747463, 0x148493, 0x8f2c23, 0x9f2e23,
     0x24e0533, 0x24e35b3, 0x24d8833, 0x24db8b3, 0x95ea63, 0x959463, 0x856663, 0x493, 0x463, 0x100493, 0x110113, 0x118193,
     0x18507, 0x118193, 0x18587, 0x118193, 0x18607, 0x118193, 0x18687, 0x40b50533, 0x40d60633, 0x3750233, 0x37532b3, 0x3858333,
     0x385b3b3, 0x7282b3, 0x620233, 0x627463, 0x128293, 0x458ee63, 0x589463, 0x4486a63, 0x3960333, 0x39633b3, 0x7282b3, 0x620233,
     0x627463, 0x128293, 0x258ec63, 0x589463, 0x2486863, 0x3a68333, 0x3a6b3b3, 0x7282b3, 0x620233, 0x627463, 0x128293, 0x58ea63,
     0x589463, 0x486663, 0x293, 0x463, 0x100293, 0x2099b3, 0x13a7ab3, 0x2adab3, 0x12c313, 0x6afb33, 0x41b0863, 0x1aca93,
     0x154fb33, 0x5b7b33, 0x1b0863, 0xf3f116e3, 0x21f2223, 0xea0006e3, 0x13a6a33, 0x2ea023, 0x10404237, 0x22283, 0x422303, 0x1009213,
     0x220233, 0x492023, 0x592223, 0x692423, 0xc90913, 0xfc0004e3, 0xfff9c993, 0x13a7a33, 0x2ea423, 0x10404237, 0x22283, 0x422303,
     0x1109213, 0x220233, 0x492023, 0x592223, 0x692423, 0xc90913, 0xf8000ae3]"

definition case_study_debug_dspm_val :: "u32 list" where
  "case_study_debug_dspm_val = [60, 20, 60, 80, 100, 200, 0, 0]"

definition case_study_debug_test_cases :: "u32 list list" where
  "case_study_debug_test_cases =
    [[876, 546, 75000, 50000, 776, 66, 45, 23, 670, 56, 200, 1, 80, 80, 200, 50],
     [6546, 7000, 380000, 420000, 776, 66, 45, 23, 670, 56, 200, 1, 35, 20, 200, 50],
     [240, 120, 20000, 10000, 0, 0, 0, 0, 0, 0, 0, 0, 0, 0, 0, 0],
     [654, 700, 500000, 420000, 776, 66, 45, 23, 670, 56, 200, 1, 80, 57, 200, 50],
     [678, 240, 60000, 22000, 435, 44, 322, 222, 0, 0, 0, 0, 100, 100, 100, 100],
     [678, 240, 60000, 22000, 0, 0, 0, 0, 435, 44, 322, 222, 100, 100, 100, 100],
     [678, 240, 60000, 22000, 435, 44, 322, 222, 100, 100, 100, 100, 0, 0, 0, 0],
     [876, 546, 75000, 50000, 776, 66, 45, 23, 0, 0, 0, 0, 0, 0, 0, 0],
     [876, 546, 75000, 50000, 0, 0, 0, 0, 670, 56, 200, 1, 0, 0, 0, 0],
     [876, 546, 75000, 50000, 0, 0, 0, 0, 0, 0, 0, 0, 135, 80, 200, 50]]"

definition case_study_debug_golden_results :: "u32 list" where
  "case_study_debug_golden_results = [0xe, 0, 0, 0xe, 0xa, 0xc, 0x6, 0x2, 0x4, 0x8]"

definition case_study_debug_program :: "u32 \<Rightarrow> u32 \<Rightarrow> u32 list" where
  "case_study_debug_program num_intf_core dspm_base_addr = case_study_debug_words
     [1 := encodeADDI 31 0 (num_intf_core AND 0xFFF),
      2 := encodeLUI 30 (drop_bit 12 dspm_base_addr),
      3 := encodeADDI 30 30 (dspm_base_addr AND 0xFFF)]"

fun case_study_debug_loop ::
    "'s hw \<Rightarrow> u32 \<Rightarrow> u32 \<Rightarrow> u32 \<Rightarrow> u32 \<Rightarrow> (u32 list \<times> u32) list \<Rightarrow> 's \<Rightarrow> (u32 \<times> 's) option" where
  "case_study_debug_loop hw dspm_base_addr pmc_status_base_addr counter_base_addr counter_bundle_size [] s = Some (0, s)"
| "case_study_debug_loop hw dspm_base_addr pmc_status_base_addr counter_base_addr counter_bundle_size
       ((vals, golden) # tests) s =
     (let s = write_32b_regs hw (u32_to_addr counter_base_addr) vals counter_bundle_size s;
          s = write_32b hw (u32_to_addr pmc_status_base_addr) 0 s
      in do {
        s \<leftarrow> wait_for_flag hw dspm_base_addr s;
        let (result, s) = read_32b hw (u32_to_addr (dspm_base_addr + 0x20)) s;
        let s = reset_case hw dspm_base_addr pmc_status_base_addr s;
        (error_count, s) \<leftarrow> case_study_debug_loop hw dspm_base_addr pmc_status_base_addr counter_base_addr
          counter_bundle_size tests s;
        Some ((if golden \<noteq> result then 1 else 0) + error_count, s)
      })"

definition test_case_study_with_debug ::
    "'s hw \<Rightarrow> u32 \<Rightarrow> u32 \<Rightarrow> u32 \<Rightarrow> u32 \<Rightarrow> u32 \<Rightarrow> u32 \<Rightarrow> u32 \<Rightarrow> 's \<Rightarrow> (u32 \<times> 's) option" where
  "test_case_study_with_debug hw ispm_base_addr dspm_base_addr pmc_status_base_addr counter_base_addr
       counter_bundle_size period_base_addr num_intf_core s =
     (let s = write_32b hw (u32_to_addr pmc_status_base_addr) 1 s;
          (e1, s) = test_spm hw (u32_to_addr ispm_base_addr) (case_study_debug_program num_intf_core dspm_base_addr) s;
          (e2, s) = test_spm hw (u32_to_addr dspm_base_addr) (take 6 case_study_debug_dspm_val) s;
          s = write_32b hw (u32_to_addr period_base_addr) 0xFFFFFFFF s;
          s = write_32b hw (u32_to_addr (period_base_addr + 0x4)) 0xFFFFFFFF s
      in do {
        (errors, s) \<leftarrow> case_study_debug_loop hw dspm_base_addr pmc_status_base_addr counter_base_addr
          counter_bundle_size (zip case_study_debug_test_cases case_study_debug_golden_results) s;
        Some (e1 + e2 + errors, s)
      })"

end
