(* ===== verification/Wide_Arith.thy ===== *)
theory Wide_Arith
  imports Riscv
begin

text \<open>
  64-bit arithmetic the way the case-study program does it with 32-bit instructions: a product by
  \<open>mul\<close> and \<open>mulhu\<close>, a sum with the carry taken from a comparison, and a comparison of the upper words
  first.
\<close>

definition wide :: "u32 \<Rightarrow> u32 \<Rightarrow> u64" where
  "wide h l = push_bit 32 (ucast h) + ucast l"

definition mul64 :: "u32 \<Rightarrow> u32 \<Rightarrow> u64" where
  "mul64 a b = ucast a * ucast b"

lemma uint_bounds: "0 \<le> uint (x :: u32)" "uint (x :: u32) < 2 ^ 32"
  using unsigned_less [of x, where 'a = int] by simp_all

lemma uint_wide: "uint (wide h l) = 2 ^ 32 * uint h + uint l"
proof -
  have "wide h l = word_of_int (2 ^ 32 * uint h + uint l)"
    by (simp add: wide_def push_bit_eq_mult mult.commute)
  then have "uint (wide h l) = uint (word_of_int (2 ^ 32 * uint h + uint l) :: u64)" by simp
  also have "\<dots> = 2 ^ 32 * uint h + uint l"
    using uint_bounds [of l] uint_bounds [of h] by (simp only: unsigned_of_int) (simp add: take_bit_int_eq_self)
  finally show ?thesis .
qed

lemma wide_less: "wide h l < wide h' l' \<longleftrightarrow> h < h' \<or> h = h' \<and> l < l'"
proof -
  have "2 ^ 32 * a + b < 2 ^ 32 * a' + b' \<longleftrightarrow> a < a' \<or> a = a' \<and> b < b'"
    if "0 \<le> b" "b < 2 ^ 32" "0 \<le> b'" "b' < 2 ^ 32" for a a' b b' :: int
    using that by (cases a a' rule: linorder_cases) simp_all
  from this [of "uint l" "uint l'" "uint h" "uint h'", OF uint_bounds uint_bounds]
  show ?thesis by (simp only: word_less_iff_unsigned [where 'a = int] uint_wide word_uint_eq_iff)
qed

lemma uint_mul64: "uint (mul64 a b) = uint a * uint b"
proof -
  have "uint a * uint b < 2 ^ 32 * 2 ^ 32"
    using uint_bounds [of a] uint_bounds [of b] by (intro mult_strict_mono) simp_all
  moreover have "0 \<le> uint a * uint b" by simp
  moreover have "mul64 a b = word_of_int (uint a * uint b)" by (simp add: mul64_def)
  ultimately show ?thesis by (simp only: unsigned_of_int) (simp add: take_bit_int_eq_self)
qed

lemma wide_mul: "wide (ucast (drop_bit 32 (ucast a * ucast b :: u64))) (a * b) = mul64 a b"
proof -
  let ?p = "uint a * uint b"
  have p: "0 \<le> ?p" "?p < 2 ^ 32 * 2 ^ 32"
    using uint_bounds [of a] uint_bounds [of b] by (simp, intro mult_strict_mono) simp_all
  then have "?p div 2 ^ 32 < 2 ^ 32" by (simp add: div_less_iff_less_mult)
  have "uint (ucast (drop_bit 32 (mul64 a b)) :: u32) = take_bit 32 (drop_bit 32 ?p)"
    using p by (simp only: unsigned_ucast_eq unsigned_drop_bit_eq uint_mul64) (simp add: take_bit_int_eq_self)
  also have "\<dots> = ?p div 2 ^ 32"
    using p \<open>?p div 2 ^ 32 < 2 ^ 32\<close> by (simp add: drop_bit_eq_div take_bit_int_eq_self pos_imp_zdiv_nonneg_iff)
  finally have high: "uint (ucast (drop_bit 32 (mul64 a b)) :: u32) = ?p div 2 ^ 32" .
  have low: "uint (a * b) = ?p mod 2 ^ 32" by (simp add: uint_word_ariths)
  have "uint (wide (ucast (drop_bit 32 (mul64 a b))) (a * b)) = uint (mul64 a b)"
    by (simp only: uint_wide high low uint_mul64 mult_div_mod_eq)
  then show ?thesis by (simp only: word_uint_eq_iff mul64_def)
qed

lemma carry: "(l + l' < (l' :: u32)) \<longleftrightarrow> (uint l + uint l') div 2 ^ 32 = 1"
  "(uint l + uint l') div 2 ^ 32 = 0 \<or> (uint l + uint l') div 2 ^ 32 = (1 :: int)"
proof -
  let ?s = "uint l + uint l'"
  have s: "0 \<le> ?s" "?s < 2 * 2 ^ 32"
    using uint_bounds [of l] uint_bounds [of l'] by simp_all
  have sum: "uint (l + l') = ?s mod 2 ^ 32" by (simp add: uint_word_ariths)
  have div: "t div 2 ^ 32 = (if t < 2 ^ 32 then 0 else 1) \<and> t mod 2 ^ 32 = (if t < 2 ^ 32 then t else t - 2 ^ 32)"
    if "0 \<le> t" "t < 2 * 2 ^ 32" for t :: int
  proof (cases "t < 2 ^ 32")
    case False
    have small: "0 \<le> t - 2 ^ 32" "t - 2 ^ 32 < 2 ^ 32" using False that by simp_all
    have "t div 2 ^ 32 = (t - 2 ^ 32) div 2 ^ 32 + 1" "t mod 2 ^ 32 = (t - 2 ^ 32) mod 2 ^ 32"
      using False by (intro div_pos_geq mod_pos_geq; simp)+
    then have "t div 2 ^ 32 = 1" "t mod 2 ^ 32 = t - 2 ^ 32"
      by (simp_all only: div_pos_pos_trivial [OF small] mod_pos_pos_trivial [OF small] add_0)
    then show ?thesis using False by (simp only: if_False simp_thms)
  qed (use that in simp)
  note split = div [OF s]
  show "?s div 2 ^ 32 = 0 \<or> ?s div 2 ^ 32 = 1" using split by presburger
  show "(l + l' < l') \<longleftrightarrow> ?s div 2 ^ 32 = 1"
  proof (cases "?s < 2 ^ 32")
    case True
    then show ?thesis using split uint_bounds(1) [of l] by (simp add: word_less_iff_unsigned [where 'a = int] sum)
  next
    case False
    then show ?thesis using split uint_bounds(2) [of l] by (simp add: word_less_iff_unsigned [where 'a = int] sum)
  qed
qed

lemma wide_add: "wide (h + h' + (if l + l' < l' then 1 else 0)) (l + l') = wide h l + wide h' l'"
proof -
  let ?s = "uint l + uint l'" and ?H = "uint h + uint h'"
  have "uint (wide (h + h' + (if l + l' < l' then 1 else 0)) (l + l')) = 2 ^ 32 * ((?H + ?s div 2 ^ 32) mod 2 ^ 32) + ?s mod 2 ^ 32"
    using carry [of l l'] by (auto simp: uint_wide uint_word_ariths mod_simps)
  also have "\<dots> = (2 ^ 32 * ?H + ?s) mod (2 ^ 32 * 2 ^ 32)"
  proof -
    have "(2 ^ 32 * a + b) div 2 ^ 32 = a + b div 2 ^ 32" "(2 ^ 32 * a + b) mod 2 ^ 32 = b mod 2 ^ 32" for a b :: int
      by simp_all
    from this [of ?H ?s] show ?thesis by (subst zmod_zmult2_eq) (simp_all only:, simp)
  qed
  also have "\<dots> = uint (wide h l + wide h' l')"
    by (simp add: uint_word_ariths uint_wide algebra_simps)
  finally show ?thesis by (simp only: word_uint_eq_iff)
qed

end
