(* ===== verification/Case_Study_Code.thy ===== *)
theory Case_Study_Code
  imports Case_Study Wide_Arith
begin

text \<open>
  The instructions of the two case-study programs. They differ in one instruction at two places: the
  first version (\<open>v\<close>) stores its decision, the second stores to the debug module.
\<close>

definition policy_code :: "bool \<Rightarrow> u32 \<Rightarrow> u32 \<Rightarrow> instr option list" where
  "policy_code v nc d = load_code (if v then case_study_program nc d else case_study_debug_program nc d)"

lemma policy_code:
  "policy_code v nc d =
    [Some (Op Add 0 0 0),
     Some (OpImm Add 31 0 (sign_extend 12 (take_bit 12 nc))),
     Some (Lui 30 (push_bit 12 (drop_bit 12 d))),
     Some (OpImm Add 30 30 (sign_extend 12 (take_bit 12 d))),
     Some (OpImm Add 18 30 40),
     Some (Lui 29 0x0),
     Some (OpImm Add 29 29 512),
     Some (OpImm Add 1 0 1),
     Some (Lw 28 30 0),
     Some (Lw 27 30 4),
     Some (Lw 23 30 8),
     Some (Lw 24 30 12),
     Some (Lw 25 30 16),
     Some (Lw 26 30 20),
     Some (OpImm Add 1 0 1),
     Some (OpImm Add 20 0 0),
     Some (OpImm Add 2 0 0),
     Some (OpImm Add 3 0 0),
     Some (CntRd 4 3),
     Some (OpImm Add 3 3 1),
     Some (CntRd 5 3),
     Some (Op Add 4 4 5),
     Some (OpImm Add 3 3 1),
     Some (CntRd 7 3),
     Some (CntWr 3 0),
     Some (OpImm Add 3 3 1),
     Some (CntRd 8 3),
     Some (CntWr 3 0),
     Some (Op Add 7 7 8),
     Some (Lw 8 30 24),
     Some (Lw 9 30 28),
     Some (Op Add 8 7 8),
     Some (Branch Bgeu 8 7 8),
     Some (OpImm Add 9 9 1),
     Some (Sw 8 30 24),
     Some (Sw 9 30 28),
     Some (Op Mul 10 28 4),
     Some (Op Mulhu 11 28 4),
     Some (Op Mul 16 27 4),
     Some (Op Mulhu 17 27 4),
     Some (Branch Bltu 11 9 20),
     Some (Branch Bne 11 9 8),
     Some (Branch Bltu 10 8 12),
     Some (OpImm Add 9 0 0),
     Some (Branch Beq 0 0 8),
     Some (OpImm Add 9 0 1),
     Some (OpImm Add 2 2 1),
     Some (OpImm Add 3 3 1),
     Some (CntRd 10 3),
     Some (OpImm Add 3 3 1),
     Some (CntRd 11 3),
     Some (OpImm Add 3 3 1),
     Some (CntRd 12 3),
     Some (OpImm Add 3 3 1),
     Some (CntRd 13 3),
     Some (Op Sub 10 10 11),
     Some (Op Sub 12 12 13),
     Some (Op Mul 4 10 23),
     Some (Op Mulhu 5 10 23),
     Some (Op Mul 6 11 24),
     Some (Op Mulhu 7 11 24),
     Some (Op Add 5 5 7),
     Some (Op Add 4 4 6),
     Some (Branch Bgeu 4 6 8),
     Some (OpImm Add 5 5 1),
     Some (Branch Bltu 17 5 92),
     Some (Branch Bne 17 5 8),
     Some (Branch Bltu 16 4 84),
     Some (Op Mul 6 12 25),
     Some (Op Mulhu 7 12 25),
     Some (Op Add 5 5 7),
     Some (Op Add 4 4 6),
     Some (Branch Bgeu 4 6 8),
     Some (OpImm Add 5 5 1),
     Some (Branch Bltu 17 5 56),
     Some (Branch Bne 17 5 8),
     Some (Branch Bltu 16 4 48),
     Some (Op Mul 6 13 26),
     Some (Op Mulhu 7 13 26),
     Some (Op Add 5 5 7),
     Some (Op Add 4 4 6),
     Some (Branch Bgeu 4 6 8),
     Some (OpImm Add 5 5 1),
     Some (Branch Bltu 17 5 20),
     Some (Branch Bne 17 5 8),
     Some (Branch Bltu 16 4 12),
     Some (OpImm Add 5 0 0),
     Some (Branch Beq 0 0 8),
     Some (OpImm Add 5 0 1),
     Some (Op Sll 19 1 2),
     Some (Op And 21 20 19),
     Some (Op Srl 21 21 2),
     Some (OpImm Xor 6 5 1),
     Some (Op And 22 21 6),
     Some (Branch Beq 22 1 80),
     Some (OpImm Xor 21 21 1),
     Some (Op And 22 9 21),
     Some (Op And 22 22 5),
     Some (Branch Beq 22 1 16),
     Some (Branch Bne 2 31 (- 212)),
     Some (Sw 1 30 36),
     Some (Branch Beq 0 0 (- 340)),
     Some (Op Or 20 20 19),
     Some (if v then Sw 20 30 32 else Sw 2 29 0),
     Some (Lui 4 0x10404000),
     Some (Lw 5 4 0),
     Some (Lw 6 4 4),
     Some (OpImm Sll 4 1 16),
     Some (Op Add 4 4 2),
     Some (Sw 4 18 0),
     Some (Sw 5 18 4),
     Some (Sw 6 18 8),
     Some (OpImm Add 18 18 12),
     Some (Branch Beq 0 0 (- 56)),
     Some (OpImm Xor 19 19 (- 1)),
     Some (Op And 20 20 19),
     Some (if v then Sw 20 30 32 else Sw 2 29 8),
     Some (Lui 4 0x10404000),
     Some (Lw 5 4 0),
     Some (Lw 6 4 4),
     Some (OpImm Sll 4 1 17),
     Some (Op Add 4 4 2),
     Some (Sw 4 18 0),
     Some (Sw 5 18 4),
     Some (Sw 6 18 8),
     Some (OpImm Add 18 18 12),
     Some (Branch Beq 0 0 (- 108))]"
  unfolding policy_code_def load_code_def case_study_program_def case_study_debug_program_def
    case_study_words_def case_study_debug_words_def
  by (simp add: decode_encodeLUI decode_encodeADDI and_masks) (simp add: decode_simps)

lemma policy_at_start:
  "rv_pc r = 0 \<Longrightarrow> rv_step hw (policy_code v nc d) (r, s) = Some (exec hw (Op Add 0 0 0) (r, s))"
  "rv_pc r = 4 \<Longrightarrow> rv_step hw (policy_code v nc d) (r, s) = Some (exec hw (OpImm Add 31 0 (sign_extend 12 (take_bit 12 nc))) (r, s))"
  "rv_pc r = 8 \<Longrightarrow> rv_step hw (policy_code v nc d) (r, s) = Some (exec hw (Lui 30 (push_bit 12 (drop_bit 12 d))) (r, s))"
  "rv_pc r = 12 \<Longrightarrow> rv_step hw (policy_code v nc d) (r, s) = Some (exec hw (OpImm Add 30 30 (sign_extend 12 (take_bit 12 d))) (r, s))"
  "rv_pc r = 16 \<Longrightarrow> rv_step hw (policy_code v nc d) (r, s) = Some (exec hw (OpImm Add 18 30 40) (r, s))"
  "rv_pc r = 20 \<Longrightarrow> rv_step hw (policy_code v nc d) (r, s) = Some (exec hw (Lui 29 0x0) (r, s))"
  "rv_pc r = 24 \<Longrightarrow> rv_step hw (policy_code v nc d) (r, s) = Some (exec hw (OpImm Add 29 29 512) (r, s))"
  "rv_pc r = 28 \<Longrightarrow> rv_step hw (policy_code v nc d) (r, s) = Some (exec hw (OpImm Add 1 0 1) (r, s))"
  "rv_pc r = 32 \<Longrightarrow> rv_step hw (policy_code v nc d) (r, s) = Some (exec hw (Lw 28 30 0) (r, s))"
  "rv_pc r = 36 \<Longrightarrow> rv_step hw (policy_code v nc d) (r, s) = Some (exec hw (Lw 27 30 4) (r, s))"
  "rv_pc r = 40 \<Longrightarrow> rv_step hw (policy_code v nc d) (r, s) = Some (exec hw (Lw 23 30 8) (r, s))"
  "rv_pc r = 44 \<Longrightarrow> rv_step hw (policy_code v nc d) (r, s) = Some (exec hw (Lw 24 30 12) (r, s))"
  "rv_pc r = 48 \<Longrightarrow> rv_step hw (policy_code v nc d) (r, s) = Some (exec hw (Lw 25 30 16) (r, s))"
  "rv_pc r = 52 \<Longrightarrow> rv_step hw (policy_code v nc d) (r, s) = Some (exec hw (Lw 26 30 20) (r, s))"
  "rv_pc r = 56 \<Longrightarrow> rv_step hw (policy_code v nc d) (r, s) = Some (exec hw (OpImm Add 1 0 1) (r, s))"
  "rv_pc r = 60 \<Longrightarrow> rv_step hw (policy_code v nc d) (r, s) = Some (exec hw (OpImm Add 20 0 0) (r, s))"
  by (simp_all add: rv_step_def fetch_def policy_code)

lemma policy_at_latency:
  "rv_pc r = 64 \<Longrightarrow> rv_step hw (policy_code v nc d) (r, s) = Some (exec hw (OpImm Add 2 0 0) (r, s))"
  "rv_pc r = 68 \<Longrightarrow> rv_step hw (policy_code v nc d) (r, s) = Some (exec hw (OpImm Add 3 0 0) (r, s))"
  "rv_pc r = 72 \<Longrightarrow> rv_step hw (policy_code v nc d) (r, s) = Some (exec hw (CntRd 4 3) (r, s))"
  "rv_pc r = 76 \<Longrightarrow> rv_step hw (policy_code v nc d) (r, s) = Some (exec hw (OpImm Add 3 3 1) (r, s))"
  "rv_pc r = 80 \<Longrightarrow> rv_step hw (policy_code v nc d) (r, s) = Some (exec hw (CntRd 5 3) (r, s))"
  "rv_pc r = 84 \<Longrightarrow> rv_step hw (policy_code v nc d) (r, s) = Some (exec hw (Op Add 4 4 5) (r, s))"
  "rv_pc r = 88 \<Longrightarrow> rv_step hw (policy_code v nc d) (r, s) = Some (exec hw (OpImm Add 3 3 1) (r, s))"
  "rv_pc r = 92 \<Longrightarrow> rv_step hw (policy_code v nc d) (r, s) = Some (exec hw (CntRd 7 3) (r, s))"
  "rv_pc r = 96 \<Longrightarrow> rv_step hw (policy_code v nc d) (r, s) = Some (exec hw (CntWr 3 0) (r, s))"
  "rv_pc r = 100 \<Longrightarrow> rv_step hw (policy_code v nc d) (r, s) = Some (exec hw (OpImm Add 3 3 1) (r, s))"
  "rv_pc r = 104 \<Longrightarrow> rv_step hw (policy_code v nc d) (r, s) = Some (exec hw (CntRd 8 3) (r, s))"
  "rv_pc r = 108 \<Longrightarrow> rv_step hw (policy_code v nc d) (r, s) = Some (exec hw (CntWr 3 0) (r, s))"
  "rv_pc r = 112 \<Longrightarrow> rv_step hw (policy_code v nc d) (r, s) = Some (exec hw (Op Add 7 7 8) (r, s))"
  "rv_pc r = 116 \<Longrightarrow> rv_step hw (policy_code v nc d) (r, s) = Some (exec hw (Lw 8 30 24) (r, s))"
  "rv_pc r = 120 \<Longrightarrow> rv_step hw (policy_code v nc d) (r, s) = Some (exec hw (Lw 9 30 28) (r, s))"
  "rv_pc r = 124 \<Longrightarrow> rv_step hw (policy_code v nc d) (r, s) = Some (exec hw (Op Add 8 7 8) (r, s))"
  "rv_pc r = 128 \<Longrightarrow> rv_step hw (policy_code v nc d) (r, s) = Some (exec hw (Branch Bgeu 8 7 8) (r, s))"
  "rv_pc r = 132 \<Longrightarrow> rv_step hw (policy_code v nc d) (r, s) = Some (exec hw (OpImm Add 9 9 1) (r, s))"
  "rv_pc r = 136 \<Longrightarrow> rv_step hw (policy_code v nc d) (r, s) = Some (exec hw (Sw 8 30 24) (r, s))"
  "rv_pc r = 140 \<Longrightarrow> rv_step hw (policy_code v nc d) (r, s) = Some (exec hw (Sw 9 30 28) (r, s))"
  "rv_pc r = 144 \<Longrightarrow> rv_step hw (policy_code v nc d) (r, s) = Some (exec hw (Op Mul 10 28 4) (r, s))"
  "rv_pc r = 148 \<Longrightarrow> rv_step hw (policy_code v nc d) (r, s) = Some (exec hw (Op Mulhu 11 28 4) (r, s))"
  "rv_pc r = 152 \<Longrightarrow> rv_step hw (policy_code v nc d) (r, s) = Some (exec hw (Op Mul 16 27 4) (r, s))"
  "rv_pc r = 156 \<Longrightarrow> rv_step hw (policy_code v nc d) (r, s) = Some (exec hw (Op Mulhu 17 27 4) (r, s))"
  "rv_pc r = 160 \<Longrightarrow> rv_step hw (policy_code v nc d) (r, s) = Some (exec hw (Branch Bltu 11 9 20) (r, s))"
  "rv_pc r = 164 \<Longrightarrow> rv_step hw (policy_code v nc d) (r, s) = Some (exec hw (Branch Bne 11 9 8) (r, s))"
  "rv_pc r = 168 \<Longrightarrow> rv_step hw (policy_code v nc d) (r, s) = Some (exec hw (Branch Bltu 10 8 12) (r, s))"
  "rv_pc r = 172 \<Longrightarrow> rv_step hw (policy_code v nc d) (r, s) = Some (exec hw (OpImm Add 9 0 0) (r, s))"
  "rv_pc r = 176 \<Longrightarrow> rv_step hw (policy_code v nc d) (r, s) = Some (exec hw (Branch Beq 0 0 8) (r, s))"
  "rv_pc r = 180 \<Longrightarrow> rv_step hw (policy_code v nc d) (r, s) = Some (exec hw (OpImm Add 9 0 1) (r, s))"
  by (simp_all add: rv_step_def fetch_def policy_code)

lemma policy_at_reads:
  "rv_pc r = 184 \<Longrightarrow> rv_step hw (policy_code v nc d) (r, s) = Some (exec hw (OpImm Add 2 2 1) (r, s))"
  "rv_pc r = 188 \<Longrightarrow> rv_step hw (policy_code v nc d) (r, s) = Some (exec hw (OpImm Add 3 3 1) (r, s))"
  "rv_pc r = 192 \<Longrightarrow> rv_step hw (policy_code v nc d) (r, s) = Some (exec hw (CntRd 10 3) (r, s))"
  "rv_pc r = 196 \<Longrightarrow> rv_step hw (policy_code v nc d) (r, s) = Some (exec hw (OpImm Add 3 3 1) (r, s))"
  "rv_pc r = 200 \<Longrightarrow> rv_step hw (policy_code v nc d) (r, s) = Some (exec hw (CntRd 11 3) (r, s))"
  "rv_pc r = 204 \<Longrightarrow> rv_step hw (policy_code v nc d) (r, s) = Some (exec hw (OpImm Add 3 3 1) (r, s))"
  "rv_pc r = 208 \<Longrightarrow> rv_step hw (policy_code v nc d) (r, s) = Some (exec hw (CntRd 12 3) (r, s))"
  "rv_pc r = 212 \<Longrightarrow> rv_step hw (policy_code v nc d) (r, s) = Some (exec hw (OpImm Add 3 3 1) (r, s))"
  "rv_pc r = 216 \<Longrightarrow> rv_step hw (policy_code v nc d) (r, s) = Some (exec hw (CntRd 13 3) (r, s))"
  "rv_pc r = 220 \<Longrightarrow> rv_step hw (policy_code v nc d) (r, s) = Some (exec hw (Op Sub 10 10 11) (r, s))"
  "rv_pc r = 224 \<Longrightarrow> rv_step hw (policy_code v nc d) (r, s) = Some (exec hw (Op Sub 12 12 13) (r, s))"
  "rv_pc r = 228 \<Longrightarrow> rv_step hw (policy_code v nc d) (r, s) = Some (exec hw (Op Mul 4 10 23) (r, s))"
  "rv_pc r = 232 \<Longrightarrow> rv_step hw (policy_code v nc d) (r, s) = Some (exec hw (Op Mulhu 5 10 23) (r, s))"
  "rv_pc r = 236 \<Longrightarrow> rv_step hw (policy_code v nc d) (r, s) = Some (exec hw (Op Mul 6 11 24) (r, s))"
  "rv_pc r = 240 \<Longrightarrow> rv_step hw (policy_code v nc d) (r, s) = Some (exec hw (Op Mulhu 7 11 24) (r, s))"
  "rv_pc r = 244 \<Longrightarrow> rv_step hw (policy_code v nc d) (r, s) = Some (exec hw (Op Add 5 5 7) (r, s))"
  "rv_pc r = 248 \<Longrightarrow> rv_step hw (policy_code v nc d) (r, s) = Some (exec hw (Op Add 4 4 6) (r, s))"
  "rv_pc r = 252 \<Longrightarrow> rv_step hw (policy_code v nc d) (r, s) = Some (exec hw (Branch Bgeu 4 6 8) (r, s))"
  "rv_pc r = 256 \<Longrightarrow> rv_step hw (policy_code v nc d) (r, s) = Some (exec hw (OpImm Add 5 5 1) (r, s))"
  by (simp_all add: rv_step_def fetch_def policy_code)

lemma policy_at_next:
  "rv_pc r = 260 \<Longrightarrow> rv_step hw (policy_code v nc d) (r, s) = Some (exec hw (Branch Bltu 17 5 92) (r, s))"
  "rv_pc r = 264 \<Longrightarrow> rv_step hw (policy_code v nc d) (r, s) = Some (exec hw (Branch Bne 17 5 8) (r, s))"
  "rv_pc r = 268 \<Longrightarrow> rv_step hw (policy_code v nc d) (r, s) = Some (exec hw (Branch Bltu 16 4 84) (r, s))"
  "rv_pc r = 272 \<Longrightarrow> rv_step hw (policy_code v nc d) (r, s) = Some (exec hw (Op Mul 6 12 25) (r, s))"
  "rv_pc r = 276 \<Longrightarrow> rv_step hw (policy_code v nc d) (r, s) = Some (exec hw (Op Mulhu 7 12 25) (r, s))"
  "rv_pc r = 280 \<Longrightarrow> rv_step hw (policy_code v nc d) (r, s) = Some (exec hw (Op Add 5 5 7) (r, s))"
  "rv_pc r = 284 \<Longrightarrow> rv_step hw (policy_code v nc d) (r, s) = Some (exec hw (Op Add 4 4 6) (r, s))"
  "rv_pc r = 288 \<Longrightarrow> rv_step hw (policy_code v nc d) (r, s) = Some (exec hw (Branch Bgeu 4 6 8) (r, s))"
  "rv_pc r = 292 \<Longrightarrow> rv_step hw (policy_code v nc d) (r, s) = Some (exec hw (OpImm Add 5 5 1) (r, s))"
  "rv_pc r = 296 \<Longrightarrow> rv_step hw (policy_code v nc d) (r, s) = Some (exec hw (Branch Bltu 17 5 56) (r, s))"
  "rv_pc r = 300 \<Longrightarrow> rv_step hw (policy_code v nc d) (r, s) = Some (exec hw (Branch Bne 17 5 8) (r, s))"
  "rv_pc r = 304 \<Longrightarrow> rv_step hw (policy_code v nc d) (r, s) = Some (exec hw (Branch Bltu 16 4 48) (r, s))"
  "rv_pc r = 308 \<Longrightarrow> rv_step hw (policy_code v nc d) (r, s) = Some (exec hw (Op Mul 6 13 26) (r, s))"
  "rv_pc r = 312 \<Longrightarrow> rv_step hw (policy_code v nc d) (r, s) = Some (exec hw (Op Mulhu 7 13 26) (r, s))"
  "rv_pc r = 316 \<Longrightarrow> rv_step hw (policy_code v nc d) (r, s) = Some (exec hw (Op Add 5 5 7) (r, s))"
  "rv_pc r = 320 \<Longrightarrow> rv_step hw (policy_code v nc d) (r, s) = Some (exec hw (Op Add 4 4 6) (r, s))"
  "rv_pc r = 324 \<Longrightarrow> rv_step hw (policy_code v nc d) (r, s) = Some (exec hw (Branch Bgeu 4 6 8) (r, s))"
  "rv_pc r = 328 \<Longrightarrow> rv_step hw (policy_code v nc d) (r, s) = Some (exec hw (OpImm Add 5 5 1) (r, s))"
  "rv_pc r = 332 \<Longrightarrow> rv_step hw (policy_code v nc d) (r, s) = Some (exec hw (Branch Bltu 17 5 20) (r, s))"
  "rv_pc r = 336 \<Longrightarrow> rv_step hw (policy_code v nc d) (r, s) = Some (exec hw (Branch Bne 17 5 8) (r, s))"
  "rv_pc r = 340 \<Longrightarrow> rv_step hw (policy_code v nc d) (r, s) = Some (exec hw (Branch Bltu 16 4 12) (r, s))"
  "rv_pc r = 344 \<Longrightarrow> rv_step hw (policy_code v nc d) (r, s) = Some (exec hw (OpImm Add 5 0 0) (r, s))"
  "rv_pc r = 348 \<Longrightarrow> rv_step hw (policy_code v nc d) (r, s) = Some (exec hw (Branch Beq 0 0 8) (r, s))"
  "rv_pc r = 352 \<Longrightarrow> rv_step hw (policy_code v nc d) (r, s) = Some (exec hw (OpImm Add 5 0 1) (r, s))"
  "rv_pc r = 356 \<Longrightarrow> rv_step hw (policy_code v nc d) (r, s) = Some (exec hw (Op Sll 19 1 2) (r, s))"
  "rv_pc r = 360 \<Longrightarrow> rv_step hw (policy_code v nc d) (r, s) = Some (exec hw (Op And 21 20 19) (r, s))"
  "rv_pc r = 364 \<Longrightarrow> rv_step hw (policy_code v nc d) (r, s) = Some (exec hw (Op Srl 21 21 2) (r, s))"
  "rv_pc r = 368 \<Longrightarrow> rv_step hw (policy_code v nc d) (r, s) = Some (exec hw (OpImm Xor 6 5 1) (r, s))"
  "rv_pc r = 372 \<Longrightarrow> rv_step hw (policy_code v nc d) (r, s) = Some (exec hw (Op And 22 21 6) (r, s))"
  "rv_pc r = 376 \<Longrightarrow> rv_step hw (policy_code v nc d) (r, s) = Some (exec hw (Branch Beq 22 1 80) (r, s))"
  "rv_pc r = 380 \<Longrightarrow> rv_step hw (policy_code v nc d) (r, s) = Some (exec hw (OpImm Xor 21 21 1) (r, s))"
  "rv_pc r = 384 \<Longrightarrow> rv_step hw (policy_code v nc d) (r, s) = Some (exec hw (Op And 22 9 21) (r, s))"
  "rv_pc r = 388 \<Longrightarrow> rv_step hw (policy_code v nc d) (r, s) = Some (exec hw (Op And 22 22 5) (r, s))"
  "rv_pc r = 392 \<Longrightarrow> rv_step hw (policy_code v nc d) (r, s) = Some (exec hw (Branch Beq 22 1 16) (r, s))"
  "rv_pc r = 396 \<Longrightarrow> rv_step hw (policy_code v nc d) (r, s) = Some (exec hw (Branch Bne 2 31 (- 212)) (r, s))"
  "rv_pc r = 400 \<Longrightarrow> rv_step hw (policy_code v nc d) (r, s) = Some (exec hw (Sw 1 30 36) (r, s))"
  "rv_pc r = 404 \<Longrightarrow> rv_step hw (policy_code v nc d) (r, s) = Some (exec hw (Branch Beq 0 0 (- 340)) (r, s))"
  by (simp_all add: rv_step_def fetch_def policy_code)

lemma policy_at_actions:
  "rv_pc r = 408 \<Longrightarrow> rv_step hw (policy_code v nc d) (r, s) = Some (exec hw (Op Or 20 20 19) (r, s))"
  "rv_pc r = 412 \<Longrightarrow> rv_step hw (policy_code v nc d) (r, s) = Some (exec hw (if v then Sw 20 30 32 else Sw 2 29 0) (r, s))"
  "rv_pc r = 416 \<Longrightarrow> rv_step hw (policy_code v nc d) (r, s) = Some (exec hw (Lui 4 0x10404000) (r, s))"
  "rv_pc r = 420 \<Longrightarrow> rv_step hw (policy_code v nc d) (r, s) = Some (exec hw (Lw 5 4 0) (r, s))"
  "rv_pc r = 424 \<Longrightarrow> rv_step hw (policy_code v nc d) (r, s) = Some (exec hw (Lw 6 4 4) (r, s))"
  "rv_pc r = 428 \<Longrightarrow> rv_step hw (policy_code v nc d) (r, s) = Some (exec hw (OpImm Sll 4 1 16) (r, s))"
  "rv_pc r = 432 \<Longrightarrow> rv_step hw (policy_code v nc d) (r, s) = Some (exec hw (Op Add 4 4 2) (r, s))"
  "rv_pc r = 436 \<Longrightarrow> rv_step hw (policy_code v nc d) (r, s) = Some (exec hw (Sw 4 18 0) (r, s))"
  "rv_pc r = 440 \<Longrightarrow> rv_step hw (policy_code v nc d) (r, s) = Some (exec hw (Sw 5 18 4) (r, s))"
  "rv_pc r = 444 \<Longrightarrow> rv_step hw (policy_code v nc d) (r, s) = Some (exec hw (Sw 6 18 8) (r, s))"
  "rv_pc r = 448 \<Longrightarrow> rv_step hw (policy_code v nc d) (r, s) = Some (exec hw (OpImm Add 18 18 12) (r, s))"
  "rv_pc r = 452 \<Longrightarrow> rv_step hw (policy_code v nc d) (r, s) = Some (exec hw (Branch Beq 0 0 (- 56)) (r, s))"
  "rv_pc r = 456 \<Longrightarrow> rv_step hw (policy_code v nc d) (r, s) = Some (exec hw (OpImm Xor 19 19 (- 1)) (r, s))"
  "rv_pc r = 460 \<Longrightarrow> rv_step hw (policy_code v nc d) (r, s) = Some (exec hw (Op And 20 20 19) (r, s))"
  "rv_pc r = 464 \<Longrightarrow> rv_step hw (policy_code v nc d) (r, s) = Some (exec hw (if v then Sw 20 30 32 else Sw 2 29 8) (r, s))"
  "rv_pc r = 468 \<Longrightarrow> rv_step hw (policy_code v nc d) (r, s) = Some (exec hw (Lui 4 0x10404000) (r, s))"
  "rv_pc r = 472 \<Longrightarrow> rv_step hw (policy_code v nc d) (r, s) = Some (exec hw (Lw 5 4 0) (r, s))"
  "rv_pc r = 476 \<Longrightarrow> rv_step hw (policy_code v nc d) (r, s) = Some (exec hw (Lw 6 4 4) (r, s))"
  "rv_pc r = 480 \<Longrightarrow> rv_step hw (policy_code v nc d) (r, s) = Some (exec hw (OpImm Sll 4 1 17) (r, s))"
  "rv_pc r = 484 \<Longrightarrow> rv_step hw (policy_code v nc d) (r, s) = Some (exec hw (Op Add 4 4 2) (r, s))"
  "rv_pc r = 488 \<Longrightarrow> rv_step hw (policy_code v nc d) (r, s) = Some (exec hw (Sw 4 18 0) (r, s))"
  "rv_pc r = 492 \<Longrightarrow> rv_step hw (policy_code v nc d) (r, s) = Some (exec hw (Sw 5 18 4) (r, s))"
  "rv_pc r = 496 \<Longrightarrow> rv_step hw (policy_code v nc d) (r, s) = Some (exec hw (Sw 6 18 8) (r, s))"
  "rv_pc r = 500 \<Longrightarrow> rv_step hw (policy_code v nc d) (r, s) = Some (exec hw (OpImm Add 18 18 12) (r, s))"
  "rv_pc r = 504 \<Longrightarrow> rv_step hw (policy_code v nc d) (r, s) = Some (exec hw (Branch Beq 0 0 (- 108)) (r, s))"
  by (simp_all add: rv_step_def fetch_def policy_code)


end
