(* ===== verification/Case_Study_Policy.thy ===== *)
theory Case_Study_Policy
  imports Case_Study_Code
begin

text \<open>
  The parts of a round of the case-study programs, run instruction by instruction: the latency of the core
  under analysis against its limit, the delay that one interfering core may have caused against the
  budget, and the two actions. The hardware of the program is its counters and the words of its memories.
\<close>

subsection \<open>The machine and the weighted sums\<close>

definition policy_hw :: "((u32 \<Rightarrow> u32) \<times> words) hw" where
  "policy_hw = \<lparr>rd32 = (\<lambda>a s. (snd s a, s)), wr32 = (\<lambda>a v s. (fst s, (snd s)(a := v))),
     rd64 = (\<lambda>a s. (ucast (snd s a), s)), wr64 = (\<lambda>a v s. s), wr8 = (\<lambda>a v s. s),
     csr_rd = (\<lambda>r s. (0, s)), csr_wr = (\<lambda>r v s. s),
     cnt_rd = (\<lambda>i s. (fst s i, s)), cnt_wr = (\<lambda>i v s. ((fst s)(i := v), snd s)), fence = (\<lambda>s. s)\<rparr>"

lemma policy_hw_simps [simp]:
  "rd32 policy_hw a (c, m) = (m a, (c, m))" "wr32 policy_hw a v (c, m) = (c, m(a := v))"
  "cnt_rd policy_hw i (c, m) = (c i, (c, m))" "cnt_wr policy_hw i v (c, m) = (c(i := v), m)"
  by (simp_all add: policy_hw_def)

definition keeps :: "rv \<Rightarrow> rv \<Rightarrow> bool" where
  "keeps r r' \<longleftrightarrow> (\<forall>i \<in> {1, 9, 16, 17, 18, 20, 23, 24, 25, 26, 27, 28, 29, 30, 31}. rv_regs r' i = rv_regs r i)"

lemma first_sum:
  assumes "rv_pc r = 184"
    and x: "x = rv_regs r 3" and ab: "a = c (x + 1)" "b = c (x + 2)"
  shows "\<exists>k r'. k \<le> 19 \<and> rv_run policy_hw (policy_code v nc d) k (r, (c, m)) = Some (r', (c, m)) \<and> rv_pc r' = 260 \<and>
    wide (rv_regs r' 5) (rv_regs r' 4) = mul64 (a - b) (rv_regs r 23) + mul64 b (rv_regs r 24) \<and>
    rv_regs r' 2 = rv_regs r 2 + 1 \<and> rv_regs r' 3 = x + 4 \<and>
    rv_regs r' 12 = c (x + 3) - c (x + 4) \<and> rv_regs r' 13 = c (x + 4) \<and> keeps r r'"
proof -
  let ?l1 = "(a - b) * rv_regs r 23" and ?l2 = "b * rv_regs r 24"
  let ?h = "\<lambda>x y. ucast (drop_bit 32 (ucast x * ucast y :: u64)) :: u32"
  let ?h1 = "?h (a - b) (rv_regs r 23)" and ?h2 = "?h b (rv_regs r 24)"
  have "\<exists>k r'. k \<le> 19 \<and> rv_run policy_hw (policy_code v nc d) k (r, (c, m)) = Some (r', (c, m)) \<and> rv_pc r' = 260 \<and>
      rv_regs r' 4 = ?l1 + ?l2 \<and> rv_regs r' 5 = ?h1 + ?h2 + (if ?l1 + ?l2 < ?l2 then 1 else 0) \<and>
      rv_regs r' 2 = rv_regs r 2 + 1 \<and> rv_regs r' 3 = x + 4 \<and>
      rv_regs r' 12 = c (x + 3) - c (x + 4) \<and> rv_regs r' 13 = c (x + 4) \<and> keeps r r'"
  proof (cases "?l1 + ?l2 < ?l2")
    case True
    show ?thesis
      apply (rule exI [of _ 19])
      using assms(1) True by (simp add: ab x exec_simps policy_at_reads keeps_def add.assoc not_le)
  next
    case False
    show ?thesis
      apply (rule exI [of _ 18])
      using assms(1) False by (simp add: ab x exec_simps policy_at_reads keeps_def add.assoc not_le)
  qed
  then show ?thesis
    by (elim exE conjE) (intro exI conjI, assumption+, simp_all add: wide_add wide_mul)
qed


text \<open>The comparison of a sum with the budget, three times in the program.\<close>

lemma compare_sum:
  assumes "rv_pc r = p" "p = 260 \<or> p = 296 \<or> p = 332"
  shows "\<exists>k. k \<le> 3 \<and> rv_run policy_hw (policy_code v nc d) k (r, s) =
    Some (r\<lparr>rv_pc := if wide (rv_regs r 17) (rv_regs r 16) < wide (rv_regs r 5) (rv_regs r 4)
      then 352 else p + 12\<rparr>, s)"
proof -
  consider "rv_regs r 17 < rv_regs r 5" | "rv_regs r 5 < rv_regs r 17" | "rv_regs r 17 = rv_regs r 5"
    by (rule linorder_cases)
  then show ?thesis
  proof cases
    case 1
    then show ?thesis using assms
      by (intro exI [of _ 1]) (elim disjE; simp add: wide_less exec_simps policy_at_next)
  next
    case 2
    then have "rv_regs r 17 \<noteq> rv_regs r 5" "\<not> rv_regs r 17 < rv_regs r 5" by auto
    then show ?thesis using assms
      by (intro exI [of _ 2]) (elim disjE; simp add: wide_less exec_simps policy_at_next)
  next
    case 3
    then show ?thesis using assms
      by (intro exI [of _ 3]) (elim disjE; simp add: wide_less exec_simps policy_at_next)
  qed
qed

text \<open>The next product is added to the sum, the upper words with the carry.\<close>

lemma second_sum:
  assumes "rv_pc r = 272"
  shows "\<exists>k r'. k \<le> 6 \<and> rv_run policy_hw (policy_code v nc d) k (r, s) = Some (r', s) \<and> rv_pc r' = 296 \<and>
    wide (rv_regs r' 5) (rv_regs r' 4) = wide (rv_regs r 5) (rv_regs r 4) + mul64 (rv_regs r 12) (rv_regs r 25) \<and>
    (\<forall>i \<in> {2, 3, 12, 13}. rv_regs r' i = rv_regs r i) \<and> keeps r r'"
proof -
  let ?l2 = "rv_regs r 12 * rv_regs r 25"
  let ?h2 = "ucast (drop_bit 32 (ucast (rv_regs r 12) * ucast (rv_regs r 25) :: u64)) :: u32"
  have "\<exists>k r'. k \<le> 6 \<and> rv_run policy_hw (policy_code v nc d) k (r, s) = Some (r', s) \<and> rv_pc r' = 296 \<and>
      rv_regs r' 4 = rv_regs r 4 + ?l2 \<and>
      rv_regs r' 5 = rv_regs r 5 + ?h2 + (if rv_regs r 4 + ?l2 < ?l2 then 1 else 0) \<and>
      (\<forall>i \<in> {2, 3, 12, 13}. rv_regs r' i = rv_regs r i) \<and> keeps r r'"
  proof (cases "rv_regs r 4 + ?l2 < ?l2")
    case True
    show ?thesis
      by (rule exI [of _ 6]) (use assms True in \<open>simp add: exec_simps policy_at_next keeps_def not_le\<close>)
  next
    case False
    show ?thesis
      by (rule exI [of _ 5]) (use assms False in \<open>simp add: exec_simps policy_at_next keeps_def not_le\<close>)
  qed
  then show ?thesis
    by (elim exE conjE) (intro exI conjI, assumption+, simp_all add: wide_add wide_mul)
qed

lemma third_sum:
  assumes "rv_pc r = 308"
  shows "\<exists>k r'. k \<le> 6 \<and> rv_run policy_hw (policy_code v nc d) k (r, s) = Some (r', s) \<and> rv_pc r' = 332 \<and>
    wide (rv_regs r' 5) (rv_regs r' 4) = wide (rv_regs r 5) (rv_regs r 4) + mul64 (rv_regs r 13) (rv_regs r 26) \<and>
    (\<forall>i \<in> {2, 3, 12, 13}. rv_regs r' i = rv_regs r i) \<and> keeps r r'"
proof -
  let ?l2 = "rv_regs r 13 * rv_regs r 26"
  let ?h2 = "ucast (drop_bit 32 (ucast (rv_regs r 13) * ucast (rv_regs r 26) :: u64)) :: u32"
  have "\<exists>k r'. k \<le> 6 \<and> rv_run policy_hw (policy_code v nc d) k (r, s) = Some (r', s) \<and> rv_pc r' = 332 \<and>
      rv_regs r' 4 = rv_regs r 4 + ?l2 \<and>
      rv_regs r' 5 = rv_regs r 5 + ?h2 + (if rv_regs r 4 + ?l2 < ?l2 then 1 else 0) \<and>
      (\<forall>i \<in> {2, 3, 12, 13}. rv_regs r' i = rv_regs r i) \<and> keeps r r'"
  proof (cases "rv_regs r 4 + ?l2 < ?l2")
    case True
    show ?thesis
      by (rule exI [of _ 6]) (use assms True in \<open>simp add: exec_simps policy_at_next keeps_def not_le\<close>)
  next
    case False
    show ?thesis
      by (rule exI [of _ 5]) (use assms False in \<open>simp add: exec_simps policy_at_next keeps_def not_le\<close>)
  qed
  then show ?thesis
    by (elim exE conjE) (intro exI conjI, assumption+, simp_all add: wide_add wide_mul)
qed

lemma flag_set:
  assumes "rv_pc r = 352"
  shows "\<exists>r'. rv_run policy_hw (policy_code v nc d) 1 (r, s) = Some (r', s) \<and> rv_pc r' = 356 \<and> rv_regs r' 5 = 1 \<and>
    (\<forall>i \<in> {2, 3}. rv_regs r' i = rv_regs r i) \<and> keeps r r'"
  using assms by (simp add: exec_simps policy_at_next keeps_def)

lemma flag_clear:
  assumes "rv_pc r = 344"
  shows "\<exists>r'. rv_run policy_hw (policy_code v nc d) 2 (r, s) = Some (r', s) \<and> rv_pc r' = 356 \<and> rv_regs r' 5 = 0 \<and>
    (\<forall>i \<in> {2, 3}. rv_regs r' i = rv_regs r i) \<and> keeps r r'"
  using assms by (simp add: exec_simps policy_at_next keeps_def)


subsection \<open>One interfering core\<close>

text \<open>The delay the core may have caused, as a partial sum at a time, against the budget.\<close>

definition exceeds :: "u64 \<Rightarrow> u32 \<times> u32 \<times> u32 \<times> u32 \<Rightarrow> u32 \<Rightarrow> u32 \<Rightarrow> u32 \<Rightarrow> u32 \<Rightarrow> bool" where
  "exceeds budget w a b e f = (case w of (rh, rm, wh, wm) \<Rightarrow>
     (let s1 = mul64 (a - b) rh + mul64 b rm;
          s2 = s1 + mul64 (e - f) wh;
          s3 = s2 + mul64 f wm
      in budget < s1 \<or> budget < s2 \<or> budget < s3))"

lemma keeps_trans: "keeps r r' \<Longrightarrow> keeps r' r'' \<Longrightarrow> keeps r r''"
  by (simp add: keeps_def)

lemma keeps_pc [simp]: "keeps r (r'\<lparr>rv_pc := p\<rparr>) = keeps r r'"
  by (simp add: keeps_def)

lemma core_delay:
  assumes "rv_pc r = 184" and x: "x = rv_regs r 3"
    and "w = (rv_regs r 23, rv_regs r 24, rv_regs r 25, rv_regs r 26)"
    and "budget = wide (rv_regs r 17) (rv_regs r 16)"
    and ex: "ex = exceeds budget w (c (x + 1)) (c (x + 2)) (c (x + 3)) (c (x + 4))"
  shows "rv_reaches policy_hw (policy_code v nc d) 42 (r, (c, m)) (\<lambda>(r', s'). s' = (c, m) \<and> rv_pc r' = 356 \<and>
    rv_regs r' 2 = rv_regs r 2 + 1 \<and> rv_regs r' 3 = x + 4 \<and> rv_regs r' 5 = (if ex then 1 else 0) \<and> keeps r r')"
    (is "rv_reaches _ ?code _ _ ?P")
proof -
  let ?s = "(c, m)"
  let ?s1 = "mul64 (c (x + 1) - c (x + 2)) (rv_regs r 23) + mul64 (c (x + 2)) (rv_regs r 24)"
  let ?s2 = "?s1 + mul64 (c (x + 3) - c (x + 4)) (rv_regs r 25)"
  let ?s3 = "?s2 + mul64 (c (x + 4)) (rv_regs r 26)"
  have ex': "ex \<longleftrightarrow> budget < ?s1 \<or> budget < ?s2 \<or> budget < ?s3"
    using assms(3) by (simp add: ex exceeds_def Let_def)
  let ?mid = "\<lambda>p S (r', s'). s' = ?s \<and> rv_pc r' = p \<and> wide (rv_regs r' 5) (rv_regs r' 4) = S \<and>
      rv_regs r' 2 = rv_regs r 2 + 1 \<and> rv_regs r' 3 = x + 4 \<and>
      rv_regs r' 12 = c (x + 3) - c (x + 4) \<and> rv_regs r' 13 = c (x + 4) \<and> keeps r r'"
  have set: "rv_reaches policy_hw ?code 1 (r', ?s) ?P"
    if "ex" "rv_pc r' = 352" "rv_regs r' 2 = rv_regs r 2 + 1" "rv_regs r' 3 = x + 4" "keeps r r'" for r'
    using flag_set [OF that(2), of v nc d ?s] that(1,3-5)
    by (elim exE conjE) (rule rv_reachesI, assumption, auto intro: keeps_trans)
  have clear: "rv_reaches policy_hw ?code 2 (r', ?s) ?P"
    if "\<not> ex" "rv_pc r' = 344" "rv_regs r' 2 = rv_regs r 2 + 1" "rv_regs r' 3 = x + 4" "keeps r r'" for r'
    using flag_clear [OF that(2), of v nc d ?s] that(1,3-5)
    by (elim exE conjE) (rule rv_reachesI, assumption, auto intro: keeps_trans)
  have compare: "rv_reaches policy_hw ?code (3 + n) c' ?P"
    if mid: "?mid p S c'" and p: "p = 260 \<or> p = 296 \<or> p = 332"
      and above: "\<And>r'. budget < S \<Longrightarrow> ?mid 352 S (r', ?s) \<Longrightarrow> rv_reaches policy_hw ?code n (r', ?s) ?P"
      and below: "\<And>r'. \<not> budget < S \<Longrightarrow> ?mid (p + 12) S (r', ?s) \<Longrightarrow> rv_reaches policy_hw ?code n (r', ?s) ?P" for p S c' n
  proof -
    obtain r' where c': "c' = (r', ?s)" using mid by (cases c') auto
    have pc: "rv_pc r' = p" and bud: "wide (rv_regs r' 17) (rv_regs r' 16) = budget"
        and S: "wide (rv_regs r' 5) (rv_regs r' 4) = S"
      using mid assms(4) by (auto simp: c' keeps_def)
    obtain k where k: "k \<le> 3" "rv_run policy_hw ?code k c' =
        Some (r'\<lparr>rv_pc := if budget < S then 352 else p + 12\<rparr>, ?s)"
      using compare_sum [OF pc p, of v nc d ?s] by (auto simp: c' bud S)
    have "rv_reaches policy_hw ?code n (r'\<lparr>rv_pc := if budget < S then 352 else p + 12\<rparr>, ?s) ?P"
      using above [of "r'\<lparr>rv_pc := 352\<rparr>"] below [of "r'\<lparr>rv_pc := p + 12\<rparr>"] mid by (auto simp: c')
    then show ?thesis using k rv_reachesI [where P = "\<lambda>c. c = (r'\<lparr>rv_pc := if budget < S then 352 else p + 12\<rparr>, ?s)", OF k(2,1)]
      by (auto intro: rv_reaches_trans)
  qed
  have set2: "rv_reaches policy_hw ?code n (r', ?s) ?P" if "0 < n" "ex" "?mid 352 S (r', ?s)" for n S r'
  proof -
    have "rv_reaches policy_hw ?code 1 (r', ?s) ?P" using that by (intro set) auto
    then show ?thesis using that(1) by (auto intro: rv_reaches_mono)
  qed
  have third: "rv_reaches policy_hw ?code 5 c' ?P" if "\<not> budget < ?s1" "\<not> budget < ?s2" "?mid 332 ?s3 c'" for c'
  proof -
    have "rv_reaches policy_hw ?code (3 + 2) c' ?P"
    proof (rule compare [OF that(3)])
      fix r' assume "\<not> budget < ?s3" "?mid (332 + 12) ?s3 (r', ?s)"
      then show "rv_reaches policy_hw ?code 2 (r', ?s) ?P" using that ex' by (intro clear) auto
    next
      fix r' assume "budget < ?s3" and mid: "?mid 352 ?s3 (r', ?s)"
      then have ex by (simp add: ex')
      with mid show "rv_reaches policy_hw ?code 2 (r', ?s) ?P" by (intro set2 [where S = ?s3]) simp_all
    qed simp
    then show ?thesis by simp
  qed
  have second: "rv_reaches policy_hw ?code 14 c' ?P" if "\<not> budget < ?s1" "?mid 296 ?s2 c'" for c'
  proof -
    have "rv_reaches policy_hw ?code (3 + 11) c' ?P"
    proof (rule compare [OF that(2)])
      fix r' assume low: "\<not> budget < ?s2" and mid: "?mid (296 + 12) ?s2 (r', ?s)"
      then have "rv_pc r' = 308" by simp
      from third_sum [OF this, of v nc d ?s]
      have "rv_reaches policy_hw ?code 6 (r', ?s) (?mid 332 ?s3)"
        by (elim exE conjE) (rule rv_reachesI, assumption, use mid in \<open>auto simp: keeps_def\<close>)
      then have "rv_reaches policy_hw ?code (6 + 5) (r', ?s) ?P"
        by (rule rv_reaches_trans) (rule third [OF that(1) low])
      then show "rv_reaches policy_hw ?code 11 (r', ?s) ?P" by simp
    next
      fix r' assume "budget < ?s2" and mid: "?mid 352 ?s2 (r', ?s)"
      then have ex by (simp add: ex')
      with mid show "rv_reaches policy_hw ?code 11 (r', ?s) ?P" by (intro set2 [where S = ?s2]) simp_all
    qed simp
    then show ?thesis by simp
  qed
  have first: "rv_reaches policy_hw ?code 23 c' ?P" if "?mid 260 ?s1 c'" for c'
  proof -
    have "rv_reaches policy_hw ?code (3 + 20) c' ?P"
    proof (rule compare [OF that])
      fix r' assume low: "\<not> budget < ?s1" and mid: "?mid (260 + 12) ?s1 (r', ?s)"
      then have "rv_pc r' = 272" by simp
      from second_sum [OF this, of v nc d ?s]
      have "rv_reaches policy_hw ?code 6 (r', ?s) (?mid 296 ?s2)"
        by (elim exE conjE) (rule rv_reachesI, assumption, use mid in \<open>auto simp: keeps_def\<close>)
      then have "rv_reaches policy_hw ?code (6 + 14) (r', ?s) ?P"
        by (rule rv_reaches_trans) (rule second [OF low])
      then show "rv_reaches policy_hw ?code 20 (r', ?s) ?P" by simp
    next
      fix r' assume "budget < ?s1" and mid: "?mid 352 ?s1 (r', ?s)"
      then have ex by (simp add: ex')
      with mid show "rv_reaches policy_hw ?code 20 (r', ?s) ?P" by (intro set2 [where S = ?s1]) simp_all
    qed simp
    then show ?thesis by simp
  qed
  have "rv_reaches policy_hw ?code 19 (r, ?s) (?mid 260 ?s1)"
    using first_sum [OF assms(1) x refl refl, where c = c and v = v and nc = nc and d = d and m = m]
    by (elim exE conjE) (rule rv_reachesI, assumption, auto)
  then have "rv_reaches policy_hw ?code (19 + 23) (r, ?s) ?P"
    by (rule rv_reaches_trans) (rule first)
  then show ?thesis by simp
qed

subsection \<open>The latency of the core under analysis\<close>

definition keeps_round :: "rv \<Rightarrow> rv \<Rightarrow> bool" where
  "keeps_round r r' \<longleftrightarrow> (\<forall>i \<in> {1, 18, 20, 23, 24, 25, 26, 27, 28, 29, 30, 31}. rv_regs r' i = rv_regs r i)"

lemma latency_sum:
  assumes "rv_pc r = 64" "rv_regs r 30 = DSPM_BASE_ADDR"
    and req: "req = c 0 + c 1" and lat: "lat = c 2 + c 3"
    and lo: "lo = m (u32_to_addr (DSPM_BASE_ADDR + 24))" and hi: "hi = m (u32_to_addr (DSPM_BASE_ADDR + 28))"
  shows "\<exists>k r' lo' hi'. k \<le> 24 \<and> rv_run policy_hw (policy_code v nc d) k (r, (c, m)) =
      Some (r', (c(2 := 0, 3 := 0), m(u32_to_addr (DSPM_BASE_ADDR + 24) := lo', u32_to_addr (DSPM_BASE_ADDR + 28) := hi'))) \<and>
    rv_pc r' = 160 \<and> wide hi' lo' = wide hi lo + ucast lat \<and> rv_regs r' 8 = lo' \<and> rv_regs r' 9 = hi' \<and>
    wide (rv_regs r' 11) (rv_regs r' 10) = mul64 (rv_regs r 28) req \<and>
    wide (rv_regs r' 17) (rv_regs r' 16) = mul64 (rv_regs r 27) req \<and>
    rv_regs r' 2 = 0 \<and> rv_regs r' 3 = 3 \<and> keeps_round r r'"
proof -
  let ?h = "\<lambda>x y. ucast (drop_bit 32 (ucast x * ucast y :: u64)) :: u32"
  let ?hi = "hi + (if lo + lat < lat then 1 else 0)"
  have "\<exists>k r'. k \<le> 24 \<and> rv_run policy_hw (policy_code v nc d) k (r, (c, m)) =
      Some (r', (c(2 := 0, 3 := 0), m(u32_to_addr (DSPM_BASE_ADDR + 24) := lo + lat, u32_to_addr (DSPM_BASE_ADDR + 28) := ?hi))) \<and>
      rv_pc r' = 160 \<and> rv_regs r' 8 = lo + lat \<and> rv_regs r' 9 = ?hi \<and>
      rv_regs r' 10 = rv_regs r 28 * req \<and> rv_regs r' 11 = ?h (rv_regs r 28) req \<and>
      rv_regs r' 16 = rv_regs r 27 * req \<and> rv_regs r' 17 = ?h (rv_regs r 27) req \<and>
      rv_regs r' 2 = 0 \<and> rv_regs r' 3 = 3 \<and> keeps_round r r'"
  proof (cases "lat \<le> lat + lo")
    case False
    then have "?hi = 1 + hi" by (simp add: add.commute)
    then show ?thesis
      by (simp only:, intro exI [of _ 24]) (use assms(1,2) False in
        \<open>simp add: req lat lo hi exec_simps policy_at_latency keeps_round_def add.commute del: not_le\<close>)
  next
    case True
    then have "?hi = hi" by (simp add: add.commute)
    then show ?thesis
      by (simp only:, intro exI [of _ 23]) (use assms(1,2) True in
        \<open>simp add: req lat lo hi exec_simps policy_at_latency keeps_round_def add.commute del: not_le\<close>)
  qed
  moreover have "wide ?hi (lo + lat) = wide hi lo + ucast lat"
    using wide_add [of hi 0 lo lat] by (simp add: wide_def)
  ultimately show ?thesis by (elim exE conjE) (intro exI conjI, assumption+, simp_all add: wide_mul)
qed

lemma latency_flag:
  assumes "rv_pc r = 160"
  shows "\<exists>k r'. k \<le> 5 \<and> rv_run policy_hw (policy_code v nc d) k (r, s) = Some (r', s) \<and> rv_pc r' = 184 \<and>
    rv_regs r' 9 = (if wide (rv_regs r 11) (rv_regs r 10) < wide (rv_regs r 9) (rv_regs r 8) then 1 else 0) \<and>
    (\<forall>i \<in> {2, 3, 16, 17}. rv_regs r' i = rv_regs r i) \<and> keeps_round r r'"
proof -
  consider "rv_regs r 11 < rv_regs r 9" | "rv_regs r 11 \<noteq> rv_regs r 9" "\<not> rv_regs r 11 < rv_regs r 9"
    | "rv_regs r 11 = rv_regs r 9" "rv_regs r 10 < rv_regs r 8"
    | "rv_regs r 11 = rv_regs r 9" "\<not> rv_regs r 10 < rv_regs r 8"
    by blast
  then show ?thesis
  proof cases
    case 1
    show ?thesis
      by (rule exI [of _ 2]) (use assms 1 in \<open>simp add: wide_less exec_simps policy_at_latency keeps_round_def\<close>)
  next
    case 2
    show ?thesis
      by (rule exI [of _ 4]) (use assms 2 in \<open>simp add: wide_less exec_simps policy_at_latency keeps_round_def\<close>)
  next
    case 3
    show ?thesis
      by (rule exI [of _ 4]) (use assms 3 in \<open>simp add: wide_less exec_simps policy_at_latency keeps_round_def\<close>)
  next
    case 4
    show ?thesis
      by (rule exI [of _ 5]) (use assms 4 in \<open>simp add: wide_less exec_simps policy_at_latency keeps_round_def\<close>)
  qed
qed

subsection \<open>The decision on one core\<close>

definition keeps_core :: "rv \<Rightarrow> rv \<Rightarrow> bool" where
  "keeps_core r r' \<longleftrightarrow>
     (\<forall>i \<in> {1, 2, 3, 9, 16, 17, 23, 24, 25, 26, 27, 28, 29, 30, 31}. rv_regs r' i = rv_regs r i)"

lemma bit_extract: "j < 32 \<Longrightarrow> drop_bit j ((M :: u32) AND push_bit j 1) = of_bool (bit M j)"
  by (rule bit_word_eqI) (auto simp: bit_simps simp del: push_bit_of_1)

lemma decision:
  assumes "rv_pc r = 356" and j: "rv_regs r 2 = of_nat j" "j < 32" and "rv_regs r 1 = 1"
    and ex: "rv_regs r 5 = (if ex then 1 else 0)" and over: "rv_regs r 9 = (if over then 1 else 0)"
    and M: "rv_regs r 20 = M"
  shows "\<exists>k r'. k \<le> 10 \<and> rv_run policy_hw (policy_code v nc d) k (r, s) = Some (r', s) \<and>
    rv_pc r' = (if bit M j \<and> \<not> ex then 456 else if \<not> bit M j \<and> over \<and> ex then 408 else 396) \<and>
    rv_regs r' 19 = push_bit j 1 \<and> (\<forall>i \<in> {18, 20}. rv_regs r' i = rv_regs r i) \<and> keeps_core r r'"
proof -
  have "unat (of_nat j :: u32) = j" using j(2) by (simp only: unat_of_nat) (simp add: take_bit_nat_eq_self)
  then have sh: "unat (take_bit 5 (rv_regs r 2)) = j"
    using j by (simp only: unsigned_take_bit_eq) (simp add: take_bit_nat_eq_self)
  note bit = bit_extract [OF j(2), of M]
  define B where "B = push_bit j (1 :: u32)"
  have bit: "drop_bit j (M AND B) = of_bool (bit M j)" using bit by (simp only: B_def)
  have B: "push_bit j 1 = B" by (simp only: B_def)
  have "\<exists>k r'. k \<le> 10 \<and> rv_run policy_hw (policy_code v nc d) k (r, s) = Some (r', s) \<and>
    rv_pc r' = (if bit M j \<and> \<not> ex then 456 else if \<not> bit M j \<and> over \<and> ex then 408 else 396) \<and>
    rv_regs r' 19 = B \<and> (\<forall>i \<in> {18, 20}. rv_regs r' i = rv_regs r i) \<and> keeps_core r r'"
  proof (cases "bit M j \<and> \<not> ex")
    case True
    then show ?thesis
      by (intro exI [of _ 6]) (use assms(1,4) ex over M sh bit B in
        \<open>simp add: exec_simps policy_at_next keeps_core_def del: push_bit_of_1\<close>)
  next
    case False
    then show ?thesis
      by (intro exI [of _ 10]) (use assms(1,4) ex over M sh bit B in
        \<open>cases "bit M j"; cases ex; cases over; simp add: exec_simps policy_at_next keeps_core_def del: push_bit_of_1\<close>)
  qed
  then show ?thesis by (simp only: B)
qed

text \<open>
  The two actions: the bit of the core is set or cleared in the decision word, which the first version
  stores; the second stores the number of the core to the halt or the resume register. Both append an
  entry of three words to the trace.
\<close>

definition traced :: "u32 \<Rightarrow> words \<Rightarrow> words \<Rightarrow> bool" where
  "traced p m m' \<longleftrightarrow> (\<exists>a b e. m' = m(u32_to_addr p := a, u32_to_addr (p + 4) := b, u32_to_addr (p + 8) := e))"

lemma halt_action:
  assumes "rv_pc r = 408" "rv_regs r 19 = B" "rv_regs r 20 = M" "rv_regs r 18 = p" "rv_regs r 29 = 0x200"
    "rv_regs r 30 = DSPM_BASE_ADDR"
  shows "\<exists>r' m'. rv_run policy_hw (policy_code v nc d) 12 (r, (c, m)) = Some (r', (c, m')) \<and> rv_pc r' = 396 \<and>
    traced p (if v then m(u32_to_addr (DSPM_BASE_ADDR + 32) := M OR B) else m(0x200 := rv_regs r 2)) m' \<and>
    rv_regs r' 18 = p + 12 \<and> rv_regs r' 20 = M OR B \<and> keeps_core r r'"
proof -
  have "\<exists>r' m' a b e. rv_run policy_hw (policy_code v nc d) 12 (r, (c, m)) = Some (r', (c, m')) \<and> rv_pc r' = 396 \<and>
    m' = (if v then m(u32_to_addr (DSPM_BASE_ADDR + 32) := M OR B) else m(0x200 := rv_regs r 2))
      (u32_to_addr p := a, u32_to_addr (p + 4) := b, u32_to_addr (p + 8) := e) \<and>
    rv_regs r' 18 = p + 12 \<and> rv_regs r' 20 = M OR B \<and> keeps_core r r'"
    using assms by (cases v) (simp_all add: exec_simps policy_at_next policy_at_actions keeps_core_def, blast+)
  then show ?thesis unfolding traced_def by blast
qed

lemma resume_action:
  assumes "rv_pc r = 456" "rv_regs r 19 = B" "rv_regs r 20 = M" "rv_regs r 18 = p" "rv_regs r 29 = 0x200"
    "rv_regs r 30 = DSPM_BASE_ADDR"
  shows "\<exists>r' m'. rv_run policy_hw (policy_code v nc d) 13 (r, (c, m)) = Some (r', (c, m')) \<and> rv_pc r' = 396 \<and>
    traced p (if v then m(u32_to_addr (DSPM_BASE_ADDR + 32) := M AND NOT B) else m(0x208 := rv_regs r 2)) m' \<and>
    rv_regs r' 18 = p + 12 \<and> rv_regs r' 20 = M AND NOT B \<and> keeps_core r r'"
proof -
  have "\<exists>r' m' a b e. rv_run policy_hw (policy_code v nc d) 13 (r, (c, m)) = Some (r', (c, m')) \<and> rv_pc r' = 396 \<and>
    m' = (if v then m(u32_to_addr (DSPM_BASE_ADDR + 32) := M AND NOT B) else m(0x208 := rv_regs r 2))
      (u32_to_addr p := a, u32_to_addr (p + 4) := b, u32_to_addr (p + 8) := e) \<and>
    rv_regs r' 18 = p + 12 \<and> rv_regs r' 20 = M AND NOT B \<and> keeps_core r r'"
    using assms by (cases v) (simp_all add: exec_simps policy_at_actions keeps_core_def, blast+)
  then show ?thesis unfolding traced_def by blast
qed

end
