(* ===== verification/Case_Study_Round.thy ===== *)
theory Case_Study_Round
  imports Case_Study_Policy
begin

text \<open>
  A whole round of the case-study programs from reset to the flag at offset \<open>0x24\<close> of the data memory: the
  verdict on every interfering core in turn, and the decision word that the round leaves.
\<close>

subsection \<open>A round over the interfering cores\<close>

text \<open>
  What stays the same during a round: the weights and thresholds, the verdict on the core under analysis, the
  budget of delay, the counters, and the words at the start of the data memory.
\<close>

record round =
  weights :: "u32 \<times> u32 \<times> u32 \<times> u32"
  thresholds :: "u32 \<times> u32"
  over_limit :: bool
  budget :: u64
  counts :: "u32 \<Rightarrow> u32"
  low_words :: "nat \<Rightarrow> u32"
  intf_cores :: u32

definition core_exceeds :: "round \<Rightarrow> nat \<Rightarrow> bool" where
  "core_exceeds R j = exceeds (budget R) (weights R) (counts R (of_nat (4 * j))) (counts R (of_nat (4 * j + 1)))
     (counts R (of_nat (4 * j + 2))) (counts R (of_nat (4 * j + 3)))"

definition decide :: "round \<Rightarrow> nat \<Rightarrow> u32 \<Rightarrow> u32" where
  "decide R j M = (if core_exceeds R j \<and> (over_limit R \<or> bit M j) then M OR push_bit j 1
     else M AND NOT (push_bit j 1))"

definition round_in :: "bool \<Rightarrow> round \<Rightarrow> u32 \<Rightarrow> u32 \<Rightarrow> nat \<Rightarrow> nat \<Rightarrow> rv \<times> (u32 \<Rightarrow> u32) \<times> words \<Rightarrow> bool" where
  "round_in v R pc M j t c \<longleftrightarrow> (case c of (r, cnt, m) \<Rightarrow>
     rv_pc r = pc \<and> rv_regs r 1 = 1 \<and> rv_regs r 2 = of_nat j \<and> rv_regs r 3 = of_nat (4 * j + 3) \<and>
     rv_regs r 9 = (if over_limit R then 1 else 0) \<and> wide (rv_regs r 17) (rv_regs r 16) = budget R \<and>
     rv_regs r 18 = DSPM_BASE_ADDR + 4 * of_nat (10 + 3 * t) \<and> rv_regs r 20 = M \<and>
     (rv_regs r 23, rv_regs r 24, rv_regs r 25, rv_regs r 26) = weights R \<and>
     (rv_regs r 27, rv_regs r 28) = thresholds R \<and> rv_regs r 29 = 0x200 \<and> rv_regs r 30 = DSPM_BASE_ADDR \<and>
     rv_regs r 31 = intf_cores R \<and> cnt = counts R \<and>
     (\<forall>i < 10. m (cell DSPM_BASE_ADDR i) = (if i = 8 \<and> v then M else low_words R i)))"

definition round_at :: "bool \<Rightarrow> round \<Rightarrow> u32 \<Rightarrow> u32 \<Rightarrow> nat \<Rightarrow> nat \<Rightarrow> rv \<times> (u32 \<Rightarrow> u32) \<times> words \<Rightarrow> bool" where
  "round_at v R pc M j lim c \<longleftrightarrow> (\<exists>t \<le> lim. round_in v R pc M j t c)"

lemma cell_eq: "i < 1000 \<Longrightarrow> k < 1000 \<Longrightarrow> cell DSPM_BASE_ADDR i = cell DSPM_BASE_ADDR k \<longleftrightarrow> i = k"
  by (rule cell_inject) simp_all

lemma cell_debug: "i < 1000 \<Longrightarrow> cell DSPM_BASE_ADDR i \<noteq> 0x200 \<and> cell DSPM_BASE_ADDR i \<noteq> 0x208"
proof (intro conjI notI)
  assume i: "i < 1000"
  have u: "uint (cell DSPM_BASE_ADDR i) = 0x10428000 + 4 * int i"
    using i uint_dspm_word [of i] by (simp add: cell_dspm)
  show False if "cell DSPM_BASE_ADDR i = 0x200" using u that by simp
  show False if "cell DSPM_BASE_ADDR i = 0x208" using u that by simp
qed

lemma traced_low:
  assumes "traced (DSPM_BASE_ADDR + 4 * of_nat (10 + 3 * t)) m m'" "t < 300" "i < 10"
  shows "m' (cell DSPM_BASE_ADDR i) = m (cell DSPM_BASE_ADDR i)"
proof -
  have p: "u32_to_addr (DSPM_BASE_ADDR + 4 * of_nat (10 + 3 * t)) = cell DSPM_BASE_ADDR (10 + 3 * t)"
    "u32_to_addr (DSPM_BASE_ADDR + 4 * of_nat (10 + 3 * t) + 4) = cell DSPM_BASE_ADDR (11 + 3 * t)"
    "u32_to_addr (DSPM_BASE_ADDR + 4 * of_nat (10 + 3 * t) + 8) = cell DSPM_BASE_ADDR (12 + 3 * t)"
    by (simp_all add: cell_def algebra_simps)
  obtain a b e where "m' = m(cell DSPM_BASE_ADDR (10 + 3 * t) := a, cell DSPM_BASE_ADDR (11 + 3 * t) := b,
      cell DSPM_BASE_ADDR (12 + 3 * t) := e)"
    using assms(1) unfolding traced_def p by blast
  then show ?thesis using assms(2,3) by (simp add: cell_eq)
qed

lemma decide_same:
  "bit M j \<Longrightarrow> core_exceeds R j \<Longrightarrow> decide R j M = M"
  "\<not> bit M j \<Longrightarrow> \<not> (over_limit R \<and> core_exceeds R j) \<Longrightarrow> decide R j M = M"
  by (auto simp: decide_def intro!: bit_word_eqI simp: bit_simps simp del: push_bit_of_1)

lemma round_in_regs:
  assumes "round_in v R pc M j t (r, cnt, m)"
  shows "rv_pc r = pc" "rv_regs r 1 = 1" "rv_regs r 2 = of_nat j" "rv_regs r 3 = of_nat (4 * j + 3)"
    "rv_regs r 9 = (if over_limit R then 1 else 0)" "rv_regs r 18 = DSPM_BASE_ADDR + 4 * of_nat (10 + 3 * t)"
    "rv_regs r 20 = M" "rv_regs r 29 = 0x200" "rv_regs r 30 = DSPM_BASE_ADDR" "rv_regs r 31 = intf_cores R"
    "cnt = counts R" "weights R = (rv_regs r 23, rv_regs r 24, rv_regs r 25, rv_regs r 26)"
    "budget R = wide (rv_regs r 17) (rv_regs r 16)" "(rv_regs r 27, rv_regs r 28) = thresholds R"
    "\<forall>i < 10. m (cell DSPM_BASE_ADDR i) = (if i = 8 \<and> v then M else low_words R i)"
  using assms unfolding round_in_def by auto

lemma round_inI:
  assumes "rv_pc r = pc" "rv_regs r 1 = 1" "rv_regs r 2 = of_nat j" "rv_regs r 3 = of_nat (4 * j + 3)"
    "rv_regs r 9 = (if over_limit R then 1 else 0)" "rv_regs r 18 = DSPM_BASE_ADDR + 4 * of_nat (10 + 3 * t)"
    "rv_regs r 20 = M" "rv_regs r 29 = 0x200" "rv_regs r 30 = DSPM_BASE_ADDR" "rv_regs r 31 = intf_cores R"
    "c = counts R" "weights R = (rv_regs r 23, rv_regs r 24, rv_regs r 25, rv_regs r 26)"
    "budget R = wide (rv_regs r 17) (rv_regs r 16)" "(rv_regs r 27, rv_regs r 28) = thresholds R"
    "\<forall>i < 10. m (cell DSPM_BASE_ADDR i) = (if i = 8 \<and> v then M else low_words R i)"
  shows "round_in v R pc M j t (r, (c, m))"
  unfolding round_in_def prod.case using assms by auto

lemma round_in_keeps:
  assumes "round_in v R pc M j t (r, cnt, m)" "rv_regs r' 18 = rv_regs r 18" "rv_regs r' 20 = rv_regs r 20" "keeps_core r r'"
  shows "round_in v R (rv_pc r') M j t (r', cnt, m)"
proof -
  have "\<forall>i \<in> {1, 2, 3, 9, 16, 17, 18, 20, 23, 24, 25, 26, 27, 28, 29, 30, 31}. rv_regs r' i = rv_regs r i"
    using assms(2-4) by (simp add: keeps_core_def)
  then have eq: "rv_regs r' i = rv_regs r i" if "i \<in> {1, 2, 3, 9, 16, 17, 18, 20, 23, 24, 25, 26, 27, 28, 29, 30, 31}" for i
    using that by blast
  note regs = round_in_regs [OF assms(1)]
  show ?thesis
    by (rule round_inI; (subst eq, blast)?; (rule regs refl)?) (simp_all only: eq [of 24] eq [of 25] eq [of 26] eq [of 23]
      eq [of 16] eq [of 17] eq [of 27] eq [of 28] regs insert_iff simp_thms)
qed

lemma turn_delay:
  assumes "round_in v R 184 M j t c"
  shows "rv_reaches policy_hw (policy_code v nc d) 42 c (\<lambda>x. round_in v R 356 M (Suc j) t x \<and>
    rv_regs (fst x) 5 = (if core_exceeds R (Suc j) then 1 else 0))"
proof -
  obtain r cnt m where c: "c = (r, cnt, m)" by (cases c)
  note regs = round_in_regs [OF assms [unfolded c]]
  have idx: "of_nat (4 * j + 3) + 1 = (of_nat (4 * Suc j) :: u32)" "of_nat (4 * j + 3) + 2 = (of_nat (4 * Suc j + 1) :: u32)"
    "of_nat (4 * j + 3) + 3 = (of_nat (4 * Suc j + 2) :: u32)" "of_nat (4 * j + 3) + 4 = (of_nat (4 * Suc j + 3) :: u32)"
    by simp_all
  have ex: "core_exceeds R (Suc j) = exceeds (budget R) (weights R) (cnt (of_nat (4 * j + 3) + 1))
      (cnt (of_nat (4 * j + 3) + 2)) (cnt (of_nat (4 * j + 3) + 3)) (cnt (of_nat (4 * j + 3) + 4))"
    unfolding core_exceeds_def idx regs(11) ..
  have next_j: "of_nat j + 1 = (of_nat (Suc j) :: u32)" by simp
  have kept: "round_in v R 356 M (Suc j) t (r', (cnt, m))"
    if "rv_pc r' = 356" "rv_regs r' 2 = of_nat (Suc j)" "rv_regs r' 3 = of_nat (4 * Suc j + 3)" "keeps r r'" for r'
    using assms that by (simp add: round_in_def c keeps_def del: of_nat_Suc of_nat_add of_nat_mult)
  from core_delay [OF regs(1) regs(4) [symmetric] regs(12,13) ex, of v nc d m, unfolded regs(3) next_j idx] show ?thesis
    unfolding c
  proof (rule rv_reaches_mono [OF _ order_refl], goal_cases)
    case (1 x)
    obtain r' s' where x: "x = (r', s')" by (cases x)
    note x' = 1 [unfolded x prod.case, THEN conjunct1] 1 [unfolded x prod.case, THEN conjunct2]
    have "round_in v R 356 M (Suc j) t (r', (cnt, m))"
      by (rule kept; (elim conjE)?) (rule x'(2) [THEN conjunct1] x'(2) [THEN conjunct2, THEN conjunct1]
        x'(2) [THEN conjunct2, THEN conjunct2, THEN conjunct1]
        x'(2) [THEN conjunct2, THEN conjunct2, THEN conjunct2, THEN conjunct2])+
    moreover have "rv_regs r' 5 = (if core_exceeds R (Suc j) then 1 else 0)"
      by (rule x'(2) [THEN conjunct2, THEN conjunct2, THEN conjunct2, THEN conjunct1])
    ultimately show ?case by (simp only: x fst_conv x'(1))
  qed
qed

lemma turn_decision:
  assumes "round_in v R 356 M j t (r, s)" "rv_regs r 5 = (if core_exceeds R j then 1 else 0)" "j < 32"
  shows "\<exists>k \<le> 10. \<exists>r'. rv_run policy_hw (policy_code v nc d) k (r, s) = Some (r', s) \<and> rv_regs r' 19 = push_bit j 1 \<and>
    round_in v R (if bit M j \<and> \<not> core_exceeds R j then 456 else if \<not> bit M j \<and> over_limit R \<and> core_exceeds R j then 408
      else 396) M j t (r', s)"
proof -
  obtain cnt m where s: "s = (cnt, m)" by (cases s)
  note regs = round_in_regs [OF assms(1) [unfolded s]]
  from decision [OF regs(1,3) assms(3) regs(2) assms(2) regs(5,7), of v nc d s]
  obtain k r' where run: "k \<le> 10" "rv_run policy_hw (policy_code v nc d) k (r, s) = Some (r', s)" and
    r': "rv_pc r' = (if bit M j \<and> \<not> core_exceeds R j then 456 else if \<not> bit M j \<and> over_limit R \<and> core_exceeds R j then 408
        else 396)" "rv_regs r' 19 = push_bit j 1" "rv_regs r' 18 = rv_regs r 18" "rv_regs r' 20 = rv_regs r 20" "keeps_core r r'"
    by auto
  have "round_in v R (rv_pc r') M j t (r', s)"
    unfolding s by (rule round_in_keeps [OF assms(1) [unfolded s] r'(3-5)])
  then show ?thesis unfolding r'(1) using run r'(2) by blast
qed

text \<open>The two actions leave the words of the round alone, except for the decision word of the first version.\<close>

lemma round_in_traced:
  assumes "round_in v R pc M j t (r, c, m)" "t < 300" "keeps_core r r'" "rv_pc r' = q" "rv_regs r' 20 = M'"
    and "rv_regs r' 18 = DSPM_BASE_ADDR + 4 * of_nat (10 + 3 * t) + 12" "a = 0x200 \<or> a = 0x208"
    and "traced (DSPM_BASE_ADDR + 4 * of_nat (10 + 3 * t))
      (if v then m(u32_to_addr (DSPM_BASE_ADDR + 32) := M') else m(a := w)) m'"
  shows "round_in v R q M' j (Suc t) (r', c, m')"
proof -
  have eight: "u32_to_addr (DSPM_BASE_ADDR + 32) = cell DSPM_BASE_ADDR 8" by (simp add: cell_def)
  have next_t: "DSPM_BASE_ADDR + 4 * of_nat (10 + 3 * t) + 12 = DSPM_BASE_ADDR + 4 * of_nat (10 + 3 * Suc t)" by simp
  have "m' (cell DSPM_BASE_ADDR i) = (if i = 8 \<and> v then M' else low_words R i)" if "i < 10" for i
    using traced_low [OF assms(8,2) that] assms(1,7) that cell_debug [of i] by (auto simp: cell_eq eight round_in_def)
  then show ?thesis
    using assms(1,3-5) assms(6) [unfolded next_t]
    by (simp add: round_in_def keeps_core_def del: of_nat_Suc of_nat_add of_nat_mult)
qed

lemma turn_action:
  assumes "round_in v R pc M j t (r, s)" "rv_regs r 19 = B" "t < 300"
    and "pc = 456 \<and> M' = M AND NOT B \<or> pc = 408 \<and> M' = M OR B"
  shows "rv_reaches policy_hw (policy_code v nc d) 13 (r, s) (round_in v R 396 M' j (Suc t))"
proof -
  obtain c m where s: "s = (c, m)" by (cases s)
  note regs = round_in_regs [OF assms(1) [unfolded s]]
  from assms(4) show ?thesis
  proof (elim disjE conjE)
    assume pc: "pc = 456" "M' = M AND NOT B"
    from resume_action [OF regs(1) [unfolded pc] assms(2) regs(7,6,8,9), of v nc d c m] show ?thesis
      unfolding s pc(2) by (elim exE conjE) (rule rv_reachesI, assumption, simp,
        rule round_in_traced [OF assms(1) [unfolded s] assms(3)], auto)
  next
    assume pc: "pc = 408" "M' = M OR B"
    from halt_action [OF regs(1) [unfolded pc] assms(2) regs(7,6,8,9), of v nc d c m] show ?thesis
      unfolding s pc(2) by (elim exE conjE) (rule rv_reachesI, assumption, simp,
        rule round_in_traced [OF assms(1) [unfolded s] assms(3)], auto)
  qed
qed

lemma turn_end:
  assumes "round_in v R (if bit M j \<and> \<not> core_exceeds R j then 456 else if \<not> bit M j \<and> over_limit R \<and> core_exceeds R j then 408
      else 396) M j t (r, s)" "rv_regs r 19 = push_bit j 1" "t \<le> lim" "lim < 300"
  shows "rv_reaches policy_hw (policy_code v nc d) 13 (r, s) (round_at v R 396 (decide R j M) j (Suc lim))"
proof (cases "bit M j \<and> \<not> core_exceeds R j \<or> \<not> bit M j \<and> over_limit R \<and> core_exceeds R j")
  case True
  have t: "t < 300" "Suc t \<le> Suc lim" using assms(3,4) by simp_all
  have "rv_reaches policy_hw (policy_code v nc d) 13 (r, s) (round_in v R 396 (decide R j M) j (Suc t))"
    by (rule turn_action [OF assms(1,2) t(1)]) (use True in \<open>auto simp: decide_def simp del: push_bit_of_1\<close>)
  then show ?thesis
    by (rule rv_reaches_mono) (use t(2) in \<open>auto simp: round_at_def\<close>)
next
  case False
  then have "decide R j M = M" using decide_same by blast
  moreover have "round_in v R 396 M j t (r, s)" using assms(1) False by (auto split: if_splits)
  ultimately show ?thesis using assms(3) by (intro rv_reaches_here) (auto simp: round_at_def intro: le_SucI)
qed

lemma core_turn:
  assumes start: "round_at v R 184 M j lim c" and small: "j < 31" "lim < 300"
  shows "rv_reaches policy_hw (policy_code v nc d) 65 c (round_at v R 396 (decide R (Suc j) M) (Suc j) (Suc lim))"
proof -
  obtain t where t: "t \<le> lim" "round_in v R 184 M j t c" using start unfolding round_at_def by blast
  have "rv_reaches policy_hw (policy_code v nc d) (42 + (10 + 13)) c (round_at v R 396 (decide R (Suc j) M) (Suc j) (Suc lim))"
  proof (rule rv_reaches_trans [OF turn_delay [OF t(2)]], elim conjE)
    fix x assume x: "round_in v R 356 M (Suc j) t x" "rv_regs (fst x) 5 = (if core_exceeds R (Suc j) then 1 else 0)"
    obtain r s where rs: "x = (r, s)" by (cases x)
    have "Suc j < 32" using small by simp
    from turn_decision [OF x(1) [unfolded rs] x(2) [unfolded rs fst_conv] this, of nc d]
    obtain k r' where "k \<le> 10" and run: "rv_run policy_hw (policy_code v nc d) k (r, s) = Some (r', s)"
      and r': "rv_regs r' 19 = push_bit (Suc j) 1" "round_in v R (if bit M (Suc j) \<and> \<not> core_exceeds R (Suc j) then 456
        else if \<not> bit M (Suc j) \<and> over_limit R \<and> core_exceeds R (Suc j) then 408 else 396) M (Suc j) t (r', s)"
      by blast
    show "rv_reaches policy_hw (policy_code v nc d) (10 + 13) x (round_at v R 396 (decide R (Suc j) M) (Suc j) (Suc lim))"
      unfolding rs
      by (rule rv_reaches_trans [OF rv_reachesI [OF run \<open>k \<le> 10\<close> refl]], erule ssubst)
        (rule turn_end [OF r'(2,1) t(1) small(2)])
  qed
  then show ?thesis by simp
qed

fun decide_upto :: "round \<Rightarrow> u32 \<Rightarrow> nat \<Rightarrow> u32" where
  "decide_upto R M 0 = M"
| "decide_upto R M (Suc j) = decide R (Suc j) (decide_upto R M j)"

lemma bit_decide_upto:
  "n < 32 \<Longrightarrow> i < 32 \<Longrightarrow> bit (decide_upto R M n) i \<longleftrightarrow>
     (if 1 \<le> i \<and> i \<le> n then core_exceeds R i \<and> (over_limit R \<or> bit M i) else bit M i)"
proof (induction n)
  case (Suc n)
  have "bit (decide_upto R M (Suc n)) i \<longleftrightarrow> (if i = Suc n then core_exceeds R i \<and> (over_limit R \<or> bit (decide_upto R M n) i)
      else bit (decide_upto R M n) i)"
    using Suc.prems by (auto simp: decide_def bit_simps simp del: push_bit_of_1)
  then show ?case using Suc by auto
qed auto

lemma round_at_pc: "round_at v R pc M j lim (r, s) \<Longrightarrow> round_at v R q M j lim (r\<lparr>rv_pc := q\<rparr>, s)"
  by (cases s) (auto simp: round_at_def round_in_def)

lemma core_next:
  assumes "round_at v R 396 M (Suc j) lim c" "j < unat (intf_cores R)"
  shows "rv_reaches policy_hw (policy_code v nc d) 1 c
    (round_at v R (if Suc j = unat (intf_cores R) then 400 else 184) M (Suc j) lim)"
proof -
  obtain r s where c: "c = (r, s)" by (cases c)
  have regs: "rv_pc r = 396" "rv_regs r 2 = of_nat (Suc j)" "rv_regs r 31 = intf_cores R"
    using assms(1) by (auto simp: c round_at_def round_in_def)
  have "rv_run policy_hw (policy_code v nc d) 1 c =
      Some (r\<lparr>rv_pc := if Suc j = unat (intf_cores R) then 400 else 184\<rparr>, s)"
    using regs word_count_end [OF assms(2)] by (simp add: c exec_simps policy_at_next del: of_nat_Suc)
  then show ?thesis
    by (rule rv_reachesI [OF _ order_refl]) (rule round_at_pc [OF assms(1) [unfolded c]])
qed

lemma core_loop:
  assumes "round_at v R 184 (decide_upto R M j) j lim c" "j < unat (intf_cores R)"
    and n: "unat (intf_cores R) < 32" "lim + (unat (intf_cores R) - j) \<le> 300"
  shows "rv_reaches policy_hw (policy_code v nc d) (66 * (unat (intf_cores R) - j)) c
    (round_at v R 400 (decide_upto R M (unat (intf_cores R))) (unat (intf_cores R)) (lim + (unat (intf_cores R) - j)))"
  using assms(1,2,4)
proof (induction "unat (intf_cores R) - j" arbitrary: j lim c)
  case (Suc k)
  let ?n = "unat (intf_cores R)" and ?M = "decide_upto R M"
  let ?P = "round_at v R 400 (?M ?n) ?n (lim + (?n - j))"
  have "rv_reaches policy_hw (policy_code v nc d) 65 c (round_at v R 396 (?M (Suc j)) (Suc j) (Suc lim))"
    using core_turn [OF Suc.prems(1), of nc d] Suc.prems(2,3) n(1) by simp
  then have turn: "rv_reaches policy_hw (policy_code v nc d) (65 + 1) c
      (round_at v R (if Suc j = ?n then 400 else 184) (?M (Suc j)) (Suc j) (Suc lim))"
    by (rule rv_reaches_trans) (rule core_next, assumption, rule Suc.prems(2))
  have lim: "Suc lim + (?n - Suc j) = lim + (?n - j)" using Suc.prems(2) by simp
  have "rv_reaches policy_hw (policy_code v nc d) (66 * (?n - Suc j)) c' ?P"
    if "round_at v R (if Suc j = ?n then 400 else 184) (?M (Suc j)) (Suc j) (Suc lim) c'" for c'
  proof (cases "Suc j = ?n")
    case True
    then show ?thesis using that lim by (intro rv_reaches_here) simp
  next
    case False
    then show ?thesis using that Suc.hyps(1) [of "Suc j" "Suc lim" c'] Suc.hyps(2) Suc.prems(2,3) lim by simp
  qed
  then have "rv_reaches policy_hw (policy_code v nc d) (65 + 1 + 66 * (?n - Suc j)) c ?P"
    by (rule rv_reaches_trans [OF turn])
  moreover have "66 * (?n - j) = 65 + 1 + 66 * (?n - Suc j)" using Suc.prems(2) by simp
  ultimately show ?case by simp
qed simp

lemma program_start:
  assumes "unat nc < 2048"
  shows "\<exists>r. rv_run policy_hw (policy_code v nc DSPM_BASE_ADDR) 16 (rv_reset, (c, m)) = Some (r, (c, m)) \<and> rv_pc r = 64 \<and>
    rv_regs r 1 = 1 \<and> rv_regs r 18 = DSPM_BASE_ADDR + 40 \<and> rv_regs r 20 = 0 \<and>
    rv_regs r 23 = m (u32_to_addr (DSPM_BASE_ADDR + 8)) \<and> rv_regs r 24 = m (u32_to_addr (DSPM_BASE_ADDR + 12)) \<and>
    rv_regs r 25 = m (u32_to_addr (DSPM_BASE_ADDR + 16)) \<and> rv_regs r 26 = m (u32_to_addr (DSPM_BASE_ADDR + 20)) \<and>
    rv_regs r 27 = m (u32_to_addr (DSPM_BASE_ADDR + 4)) \<and> rv_regs r 28 = m (u32_to_addr DSPM_BASE_ADDR) \<and>
    rv_regs r 29 = 0x200 \<and> rv_regs r 30 = DSPM_BASE_ADDR \<and> rv_regs r 31 = nc"
proof -
  have "\<not> bit DSPM_BASE_ADDR 11" by (simp add: DSPM_BASE_ADDR_def)
  then have d: "push_bit 12 (drop_bit 12 DSPM_BASE_ADDR) + sign_extend 12 (take_bit 12 DSPM_BASE_ADDR) = DSPM_BASE_ADDR"
    by (rule lui_addi)
  show ?thesis
    using sign_extend_small [OF assms] by (simp add: exec_simps policy_at_start rv_reset_def d)
qed

subsection \<open>A round of the program\<close>

text \<open>
  The round that the words \<open>m\<close> of the data memory, the counters \<open>c\<close> and the number \<open>nc\<close> of cores stand for:
  the sum of latencies in the words 6 and 7 grows by the counters 2 and 3, which are cleared.
\<close>

definition round_of :: "(u32 \<Rightarrow> u32) \<Rightarrow> words \<Rightarrow> u32 \<Rightarrow> (nat \<Rightarrow> u32) \<Rightarrow> round" where
  "round_of c m nc low = (let w = (\<lambda>i. m (cell DSPM_BASE_ADDR i)); req = c 0 + c 1 in
     \<lparr>weights = (w 2, w 3, w 4, w 5), thresholds = (w 1, w 0),
      over_limit = mul64 (w 0) req < wide (w 7) (w 6) + ucast (c 2 + c 3),
      budget = mul64 (w 1) req, counts = c(2 := 0, 3 := 0), low_words = low, intf_cores = nc\<rparr>)"

lemma decide_upto_low: "decide_upto (round_of c m nc low) M n = decide_upto (round_of c m nc (\<lambda>i. 0)) M n"
  by (induction n) (simp_all add: decide_def core_exceeds_def round_of_def Let_def)

lemma round_atI:
  assumes "rv_pc r = pc" "rv_regs r 1 = 1" "rv_regs r 2 = of_nat j" "rv_regs r 3 = of_nat (4 * j + 3)"
    "rv_regs r 9 = (if over_limit R then 1 else 0)" "wide (rv_regs r 17) (rv_regs r 16) = budget R"
    "rv_regs r 18 = DSPM_BASE_ADDR + 4 * of_nat (10 + 3 * t)" "t \<le> lim" "rv_regs r 20 = M"
    "(rv_regs r 23, rv_regs r 24, rv_regs r 25, rv_regs r 26) = weights R"
    "(rv_regs r 27, rv_regs r 28) = thresholds R" "rv_regs r 29 = 0x200" "rv_regs r 30 = DSPM_BASE_ADDR"
    "rv_regs r 31 = intf_cores R" "c = counts R"
    "\<forall>i < 10. m (cell DSPM_BASE_ADDR i) = (if i = 8 \<and> v then M else low_words R i)"
  shows "round_at v R pc M j lim (r, (c, m))"
  unfolding round_at_def round_in_def prod.case using assms by blast

lemma round_start:
  assumes nc: "unat nc < 32" and zero: "m (cell DSPM_BASE_ADDR 8) = 0"
  shows "\<exists>low. low 8 = 0 \<and> rv_reaches policy_hw (policy_code v nc DSPM_BASE_ADDR) 45 (rv_reset, (c, m))
    (round_at v (round_of c m nc low) 184 0 0 0)"
proof -
  let ?code = "policy_code v nc DSPM_BASE_ADDR" and ?w = "\<lambda>i. m (cell DSPM_BASE_ADDR i)"
  have cell: "u32_to_addr DSPM_BASE_ADDR = cell DSPM_BASE_ADDR 0" "u32_to_addr (DSPM_BASE_ADDR + 4) = cell DSPM_BASE_ADDR 1"
    "u32_to_addr (DSPM_BASE_ADDR + 8) = cell DSPM_BASE_ADDR 2" "u32_to_addr (DSPM_BASE_ADDR + 12) = cell DSPM_BASE_ADDR 3"
    "u32_to_addr (DSPM_BASE_ADDR + 16) = cell DSPM_BASE_ADDR 4" "u32_to_addr (DSPM_BASE_ADDR + 20) = cell DSPM_BASE_ADDR 5"
    "u32_to_addr (DSPM_BASE_ADDR + 24) = cell DSPM_BASE_ADDR 6" "u32_to_addr (DSPM_BASE_ADDR + 28) = cell DSPM_BASE_ADDR 7"
    by (simp_all add: cell_def)
  have "unat nc < 2048" using nc by simp
  from program_start [OF this, of v c m] obtain r where
    run1: "rv_run policy_hw ?code 16 (rv_reset, (c, m)) = Some (r, (c, m))" and
    r: "rv_pc r = 64" "rv_regs r 1 = 1" "rv_regs r 18 = DSPM_BASE_ADDR + 40" "rv_regs r 20 = 0"
      "rv_regs r 23 = ?w 2" "rv_regs r 24 = ?w 3" "rv_regs r 25 = ?w 4" "rv_regs r 26 = ?w 5"
      "rv_regs r 27 = ?w 1" "rv_regs r 28 = ?w 0" "rv_regs r 29 = 0x200" "rv_regs r 30 = DSPM_BASE_ADDR" "rv_regs r 31 = nc"
    unfolding cell by blast
  from latency_sum [OF r(1,12) refl refl refl refl, of v nc DSPM_BASE_ADDR c m, unfolded cell]
  obtain k2 r2 lo hi where k2: "k2 \<le> 24" and
    run2: "rv_run policy_hw ?code k2 (r, (c, m)) = Some (r2, (c(2 := 0, 3 := 0),
      m(cell DSPM_BASE_ADDR 6 := lo, cell DSPM_BASE_ADDR 7 := hi)))" and
    r2: "rv_pc r2 = 160" "wide hi lo = wide (?w 7) (?w 6) + ucast (c 2 + c 3)" "rv_regs r2 8 = lo" "rv_regs r2 9 = hi"
      "wide (rv_regs r2 11) (rv_regs r2 10) = mul64 (rv_regs r 28) (c 0 + c 1)"
      "wide (rv_regs r2 17) (rv_regs r2 16) = mul64 (rv_regs r 27) (c 0 + c 1)"
      "rv_regs r2 2 = 0" "rv_regs r2 3 = 3" "keeps_round r r2"
    by blast
  let ?m = "m(cell DSPM_BASE_ADDR 6 := lo, cell DSPM_BASE_ADDR 7 := hi)" and ?c = "c(2 := 0, 3 := 0)"
  from latency_flag [OF r2(1), of v nc DSPM_BASE_ADDR "(?c, ?m)"]
  obtain k3 r3 where k3: "k3 \<le> 5" and run3: "rv_run policy_hw ?code k3 (r2, (?c, ?m)) = Some (r3, (?c, ?m))" and
    r3: "rv_pc r3 = 184"
      "rv_regs r3 9 = (if wide (rv_regs r2 11) (rv_regs r2 10) < wide (rv_regs r2 9) (rv_regs r2 8) then 1 else 0)"
      "\<forall>i \<in> {2, 3, 16, 17}. rv_regs r3 i = rv_regs r2 i" "keeps_round r2 r3"
    by blast
  let ?low = "\<lambda>i. ?m (cell DSPM_BASE_ADDR i)"
  have p: "DSPM_BASE_ADDR + 40 = DSPM_BASE_ADDR + 4 * of_nat (10 + 3 * 0)" by simp
  have regs: "rv_regs r3 1 = 1" "rv_regs r3 2 = 0" "rv_regs r3 3 = 3" "rv_regs r3 18 = DSPM_BASE_ADDR + 40" "rv_regs r3 20 = 0"
      "rv_regs r3 23 = ?w 2" "rv_regs r3 24 = ?w 3" "rv_regs r3 25 = ?w 4" "rv_regs r3 26 = ?w 5" "rv_regs r3 27 = ?w 1"
      "rv_regs r3 28 = ?w 0" "rv_regs r3 29 = 0x200" "rv_regs r3 30 = DSPM_BASE_ADDR" "rv_regs r3 31 = nc"
      "rv_regs r3 16 = rv_regs r2 16" "rv_regs r3 17 = rv_regs r2 17"
    using r r2(7-9) r3(3,4) by (simp_all add: keeps_round_def)
  have flag: "rv_regs r3 9 = (if mul64 (?w 0) (c 0 + c 1) < wide (?w 7) (?w 6) + ucast (c 2 + c 3) then 1 else 0)"
    using r3(2) r2(2-5) r(10) by simp
  have bud: "wide (rv_regs r3 17) (rv_regs r3 16) = mul64 (?w 1) (c 0 + c 1)"
    using r2(6) regs(15,16) r(9) by simp
  have low: "\<forall>i < 10. ?m (cell DSPM_BASE_ADDR i) = (if i = 8 \<and> v then 0 else ?low i)"
    using zero by (simp add: cell_eq)
  have "round_at v (round_of c m nc ?low) 184 0 0 0 (r3, (?c, ?m))"
  proof (rule round_atI [where t = 0])
    show "rv_regs r3 2 = of_nat 0" "rv_regs r3 3 = of_nat (4 * 0 + 3)"
      "rv_regs r3 18 = DSPM_BASE_ADDR + 4 * of_nat (10 + 3 * 0)" using regs(2-4) by simp_all
  qed (use regs flag bud low r3(1) in \<open>simp_all only: round_of_def Let_def round.simps le_refl\<close>)
  moreover have "rv_run policy_hw ?code (16 + (k2 + k3)) (rv_reset, (c, m)) = Some (r3, (?c, ?m))"
    by (simp only: rv_run_add run1 run2 run3 bind.bind_lunit)
  moreover have "?low 8 = 0" using zero by (simp add: cell_eq)
  ultimately show ?thesis by (intro exI [of _ ?low] conjI) (assumption, rule rv_reachesI, assumption, use k2 k3 in simp_all)
qed

lemma policy_round:
  assumes n: "1 \<le> unat nc" "unat nc < 32" and zero: "m (cell DSPM_BASE_ADDR 8) = 0"
  shows "rv_reaches policy_hw (policy_code v nc DSPM_BASE_ADDR) (46 + 66 * unat nc) (rv_reset, (c, m))
    (\<lambda>(r, (c', m')). rv_pc r = 404 \<and> c' = c(2 := 0, 3 := 0) \<and> m' (cell DSPM_BASE_ADDR 9) = 1 \<and>
       m' (cell DSPM_BASE_ADDR 8) = (if v then decide_upto (round_of c m nc (\<lambda>i. 0)) 0 (unat nc) else 0))"
    (is "rv_reaches _ ?code _ _ ?P")
proof -
  obtain low where low8: "low 8 = 0" and start: "rv_reaches policy_hw ?code 45 (rv_reset, (c, m)) (round_at v (round_of c m nc low) 184 0 0 0)"
    using round_start [of nc m v c] n(2) zero by blast
  let ?R = "round_of c m nc low" and ?n = "unat nc"
  have R: "intf_cores ?R = nc" "counts ?R = c(2 := 0, 3 := 0)" by (simp_all add: round_of_def Let_def)
  have "rv_reaches policy_hw ?code (45 + 66 * ?n) (rv_reset, (c, m))
      (round_at v ?R 400 (decide_upto ?R 0 ?n) ?n ?n)"
  proof (rule rv_reaches_trans [OF start])
    fix x assume "round_at v ?R 184 0 0 0 x"
    then have "round_at v ?R 184 (decide_upto ?R 0 0) 0 0 x" by simp
    from core_loop [OF this, of nc DSPM_BASE_ADDR] show "rv_reaches policy_hw ?code (66 * ?n) x
        (round_at v ?R 400 (decide_upto ?R 0 ?n) ?n ?n)"
      unfolding R using n by (simp only: diff_zero add_0)
  qed
  then have "rv_reaches policy_hw ?code (45 + 66 * ?n + 1) (rv_reset, (c, m)) ?P"
  proof (rule rv_reaches_trans)
    fix x assume x: "round_at v ?R 400 (decide_upto ?R 0 ?n) ?n ?n x"
    obtain r c' m' where eq: "x = (r, (c', m'))" by (cases x)
    have r: "rv_pc r = 400" "rv_regs r 1 = 1" "rv_regs r 30 = DSPM_BASE_ADDR"
      and m': "c' = c(2 := 0, 3 := 0)" "m' (cell DSPM_BASE_ADDR 8) = (if v then decide_upto ?R 0 ?n else low 8)"
      using x by (auto simp: eq round_at_def round_in_def R) (simp add: round_of_def Let_def)
    have "rv_run policy_hw ?code 1 (r, (c', m')) =
        Some (r\<lparr>rv_pc := 404\<rparr>, (c', m'(cell DSPM_BASE_ADDR 9 := 1)))"
      using r by (simp add: exec_simps policy_at_next cell_def)
    then show "rv_reaches policy_hw ?code 1 x ?P"
      unfolding eq by (rule rv_reachesI) (use m' low8 in \<open>simp_all add: cell_eq decide_upto_low [of c m nc low]\<close>)
  qed
  then show ?thesis by (simp add: add.commute)
qed

end
