(* ===== verification/Case_Study_Theorems.thy ===== *)
theory Case_Study_Theorems
  imports Case_Study_Round
begin

text \<open>The policy of the case-study programs, and the results that the test functions expect of them.\<close>



subsection \<open>The golden results\<close>

text \<open>The counters and the words of the data memory when the core starts on a test case.\<close>

definition case_counters :: "u32 list \<Rightarrow> (u32 \<Rightarrow> u32) \<Rightarrow> bool" where
  "case_counters vals c \<longleftrightarrow> list_all (\<lambda>k. c (of_nat k) = vals ! k) [0..<16]"

definition case_words :: "words \<Rightarrow> bool" where
  "case_words m \<longleftrightarrow> list_all (\<lambda>k. m (cell DSPM_BASE_ADDR k) = case_study_dspm_val ! k) [0..<8] \<and>
     m (cell DSPM_BASE_ADDR 8) = 0"

lemma golden_decision:
  assumes "i < 10" "case_counters (case_study_test_cases ! i) c" "case_words m"
  shows "decide_upto (round_of c m 3 low) 0 3 = case_study_golden_results ! i"
proof -
  have "i \<in> {0, 1, 2, 3, 4, 5, 6, 7, 8, 9}" using assms(1) by auto
  moreover have "m (cell DSPM_BASE_ADDR 0) = 60" "m (cell DSPM_BASE_ADDR 1) = 20" "m (cell DSPM_BASE_ADDR 2) = 60"
    "m (cell DSPM_BASE_ADDR 3) = 80" "m (cell DSPM_BASE_ADDR 4) = 100" "m (cell DSPM_BASE_ADDR 5) = 200"
    "m (cell DSPM_BASE_ADDR 6) = 0" "m (cell DSPM_BASE_ADDR 7) = 0"
    using assms(3) by (simp_all add: case_words_def list_all_iff case_study_dspm_val_def)
  ultimately show ?thesis using assms(2)
    by (elim insertE emptyE) (simp_all add: case_counters_def case_study_test_cases_def case_study_golden_results_def
      upt_rec numeral_3_eq_3 round_of_def decide_def core_exceeds_def exceeds_def Let_def mul64_def wide_def)
qed

text \<open>C40. Started with the counters of a test case, three interfering cores and the data of the test function,
  the first case-study program leaves the golden result of the case in the word that CVA6 compares; the program for
  the debug module leaves 0 there, although the test function compares that word with the same golden results.\<close>
theorem case_study_results:
  assumes "i < 10" "case_counters (case_study_test_cases ! i) c" "case_words m"
  shows "rv_reaches policy_hw
    (load_code (if v then case_study_program 3 DSPM_BASE_ADDR else case_study_debug_program 3 DSPM_BASE_ADDR))
    244 (rv_reset, (c, m))
    (\<lambda>(r, (c', m')). m' (cell DSPM_BASE_ADDR 9) = 1 \<and>
       m' (cell DSPM_BASE_ADDR 8) = (if v then case_study_golden_results ! i else 0))"
proof -
  have n: "1 \<le> unat (3 :: u32)" "unat (3 :: u32) < 32" by simp_all
  have z: "m (cell DSPM_BASE_ADDR 8) = 0" using assms(3) by (simp add: case_words_def)
  show ?thesis
    unfolding policy_code_def [symmetric]
    by (rule rv_reaches_mono [OF policy_round [where v = v and c = c and m = m, OF n z]])
      (use golden_decision [OF assms] in auto)
qed

theorem case_study_results_witness:
  "rv_reaches policy_hw (load_code (case_study_program 3 DSPM_BASE_ADDR)) 244
     (rv_reset, (\<lambda>k. case_study_test_cases ! 0 ! unat k,
        (\<lambda>_. 0)(cell DSPM_BASE_ADDR 0 := 60, cell DSPM_BASE_ADDR 1 := 20, cell DSPM_BASE_ADDR 2 := 60,
          cell DSPM_BASE_ADDR 3 := 80, cell DSPM_BASE_ADDR 4 := 100, cell DSPM_BASE_ADDR 5 := 200)))
     (\<lambda>(r, (c', m')). m' (cell DSPM_BASE_ADDR 9) = 1 \<and> m' (cell DSPM_BASE_ADDR 8) = 0xE)"
  (is "rv_reaches _ _ _ (_, (?c, ?m)) _")
proof -
  have c: "case_counters (case_study_test_cases ! 0) ?c"
    by (simp add: case_counters_def case_study_test_cases_def upt_rec)
  have m: "case_words ?m" by (simp add: case_words_def case_study_dspm_val_def upt_rec cell_eq)
  have "(0 :: nat) < 10" by simp
  note run = case_study_results [where v = True, OF this c m, unfolded if_True]
  show ?thesis
    by (rule rv_reaches_mono [OF run]) (auto simp: case_study_golden_results_def)
qed

end
