(* ===== verification/Fat16.thy ===== *)
theory Fat16
  imports Prelude
begin

text \<open>
  The FAT16 volume that lies in memory behind \<open>FAT_PART_BASE\<close>: \<open>mempol/fat16.c\<close> and \<open>fat16.h\<close> (the copies
  under \<open>sad_profile\<close> are identical). The volume is plain memory, so the functions read and write a map
  from addresses to bytes; pointers are 64-bit addresses, and NULL is \<open>None\<close>.
\<close>

subsection \<open>Bytes in memory\<close>

type_synonym ram = "u64 \<Rightarrow> u8"

definition load_bytes :: "ram \<Rightarrow> u64 \<Rightarrow> nat \<Rightarrow> u8 list" where
  "load_bytes m a n = map (\<lambda>i. m (a + of_nat i)) [0..<n]"

text \<open>\<open>memcpy\<close> stores the bytes loaded at the source, \<open>memset\<close> copies of one byte.\<close>

definition store_bytes :: "u64 \<Rightarrow> u8 list \<Rightarrow> ram \<Rightarrow> ram" where
  "store_bytes a bs m = (\<lambda>x. if unat (x - a) < length bs then bs ! unat (x - a) else m x)"

definition fill_bytes :: "u64 \<Rightarrow> u8 \<Rightarrow> nat \<Rightarrow> ram \<Rightarrow> ram" where
  "fill_bytes a v n m = (\<lambda>x. if unat (x - a) < n then v else m x)"

definition memcpy :: "u64 \<Rightarrow> u64 \<Rightarrow> nat \<Rightarrow> ram \<Rightarrow> ram" where
  "memcpy dest src n m = store_bytes dest (load_bytes m src n) m"

fun memcmp :: "u8 list \<Rightarrow> u8 list \<Rightarrow> int" where
  "memcmp (p # ps) (q # qs) = (if p \<noteq> q then uint p - uint q else memcmp ps qs)"
| "memcmp ps qs = 0"

definition rd16 :: "ram \<Rightarrow> u64 \<Rightarrow> u16" where
  "rd16 m p = ucast (m p) OR push_bit 8 (ucast (m (p + 1)))"

definition rd32_le :: "ram \<Rightarrow> u64 \<Rightarrow> u32" where
  "rd32_le m p = ucast (m p) OR push_bit 8 (ucast (m (p + 1))) OR push_bit 16 (ucast (m (p + 2))) OR
     push_bit 24 (ucast (m (p + 3)))"

definition wr16 :: "u64 \<Rightarrow> u16 \<Rightarrow> ram \<Rightarrow> ram" where
  "wr16 p v m = m(p := ucast (v AND 0xFF), p + 1 := ucast (drop_bit 8 v AND 0xFF))"

subsection \<open>The volume\<close>

definition FAT_PART_BASE :: u64 where "FAT_PART_BASE = 0x82100000"

record fat16 =
  bps :: u16
  spc :: u8
  rsvd :: u16
  nfats :: u8
  rdcnt :: u16
  spf :: u16
  fat_sec :: u32
  root_sec :: u32
  data_sec :: u32

definition fat16_sector :: "fat16 \<Rightarrow> u32 \<Rightarrow> u64" where
  "fat16_sector f sector = FAT_PART_BASE + ucast (sector * ucast (bps f))"

definition fat16_cluster_ptr :: "fat16 \<Rightarrow> u16 \<Rightarrow> u64" where
  "fat16_cluster_ptr f cluster = fat16_sector f (data_sec f + (ucast cluster - 2) * ucast (spc f))"

text \<open>
  Mounting reads the boot sector. A bad signature is only reported; \<open>None\<close> is the division by zero of a
  volume with no bytes per sector.
\<close>

definition fat16_mount :: "ram \<Rightarrow> fat16 option" where
  "fat16_mount m =
     (let bs = FAT_PART_BASE;
          bps = rd16 m (bs + 0x0B); spc = m (bs + 0x0D); rsvd = rd16 m (bs + 0x0E); nfats = m (bs + 0x10);
          rdcnt = rd16 m (bs + 0x11); spf = rd16 m (bs + 0x16);
          fat_sec = ucast rsvd;
          root_sec = fat_sec + ucast nfats * ucast spf;
          root_bytes = ucast rdcnt * 32 :: u32;
          root_secs = (root_bytes + ucast bps - 1) div ucast bps
      in if bps = 0 then None
         else Some \<lparr>bps = bps, spc = spc, rsvd = rsvd, nfats = nfats, rdcnt = rdcnt, spf = spf,
           fat_sec = fat_sec, root_sec = root_sec, data_sec = root_sec + root_secs\<rparr>)"

subsection \<open>Allocation\<close>

text \<open>The loop over the clusters, from \<open>c\<close> for at most \<open>n\<close> turns.\<close>

fun free_cluster :: "ram \<Rightarrow> u64 \<Rightarrow> nat \<Rightarrow> u16 \<Rightarrow> u16 option" where
  "free_cluster m fat1 0 c = None"
| "free_cluster m fat1 (Suc n) c =
     (if rd16 m (fat1 + ucast c * 2) = 0 then Some c else free_cluster m fat1 n (c + 1))"

definition fat16_alloc :: "fat16 \<Rightarrow> ram \<Rightarrow> u16 \<times> ram" where
  "fat16_alloc f m =
     (let fat1 = fat16_sector f (fat_sec f);
          fat2 = (if nfats f > 1 then Some (fat16_sector f (fat_sec f + ucast (spf f))) else None)
      in case free_cluster m fat1 (0xFFF7 - 2) 2 of
           None \<Rightarrow> (0, m)
         | Some c \<Rightarrow>
             let m = wr16 (fat1 + ucast c * 2) 0xFFFF m;
                 m = (case fat2 of None \<Rightarrow> m | Some fat2 \<Rightarrow> wr16 (fat2 + ucast c * 2) 0xFFFF m);
                 m = fill_bytes (fat16_cluster_ptr f c) 0 (unat (ucast (spc f) * ucast (bps f) :: u32)) m
             in (c, m))"

subsection \<open>Directories\<close>

text \<open>
  A pass over the entries of a directory: it ends at an entry whose first byte is 0, skips deleted entries
  and volume labels, and looks at the others. The loops of \<open>fat16_find\<close>, \<open>find_in_root\<close> and
  \<open>find_in_dir\<close> differ in what they skip besides and in what they accept.
\<close>

datatype search = Found u64 | Ended | Exhausted

fun dir_search :: "ram \<Rightarrow> (u64 \<Rightarrow> bool) \<Rightarrow> (u64 \<Rightarrow> bool) \<Rightarrow> nat \<Rightarrow> u64 \<Rightarrow> search" where
  "dir_search m skip accept 0 e = Exhausted"
| "dir_search m skip accept (Suc n) e =
     (if m e = 0 then Ended
      else if m e = 0xE5 \<or> m (e + 11) AND 0x08 \<noteq> 0 \<or> skip e then dir_search m skip accept n (e + 32)
      else if accept e then Found e
      else dir_search m skip accept n (e + 32))"

fun found :: "search \<Rightarrow> u64 option" where
  "found (Found e) = Some e"
| "found Ended = None"
| "found Exhausted = None"

definition fat16_find :: "fat16 \<Rightarrow> u8 list \<Rightarrow> ram \<Rightarrow> u64 option" where
  "fat16_find f name11 m = found (dir_search m (\<lambda>e. False) (\<lambda>e. memcmp (load_bytes m e 11) name11 = 0)
     (unat (rdcnt f)) (fat16_sector f (root_sec f)))"

fun free_slot :: "ram \<Rightarrow> nat \<Rightarrow> u64 \<Rightarrow> u64 option" where
  "free_slot m 0 e = None"
| "free_slot m (Suc n) e = (if m e = 0 \<or> m e = 0xE5 then Some e else free_slot m n (e + 32))"

definition fat16_free_entry :: "fat16 \<Rightarrow> ram \<Rightarrow> u64 option" where
  "fat16_free_entry f m = free_slot m (unat (rdcnt f)) (fat16_sector f (root_sec f))"

text \<open>Creating a file: the result is the entry and the first cluster.\<close>

definition fat16_create :: "fat16 \<Rightarrow> u8 list \<Rightarrow> ram \<Rightarrow> (u64 \<times> u16) option \<times> ram" where
  "fat16_create f name11 m =
     (case fat16_free_entry f m of None \<Rightarrow> (None, m)
      | Some e \<Rightarrow>
          let (c, m) = fat16_alloc f m
          in if c = 0 then (None, m)
             else let m = fill_bytes e 0 32 m;
                      m = store_bytes e name11 m;
                      m = m(e + 11 := 0x20);
                      m = wr16 (e + 26) c m
                  in (Some (e, c), m))"

definition fat16_dir_cluster :: "ram \<Rightarrow> u64 \<Rightarrow> u16" where
  "fat16_dir_cluster m e = rd16 m (e + 26)"

definition fat16_dir_size :: "ram \<Rightarrow> u64 \<Rightarrow> u32" where
  "fat16_dir_size m e = rd32_le m (e + 28)"

definition fat16_set_size :: "u64 \<Rightarrow> u32 \<Rightarrow> ram \<Rightarrow> ram" where
  "fat16_set_size e sz m = m(e + 28 := ucast (sz AND 0xFF), e + 29 := ucast (drop_bit 8 sz AND 0xFF),
     e + 30 := ucast (drop_bit 16 sz AND 0xFF), e + 31 := ucast (drop_bit 24 sz AND 0xFF))"

definition fat16_next_cluster :: "ram \<Rightarrow> fat16 \<Rightarrow> u16 \<Rightarrow> u16" where
  "fat16_next_cluster m f cluster = rd16 m (fat16_sector f (fat_sec f) + ucast cluster * 2)"

end
