(* ===== verification/Fat_File.thy ===== *)
theory Fat_File
  imports Fat16
begin

text \<open>
  Files of the FAT16 volume, \<open>mempol/fat_file.c\<close>, and the allocator \<open>bare_malloc.c\<close> that gives them
  their buffers. A file is read once into memory when it is opened; the other calls move a position in
  that copy. C strings are the lists of their bytes before the terminator; \<open>char\<close> is unsigned on RISC-V.
\<close>

subsection \<open>The allocator\<close>

definition HEAP_BASE :: u64 where "HEAP_BASE = 0x81000000"

definition bare_malloc_reset :: u64 where "bare_malloc_reset = HEAP_BASE"

text \<open>
  The heap pointer is the state; the size is rounded up to 8 bytes. The mask \<open>~7u\<close> is an unsigned int, so
  it clears the upper half of the size as well. Nothing is ever freed.
\<close>

definition bare_malloc :: "u64 \<Rightarrow> u64 \<Rightarrow> u64 \<times> u64" where
  "bare_malloc sz heap_ptr =
     (if sz = 0 then (heap_ptr, heap_ptr)
      else (heap_ptr, heap_ptr + (sz + 7 AND ucast (NOT 7 :: u32))))"

definition bare_calloc :: "u64 \<Rightarrow> u64 \<Rightarrow> u64 \<times> ram \<Rightarrow> u64 \<times> u64 \<times> ram" where
  "bare_calloc n sz = (\<lambda>(heap_ptr, m).
     let (p, heap_ptr) = bare_malloc (n * sz) heap_ptr
     in (p, heap_ptr, if p \<noteq> 0 then fill_bytes p 0 (unat (n * sz)) m else m))"

definition bare_realloc :: "u64 \<Rightarrow> u64 \<Rightarrow> u64 \<times> u64" where
  "bare_realloc sz heap_ptr = bare_malloc sz heap_ptr"

subsection \<open>Names\<close>

definition DOT :: u8 where "DOT = 0x2E"
definition SLASH :: u8 where "SLASH = 0x2F"
definition SPACE :: u8 where "SPACE = 0x20"
definition TILDE :: u8 where "TILDE = 0x7E"

definition fat_upper :: "u8 \<Rightarrow> u8" where
  "fat_upper c = (if 0x61 \<le> c \<and> c \<le> 0x7A then c - 32 else c)"

text \<open>What is before and behind the last dot; a field of a name is cut or padded with spaces.\<close>

definition split_ext :: "u8 list \<Rightarrow> u8 list \<times> u8 list" where
  "split_ext part =
     (if DOT \<in> set part
      then (rev (tl (dropWhile (\<lambda>c. c \<noteq> DOT) (rev part))), rev (takeWhile (\<lambda>c. c \<noteq> DOT) (rev part)))
      else (part, []))"

definition name_field :: "nat \<Rightarrow> u8 list \<Rightarrow> u8 list" where
  "name_field n s = take n (map fat_upper s @ replicate n SPACE)"

definition to_83 :: "u8 list \<Rightarrow> u8 list \<times> u8 list \<times> bool" where
  "to_83 part = (case split_ext part of (base, ext) \<Rightarrow> (name_field 8 base, name_field 3 ext, length base > 8))"

definition entry_matches :: "ram \<Rightarrow> u8 list \<Rightarrow> u64 \<Rightarrow> bool" where
  "entry_matches m part e = (case to_83 part of (name, ext, truncated) \<Rightarrow>
     memcmp (load_bytes m e 8) name = 0 \<and> memcmp (load_bytes m (e + 8) 3) ext = 0 \<or>
     truncated \<and> list_all (\<lambda>i. m (e + of_nat i) = name ! i) [0..<6] \<and> m (e + 6) = TILDE \<and>
       memcmp (load_bytes m (e + 8) 3) ext = 0)"

definition find_in_root :: "fat16 \<Rightarrow> u8 list \<Rightarrow> ram \<Rightarrow> u64 option" where
  "find_in_root f part m = found (dir_search m (\<lambda>e. False) (entry_matches m part)
     (unat (rdcnt f)) (fat16_sector f (root_sec f)))"

text \<open>A directory in a chain of clusters. The outer \<open>None\<close> is a chain that never ends.\<close>

definition in_chain :: "u16 \<Rightarrow> bool" where
  "in_chain cluster \<longleftrightarrow> cluster \<ge> 2 \<and> cluster < 0xFFF7"

definition cluster_bytes :: "fat16 \<Rightarrow> u32" where
  "cluster_bytes f = ucast (spc f) * ucast (bps f)"

partial_function (option) find_in_dir :: "ram \<Rightarrow> fat16 \<Rightarrow> u8 list \<Rightarrow> u16 \<Rightarrow> u64 option option" where
  "find_in_dir m f part cluster =
     (if in_chain cluster then
        (case dir_search m (\<lambda>e. m e = DOT) (entry_matches m part)
            (unat (cluster_bytes f div 32)) (fat16_cluster_ptr f cluster) of
           Found e \<Rightarrow> Some (Some e)
         | Ended \<Rightarrow> Some None
         | Exhausted \<Rightarrow> find_in_dir m f part (fat16_next_cluster m f cluster))
      else Some None)"

text \<open>A path has one component, or two separated by the first slash.\<close>

definition resolve_path :: "ram \<Rightarrow> fat16 \<Rightarrow> u8 list \<Rightarrow> u64 option option" where
  "resolve_path m f path =
     (if length path \<ge> 64 then Some None
      else if SLASH \<notin> set path then Some (find_in_root f path m)
      else let dir_name = takeWhile (\<lambda>c. c \<noteq> SLASH) path;
               file_name = tl (dropWhile (\<lambda>c. c \<noteq> SLASH) path)
           in case find_in_root f dir_name m of
                None \<Rightarrow> Some None
              | Some dir_entry \<Rightarrow>
                  if m (dir_entry + 11) AND 0x10 = 0 then Some None
                  else find_in_dir m f file_name (fat16_dir_cluster m dir_entry))"

subsection \<open>Opening a file\<close>

record fat_file =
  file_data :: u64
  file_size :: u32
  file_pos :: u32

text \<open>Copy the chain of clusters behind each other into the buffer, up to the size of the file.\<close>

partial_function (option) copy_chain :: "fat16 \<Rightarrow> u64 \<Rightarrow> u32 \<Rightarrow> u16 \<Rightarrow> u32 \<Rightarrow> ram \<Rightarrow> ram option" where
  "copy_chain f buf sz cluster copied m =
     (if in_chain cluster \<and> copied < sz then
        let to_copy = (if copied + cluster_bytes f > sz then sz - copied else cluster_bytes f);
            m = memcpy (buf + ucast copied) (fat16_cluster_ptr f cluster) (unat to_copy) m
        in copy_chain f buf sz (fat16_next_cluster m f cluster) (copied + to_copy) m
      else Some m)"

text \<open>
  The mode is ignored. \<open>g_vol\<close> is the volume given to \<open>fat_file_init\<close>; the result is the file or NULL, the
  heap pointer and the memory. The structure of the file takes 16 bytes of the heap; its fields are the
  record.
\<close>

definition fat_fopen :: "fat16 option \<Rightarrow> u8 list \<Rightarrow> u64 \<times> ram \<Rightarrow> (fat_file option \<times> u64 \<times> ram) option" where
  "fat_fopen g_vol path = (\<lambda>(heap_ptr, m).
     case g_vol of None \<Rightarrow> Some (None, heap_ptr, m)
     | Some f \<Rightarrow> do {
         entry \<leftarrow> resolve_path m f path;
         case entry of None \<Rightarrow> Some (None, heap_ptr, m)
         | Some entry \<Rightarrow> do {
             let sz = fat16_dir_size m entry;
             let cluster = fat16_dir_cluster m entry;
             let (file, heap_ptr) = bare_malloc 16 heap_ptr;
             if file = 0 then Some (None, heap_ptr, m) else do {
               let (buf, heap_ptr) = bare_malloc (ucast (sz + 1)) heap_ptr;
               if buf = 0 then Some (None, heap_ptr, m) else do {
                 m \<leftarrow> copy_chain f buf sz cluster 0 m;
                 let m = m(buf + ucast sz := 0);
                 Some (Some \<lparr>file_data = buf, file_size = sz, file_pos = 0\<rparr>, heap_ptr, m)
               }
             }
           }
       })"

subsection \<open>Reading and seeking\<close>

text \<open>\<open>None\<close> is the division by an element size of 0.\<close>

definition fat_fread :: "u64 \<Rightarrow> u64 \<Rightarrow> u64 \<Rightarrow> fat_file \<times> ram \<Rightarrow> (u64 \<times> fat_file \<times> ram) option" where
  "fat_fread buf sz count = (\<lambda>(f, m).
     if buf = 0 then Some (0, f, m)
     else let want = ucast (sz * count) :: u32;
              avail = file_size f - file_pos f;
              want = (if want > avail then avail else want);
              m = memcpy buf (file_data f + ucast (file_pos f)) (unat want) m;
              f = f\<lparr>file_pos := file_pos f + want\<rparr>
          in if sz = 0 then None else Some (ucast want div sz, f, m))"

datatype whence = SEEK_SET | SEEK_CUR | SEEK_END | SEEK_OTHER

text \<open>The new position is cut to the file.\<close>

definition clamp_pos :: "fat_file \<Rightarrow> u64 \<Rightarrow> u32" where
  "clamp_pos f newpos =
     (let newpos = (if sint newpos < 0 then 0 else newpos);
          newpos = (if sint newpos > uint (file_size f) then ucast (file_size f) else newpos)
      in ucast newpos)"

definition fat_fseek :: "u64 \<Rightarrow> whence \<Rightarrow> fat_file \<Rightarrow> int \<times> fat_file" where
  "fat_fseek offset whence f =
     (let seek = (\<lambda>base :: u32. (0, f\<lparr>file_pos := clamp_pos f (ucast base + offset)\<rparr>))
      in case whence of SEEK_SET \<Rightarrow> seek 0
         | SEEK_CUR \<Rightarrow> seek (file_pos f)
         | SEEK_END \<Rightarrow> seek (file_size f)
         | SEEK_OTHER \<Rightarrow> (-1, f))"

text \<open>
  \<open>fscanf\<close> with the format \<open>%d\<close> or \<open>%i\<close>: skip white space, then a sign and digits. \<open>n\<close> is the number
  of bytes left. The outer \<open>None\<close> is the overflow of an \<open>int\<close>; the result is the value returned and, where
  it is 1, the number read.
\<close>

fun skip_space :: "ram \<Rightarrow> u64 \<Rightarrow> nat \<Rightarrow> u32 \<Rightarrow> u32" where
  "skip_space m d 0 pos = pos"
| "skip_space m d (Suc n) pos =
     (if m (d + ucast pos) \<in> {0x20, 0x09, 0x0A, 0x0D} then skip_space m d n (pos + 1) else pos)"

definition is_digit :: "u8 \<Rightarrow> bool" where
  "is_digit c \<longleftrightarrow> 0x30 \<le> c \<and> c \<le> 0x39"

fun scan_digits :: "ram \<Rightarrow> u64 \<Rightarrow> nat \<Rightarrow> u32 \<Rightarrow> int \<Rightarrow> (int \<times> u32) option" where
  "scan_digits m d 0 pos val = Some (val, pos)"
| "scan_digits m d (Suc n) pos val =
     (if is_digit (m (d + ucast pos)) then
        let val = val * 10 + uint (m (d + ucast pos) - 0x30)
        in if val \<ge> 2 ^ 31 then None else scan_digits m d n (pos + 1) val
      else Some (val, pos))"

definition bytes_left :: "fat_file \<Rightarrow> nat" where
  "bytes_left f = unat (file_size f) - unat (file_pos f)"

definition fat_fscanf_d :: "fat_file \<times> ram \<Rightarrow> (int \<times> int \<times> fat_file) option" where
  "fat_fscanf_d = (\<lambda>(f, m).
     if file_pos f \<ge> file_size f then Some (-1, 0, f)
     else let f = f\<lparr>file_pos := skip_space m (file_data f) (bytes_left f) (file_pos f)\<rparr>
          in if file_pos f \<ge> file_size f then Some (-1, 0, f)
             else let minus = (m (file_data f + ucast (file_pos f)) = 0x2D);
                      f = (if minus then f\<lparr>file_pos := file_pos f + 1\<rparr> else f)
                  in if file_pos f \<ge> file_size f \<or> \<not> is_digit (m (file_data f + ucast (file_pos f)))
                     then Some (0, 0, f)
                     else do {
                       (val, pos) \<leftarrow> scan_digits m (file_data f) (bytes_left f) (file_pos f) 0;
                       Some (1, if minus then - val else val, f\<lparr>file_pos := pos\<rparr>)
                     })"

definition fat_ftell :: "fat_file option \<Rightarrow> int" where
  "fat_ftell f = (case f of None \<Rightarrow> -1 | Some f \<Rightarrow> uint (file_pos f))"

definition fat_feof :: "fat_file option \<Rightarrow> bool" where
  "fat_feof f = (case f of None \<Rightarrow> True | Some f \<Rightarrow> file_pos f \<ge> file_size f)"

definition fat_fclose :: "fat_file \<Rightarrow> fat_file" where
  "fat_fclose f = f\<lparr>file_data := 0, file_size := 0, file_pos := 0\<rparr>"

end
