(* ===== verification/Fat_Read.thy ===== *)
theory Fat_Read
  imports Fat_File
begin

text \<open>
  Reading files: blocks of bytes in memory, the chain of clusters that \<open>fat_fopen\<close> copies into its buffer,
  the allocator, and the position in an open file.
\<close>

subsection \<open>Blocks of bytes\<close>

lemma length_load_bytes [simp]: "length (load_bytes m a n) = n"
  by (simp add: load_bytes_def)

lemma nth_load_bytes [simp]: "i < n \<Longrightarrow> load_bytes m a n ! i = m (a + of_nat i)"
  by (simp add: load_bytes_def)

lemma load_bytes_cong: "(\<And>i. i < n \<Longrightarrow> m (a + of_nat i) = m' (a + of_nat i)) \<Longrightarrow> load_bytes m a n = load_bytes m' a n"
  by (simp add: load_bytes_def)

lemma take_load_bytes: "k \<le> n \<Longrightarrow> take k (load_bytes m a n) = load_bytes m a k"
  by (simp add: load_bytes_def take_map)

lemma unat_of_nat64: "i < 2 ^ 64 \<Longrightarrow> unat (of_nat i :: u64) = i"
  by (simp only: unat_of_nat) (simp add: take_bit_nat_eq_self)

lemma load_store_bytes: "length bs \<le> 2 ^ 64 \<Longrightarrow> load_bytes (store_bytes a bs m) a (length bs) = bs"
  by (rule nth_equalityI) (simp_all add: store_bytes_def unat_of_nat64)

lemma store_bytes_Nil [simp]: "store_bytes a [] m = m"
  by (simp add: store_bytes_def)

lemma unat_minus_of_nat:
  fixes d :: u64
  assumes "k \<le> 2 ^ 64"
  shows "unat (d - of_nat k) = (if k \<le> unat d then unat d - k else unat d + 2 ^ 64 - k)"
proof -
  have d: "unat d < 2 ^ 64" using unsigned_less [of d, where 'a = nat] by simp
  show ?thesis
  proof (cases "k \<le> unat d")
    case True
    then have "unat (of_nat k :: u64) = k" using d by (intro unat_of_nat64) simp
    then show ?thesis using True by (simp add: unat_sub_if')
  next
    case False
    show ?thesis
    proof (cases "k = 2 ^ 64")
      case True
      then have "(of_nat k :: u64) = 0" by (simp only: of_nat_power of_nat_numeral) simp
      then have "d - of_nat k = d" by simp
      show ?thesis unfolding \<open>d - of_nat k = d\<close> using True False by simp
    next
      case k: False
      then have "unat (of_nat k :: u64) = k" using assms by (intro unat_of_nat64) simp
      then show ?thesis using False by (simp add: unat_sub_if')
    qed
  qed
qed

lemma store_bytes_append:
  assumes "length xs + length ys \<le> 2 ^ 64"
  shows "store_bytes (a + of_nat (length xs)) ys (store_bytes a xs m) = store_bytes a (xs @ ys) m"
proof
  fix x
  let ?d = "unat (x - a)" and ?k = "length xs"
  have eq: "unat (x - (a + of_nat ?k)) = (if ?k \<le> ?d then ?d - ?k else ?d + 2 ^ 64 - ?k)"
    using unat_minus_of_nat [of ?k "x - a"] assms by (simp add: diff_diff_add)
  show "store_bytes (a + of_nat ?k) ys (store_bytes a xs m) x = store_bytes a (xs @ ys) m x"
  proof (cases "?k \<le> ?d")
    case True
    then show ?thesis using eq by (auto simp: store_bytes_def nth_append)
  next
    case False
    then have "\<not> unat (x - (a + of_nat ?k)) < length ys" using eq assms by simp
    then show ?thesis using False by (simp add: store_bytes_def nth_append)
  qed
qed

lemma not_unat_less:
  fixes d :: u64
  assumes "int n \<le> uint d"
  shows "\<not> unat d < n"
proof
  assume "unat d < n"
  then have "int (unat d) < int n" by (simp only: of_nat_less_iff)
  then show False using assms by simp
qed

lemma store_bytes_above:
  assumes "uint a + int (length bs) \<le> uint x"
  shows "store_bytes a bs m x = m x"
proof -
  have "a \<le> x" using assms by (simp add: word_le_def)
  then have "uint (x - a) = uint x - uint a" by (simp add: uint_sub_lem [THEN iffD1] word_le_def)
  then have "\<not> unat (x - a) < length bs" using assms by (intro not_unat_less) simp
  then show ?thesis by (simp add: store_bytes_def)
qed

lemma store_bytes_below:
  assumes "uint x < uint a" "uint a + int (length bs) \<le> 2 ^ 64"
  shows "store_bytes a bs m x = m x"
proof -
  have "uint (x - a) = uint x - uint a + 2 ^ 64"
    using assms(1) uint_sub_if' [of x a] by simp
  then have "\<not> unat (x - a) < length bs"
    using assms(2) unsigned_greater_eq [of x, where 'a = int] by (intro not_unat_less) linarith
  then show ?thesis by (simp add: store_bytes_def)
qed

subsection \<open>Addresses of the volume\<close>

lemma uint_volume:
  "i < 2 ^ 32 \<Longrightarrow> uint (fat16_sector f s + of_nat i) = 0x82100000 + uint (s * ucast (bps f)) + int i"
proof -
  assume i: "i < 2 ^ 32"
  let ?o = "s * ucast (bps f)"
  have o: "0 \<le> uint ?o" "uint ?o < 2 ^ 32" using unsigned_less [of ?o, where 'a = int] by simp_all
  have "fat16_sector f s + of_nat i = word_of_int (0x82100000 + uint ?o + int i)"
    by (simp add: fat16_sector_def FAT_PART_BASE_def)
  then show ?thesis
    using o i by (simp only: unsigned_of_int) (simp add: take_bit_int_eq_self)
qed

definition same_volume :: "ram \<Rightarrow> ram \<Rightarrow> bool" where
  "same_volume m m' \<longleftrightarrow> (\<forall>x. 0x82100000 \<le> uint x \<longrightarrow> m x = m' x)"

lemma same_volume_sector:
  assumes "same_volume m m'" "i < 2 ^ 32"
  shows "m (fat16_sector f s + of_nat i) = m' (fat16_sector f s + of_nat i)"
proof -
  have "0 \<le> uint (s * ucast (bps f))" by simp
  then have "0x82100000 \<le> uint (fat16_sector f s + of_nat i)" using uint_volume [OF assms(2), of f s] by simp
  then show ?thesis using assms(1) by (simp only: same_volume_def)
qed

lemma same_cluster:
  "same_volume m m' \<Longrightarrow> n \<le> 2 ^ 32 \<Longrightarrow> load_bytes m (fat16_cluster_ptr f c) n = load_bytes m' (fat16_cluster_ptr f c) n"
  unfolding fat16_cluster_ptr_def by (rule load_bytes_cong) (simp add: same_volume_sector)

lemma same_next: "same_volume m m' \<Longrightarrow> fat16_next_cluster m f c = fat16_next_cluster m' f c"
proof -
  assume same: "same_volume m m'"
  have c: "unat c < 2 ^ 16" using unsigned_less [of c, where 'a = nat] by simp
  have eq: "p + ucast c * 2 = p + of_nat (2 * unat c)" "p + of_nat (2 * unat c) + 1 = p + of_nat (2 * unat c + 1)" for p :: u64
    by simp_all
  have "2 * unat c < 2 ^ 32" "2 * unat c + 1 < 2 ^ 32" using c by simp_all
  from this [THEN same_volume_sector [OF same, of _ f "fat_sec f"]]
  show ?thesis by (simp only: fat16_next_cluster_def rd16_def eq)
qed

lemma same_volume_store:
  assumes "same_volume m m'" "uint a + int (length bs) \<le> 0x82100000"
  shows "same_volume (store_bytes a bs m) m'"
  unfolding same_volume_def
proof (intro allI impI)
  fix x :: u64 assume "0x82100000 \<le> uint x"
  then show "store_bytes a bs m x = m' x"
    using assms store_bytes_above [of a bs x m] by (simp add: same_volume_def)
qed

subsection \<open>Reading a chain of clusters\<close>

text \<open>The bytes of the first \<open>k\<close> clusters of the chain from \<open>c\<close>.\<close>

fun chain_bytes :: "ram \<Rightarrow> fat16 \<Rightarrow> nat \<Rightarrow> u16 \<Rightarrow> u8 list" where
  "chain_bytes m f 0 c = []"
| "chain_bytes m f (Suc k) c =
     (if in_chain c then load_bytes m (fat16_cluster_ptr f c) (unat (cluster_bytes f)) @
        chain_bytes m f k (fat16_next_cluster m f c)
      else [])"

lemma cluster_bytes_bound: "uint (cluster_bytes f) < 2 ^ 24"
proof -
  have b: "0 \<le> uint (spc f)" "uint (spc f) < 2 ^ 8" "0 \<le> uint (bps f)" "uint (bps f) < 2 ^ 16"
    using unsigned_less [of "spc f", where 'a = int] unsigned_less [of "bps f", where 'a = int] by simp_all
  then have p: "uint (spc f) * uint (bps f) < 2 ^ 8 * 2 ^ 16" by (intro mult_strict_mono) simp_all
  have "cluster_bytes f = word_of_int (uint (spc f) * uint (bps f))" by (simp add: cluster_bytes_def)
  then have "uint (cluster_bytes f) = uint (spc f) * uint (bps f)"
    using p b by (simp only: unsigned_of_int) (simp add: take_bit_int_eq_self)
  then show ?thesis using p by simp
qed

lemma unat_le_uint: "uint (w :: u32) \<le> int n \<Longrightarrow> unat w \<le> n"
proof -
  assume "uint w \<le> int n"
  then have "int (unat w) \<le> int n" by simp
  then show "unat w \<le> n" by (simp only: of_nat_le_iff)
qed

lemma uint_add_small:
  fixes a :: u64 and k :: u32
  assumes "uint a + uint k < 2 ^ 64"
  shows "uint (a + ucast k) = uint a + uint k"
proof -
  have "uint (ucast k :: u64) = uint k" using unsigned_less [of k, where 'a = int] by (simp add: unsigned_ucast_eq take_bit_int_eq_self)
  then show ?thesis using assms uint_add_lem [of a "ucast k"] by simp
qed

lemma copy_chain_correct:
  assumes "same_volume m m0" "copied \<le> sz" "unat sz - unat copied \<le> length (chain_bytes m0 f k c)"
    and buf: "uint buf + uint sz \<le> 0x82100000" and "cluster_bytes f \<noteq> 0"
  shows "copy_chain f buf sz c copied m =
    Some (store_bytes (buf + ucast copied) (take (unat sz - unat copied) (chain_bytes m0 f k c)) m)"
  using assms(1-3)
proof (induction k arbitrary: c copied m)
  case 0
  then have "unat sz \<le> unat copied" by simp
  then have "\<not> copied < sz" "unat sz - unat copied = 0" by (simp_all add: word_less_nat_alt)
  then show ?case by (subst copy_chain.simps) simp
next
  case (Suc k)
  show ?case
  proof (cases "copied < sz")
    case False
    then have "unat sz - unat copied = 0" by (simp add: word_less_nat_alt)
    then show ?thesis using False by (subst copy_chain.simps) simp
  next
    case True
    let ?cb = "cluster_bytes f" and ?ptr = "fat16_cluster_ptr f c" and ?rest = "chain_bytes m0 f k (fat16_next_cluster m0 f c)"
    let ?to = "if copied + ?cb > sz then sz - copied else ?cb"
    let ?m1 = "memcpy (buf + ucast copied) ?ptr (unat ?to) m"
    have chain: "in_chain c" using Suc.prems(3) True by (simp add: word_less_nat_alt split: if_splits)
    have sz: "uint sz \<le> 0x82100000" using buf unsigned_greater_eq [of buf, where 'a = int] by linarith
    have lt: "unat copied < unat sz" using True by (simp add: word_less_nat_alt)
    have szn: "unat sz \<le> 0x82100000" using sz by (intro unat_le_uint) simp
    have cbn: "unat ?cb \<le> 2 ^ 24" using cluster_bytes_bound [of f] by (intro unat_le_uint) simp
    have sum: "unat (copied + ?cb) = unat copied + unat ?cb" using lt szn cbn by (simp add: unat_add_lem [THEN iffD1])
    have to: "unat ?to = min (unat sz - unat copied) (unat ?cb)"
      using lt sum by (auto simp: word_less_nat_alt unat_sub_if')
    have copied': "unat (copied + ?to) = unat copied + unat ?to"
      using to lt szn by (simp add: unat_add_lem [THEN iffD1])
    have le: "copied + ?to \<le> sz" using copied' to lt by (simp add: word_le_nat_alt)
    have load: "load_bytes m ?ptr (unat ?to) = load_bytes m0 ?ptr (unat ?to)"
      using to cbn by (intro same_cluster [OF Suc.prems(1)]) simp
    let ?L = "load_bytes m0 ?ptr (unat ?to)" and ?a = "buf + ucast copied"
    have m1: "?m1 = store_bytes ?a ?L m" by (simp only: memcpy_def load)
    have a: "uint ?a = uint buf + uint copied"
      using True sz buf by (intro uint_add_small) (simp add: word_less_def)
    have "int (unat ?to) \<le> int (unat sz) - int (unat copied)" using to lt by (simp only: of_nat_diff [symmetric])
    then have "int (unat ?to) \<le> uint sz - uint copied" by simp
    then have same: "same_volume ?m1 m0"
      unfolding m1 using a buf by (intro same_volume_store [OF Suc.prems(1)]) simp
    have a': "buf + ucast (copied + ?to) = ?a + of_nat (length ?L)"
    proof -
      have "ucast (copied + ?to) = (of_nat (unat copied + unat ?to) :: u64)" by (simp only: copied' [symmetric]) simp
      then show ?thesis by (simp add: add.assoc)
    qed
    have "copy_chain f buf sz c copied m = copy_chain f buf sz (fat16_next_cluster ?m1 f c) (copied + ?to) ?m1"
      using chain True by (subst copy_chain.simps) (simp add: Let_def)
    also have "\<dots> = copy_chain f buf sz (fat16_next_cluster m0 f c) (copied + ?to) ?m1"
      by (simp only: same_next [OF same])
    also have "\<dots> = Some (store_bytes (buf + ucast (copied + ?to)) (take (unat sz - unat (copied + ?to)) ?rest) ?m1)"
      using Suc.prems(3) chain to copied' by (intro Suc.IH [OF same le]) (auto simp: min_def split: if_splits)
    also have "\<dots> = Some (store_bytes ?a (?L @ take (unat sz - unat (copied + ?to)) ?rest) m)"
      unfolding m1 a' by (subst store_bytes_append) (use to szn cbn in simp_all)
    also have "?L @ take (unat sz - unat (copied + ?to)) ?rest = take (unat sz - unat copied) (chain_bytes m0 f (Suc k) c)"
      using chain to copied' by (auto simp: min_def take_load_bytes)
    finally show ?thesis .
  qed
qed

subsection \<open>The allocator\<close>

lemma round_up_8:
  fixes x :: u64
  assumes "uint x < 2 ^ 32"
  shows "uint (x AND ucast (NOT 7 :: u32)) = 8 * (uint x div 8)"
proof -
  have hi: "i < 32" if "bit x i" for i
  proof -
    have "x = take_bit 32 x" using assms by (simp add: word_uint_eq_iff unsigned_take_bit_eq take_bit_int_eq_self)
    then show ?thesis using that by (metis bit_take_bit_iff)
  qed
  have "x AND ucast (NOT 7 :: u32) = push_bit 3 (drop_bit 3 x)"
  proof (rule bit_word_eqI)
    fix i assume i: "i < LENGTH(64)"
    have "bit (mask 3 :: u32) i \<longleftrightarrow> i < 3" by (auto simp: bit_mask_iff)
    then have "bit (7 :: u32) i \<longleftrightarrow> i < 3" by (simp add: mask_eq_exp_minus_1)
    then show "bit (x AND ucast (NOT 7 :: u32)) i = bit (push_bit 3 (drop_bit 3 x)) i"
      using i hi [of i] by (simp only: bit_and_iff bit_unsigned_iff bit_not_iff bit_push_bit_iff bit_drop_bit_eq o_def) auto
  qed
  moreover have "uint (push_bit 3 (drop_bit 3 x)) = 8 * (uint x div 8)"
  proof -
    have x: "0 \<le> uint x div 8" using unsigned_greater_eq [of x, where 'a = int] by (simp only: pos_imp_zdiv_nonneg_iff)
    have "take_bit 64 (uint x) = uint x" using assms by (intro take_bit_int_eq_self) simp_all
    then have "uint (push_bit 3 (drop_bit 3 x)) = take_bit 64 (8 * (uint x div 8))"
      by (simp only: unsigned_push_bit_eq unsigned_drop_bit_eq) (simp add: push_bit_eq_mult drop_bit_eq_div mult.commute)
    also have "\<dots> = 8 * (uint x div 8)"
    proof (rule take_bit_int_eq_self)
      show "0 \<le> 8 * (uint x div 8)" using x by linarith
    qed (use assms in simp)
    finally show ?thesis .
  qed
  ultimately show ?thesis by simp
qed

lemma bare_malloc_bounds:
  assumes "bare_malloc sz h = (p, h')" "uint sz + 7 < 2 ^ 32" "uint h + uint sz + 7 < 2 ^ 64"
  shows "p = h" "uint h + uint sz \<le> uint h'" "uint h' \<le> uint h + uint sz + 7"
proof -
  let ?r = "sz + 7 AND ucast (NOT 7 :: u32)"
  show "p = h" using assms(1) by (simp add: bare_malloc_def split: if_splits)
  have h': "h' = (if sz = 0 then h else h + ?r)" using assms(1) by (auto simp: bare_malloc_def split: if_splits)
  have s: "uint (sz + 7) = uint sz + 7" using assms(2) uint_add_lem [of sz 7] by simp
  have r: "uint ?r = 8 * ((uint sz + 7) div 8)" using round_up_8 [of "sz + 7"] assms(2) by (simp only: s)
  then have b: "uint sz \<le> uint ?r" "uint ?r \<le> uint sz + 7" by simp_all
  then have "uint (h + ?r) = uint h + uint ?r" using assms(3) uint_add_lem [of h ?r] by simp
  then have "uint h + uint sz \<le> uint h' \<and> uint h' \<le> uint h + uint sz + 7"
    using b unfolding h' by simp
  then show "uint h + uint sz \<le> uint h'" "uint h' \<le> uint h + uint sz + 7" by blast+
qed

subsection \<open>Opening a file\<close>

lemma fopen_reads:
  assumes path: "resolve_path m f path = Some (Some entry)"
    and sz: "sz = fat16_dir_size m entry" and chain: "unat sz \<le> length (chain_bytes m f k (fat16_dir_cluster m entry))"
    and f: "cluster_bytes f \<noteq> 0"
    and heap: "heap \<noteq> 0" "uint heap + uint sz + 32 \<le> 0x82100000"
  shows "\<exists>heap' m'. fat_fopen (Some f) path (heap, m) =
      Some (Some \<lparr>file_data = heap + 16, file_size = sz, file_pos = 0\<rparr>, heap', m') \<and>
    load_bytes m' (heap + 16) (unat sz) = take (unat sz) (chain_bytes m f k (fat16_dir_cluster m entry)) \<and>
    m' (heap + 16 + ucast sz) = 0 \<and>
    (\<forall>x. uint x < uint heap + 16 \<or> uint heap' \<le> uint x \<longrightarrow> m' x = m x) \<and>
    uint heap + 16 + uint sz + 1 \<le> uint heap' \<and> uint heap' \<le> 0x82100000"
proof -
  let ?buf = "heap + 16" and ?bytes = "take (unat sz) (chain_bytes m f k (fat16_dir_cluster m entry))"
  have small: "uint heap \<le> 0x82100000 - 32" "uint sz \<le> 0x82100000 - 32"
    using heap(2) unsigned_greater_eq [of heap, where 'a = int] unsigned_greater_eq [of sz, where 'a = int] by - linarith+
  have r16: "heap + (16 + 7 AND ucast (NOT 7 :: u32)) = ?buf" by simp
  have m16: "bare_malloc 16 heap = (heap, ?buf)" unfolding bare_malloc_def using r16 by simp
  have b: "uint ?buf = uint heap + 16" using small(1) uint_add_lem [of heap 16] by simp
  have s1: "uint (ucast (sz + 1) :: u64) = uint sz + 1"
    using small(2) uint_add_lem [of sz 1] by (simp add: unsigned_ucast_eq take_bit_int_eq_self)
  obtain p heap' where m2: "bare_malloc (ucast (sz + 1)) ?buf = (p, heap')" by fastforce
  have "uint (ucast (sz + 1) :: u64) + 7 < 2 ^ 32" "uint ?buf + uint (ucast (sz + 1) :: u64) + 7 < 2 ^ 64"
    using small b s1 by simp_all
  note bounds = bare_malloc_bounds [OF m2 this, unfolded b s1]
  have buf0: "?buf \<noteq> 0"
  proof
    assume "?buf = 0"
    then have "uint heap + 16 = 0" using b by simp
    then show False using unsigned_greater_eq [of heap, where 'a = int] by linarith
  qed
  let ?m1 = "store_bytes ?buf ?bytes m"
  have copy: "copy_chain f ?buf sz (fat16_dir_cluster m entry) 0 m = Some ?m1"
    using copy_chain_correct [of m m 0 sz f k "fat16_dir_cluster m entry" ?buf] chain f heap(2) b
    by (simp add: same_volume_def)
  have len: "length ?bytes = unat sz" using chain by simp
  have e: "uint (?buf + ucast sz) = uint heap + 16 + uint sz"
    using uint_add_small [of ?buf sz] b small by simp
  let ?m' = "?m1(?buf + ucast sz := 0)"
  have opened: "fat_fopen (Some f) path (heap, m) = Some (Some \<lparr>file_data = ?buf, file_size = sz, file_pos = 0\<rparr>, heap', ?m')"
    using path heap(1) buf0 m2 copy bounds(1) by (simp add: fat_fopen_def m16 sz [symmetric] Let_def)
  have "load_bytes ?m' ?buf (unat sz) = load_bytes ?m1 ?buf (unat sz)"
  proof (rule load_bytes_cong)
    fix i assume i: "i < unat sz"
    then have "of_nat i \<noteq> (ucast sz :: u64)"
      using unat_of_nat64 [of i] unat_of_nat64 [of "unat sz"] unsigned_less [of sz, where 'a = nat] by auto
    then show "?m' (?buf + of_nat i) = ?m1 (?buf + of_nat i)" by simp
  qed
  also have "\<dots> = ?bytes" using load_store_bytes [of ?bytes ?buf m] len unsigned_less [of sz, where 'a = nat] by simp
  finally have load: "load_bytes ?m' ?buf (unat sz) = ?bytes" .
  have frame: "?m' x = m x" if x: "uint x < uint heap + 16 \<or> uint heap' \<le> uint x" for x
  proof -
    have "x \<noteq> ?buf + ucast sz" using x e bounds(2) unsigned_greater_eq [of sz, where 'a = int] by auto
    moreover have "store_bytes ?buf ?bytes m x = m x"
      using x store_bytes_above [of ?buf ?bytes x m] store_bytes_below [of x ?buf ?bytes m] len b bounds(2) small
      by (auto simp del: length_take)
    ultimately show ?thesis by simp
  qed
  show ?thesis
    using opened load frame bounds(2,3) heap(2) by (intro exI [of _ heap'] exI [of _ ?m']) auto
qed

subsection \<open>The position in a file\<close>

definition file_ok :: "fat_file \<Rightarrow> bool" where
  "file_ok f \<longleftrightarrow> file_pos f \<le> file_size f"

lemma unat32_less: "unat (w :: u32) < 2 ^ 32"
  using unsigned_less [of w, where 'a = nat] by simp

lemma add_left: "n \<le> unat (b :: u32) - unat (a :: u32) \<Longrightarrow> unat a \<le> unat b \<Longrightarrow> k \<le> n \<Longrightarrow> unat (a + of_nat k) = unat a + k"
proof -
  assume n: "n \<le> unat b - unat a" "unat a \<le> unat b" "k \<le> n"
  then have "unat a + k < 2 ^ 32" using unat32_less [of b] by linarith
  moreover have "unat (of_nat k :: u32) = k"
    using n unat32_less [of b] by (simp only: unat_of_nat) (simp add: take_bit_nat_eq_self)
  ultimately show ?thesis using unat_add_lem [of a "of_nat k"] by simp
qed

lemma skip_space_bound:
  "n \<le> unat (b :: u32) - unat pos \<Longrightarrow> unat pos \<le> unat b \<Longrightarrow> unat (skip_space m d n pos) \<le> unat b"
proof (induction n arbitrary: pos)
  case (Suc n)
  have "unat (pos + 1) = unat pos + 1" using add_left [OF Suc.prems, of 1] by simp
  then show ?case using Suc by simp
qed simp

lemma scan_digits_bound:
  "scan_digits m d n pos val = Some (v, pos') \<Longrightarrow> n \<le> unat (b :: u32) - unat pos \<Longrightarrow> unat pos \<le> unat b \<Longrightarrow> unat pos' \<le> unat b"
proof (induction n arbitrary: pos val)
  case (Suc n)
  have "unat (pos + 1) = unat pos + 1" using add_left [OF Suc.prems(2,3), of 1] by simp
  then show ?case using Suc by (auto simp: Let_def split: if_splits)
qed simp

lemma fread_ok: "file_ok f \<Longrightarrow> fat_fread buf sz count (f, m) = Some (n, f', m') \<Longrightarrow> file_ok f'"
proof -
  assume f: "file_ok f" and r: "fat_fread buf sz count (f, m) = Some (n, f', m')"
  have "unat (file_pos f + w) \<le> unat (file_size f)" if "w \<le> file_size f - file_pos f" for w
  proof -
    have le: "unat (file_pos f) \<le> unat (file_size f)" using f by (simp add: file_ok_def word_le_nat_alt)
    then have "unat w \<le> unat (file_size f) - unat (file_pos f)" using that by (simp add: word_le_nat_alt unat_sub_if')
    from add_left [OF this le order_refl] show ?thesis using \<open>unat w \<le> _\<close> le by simp
  qed
  then have "file_pos f + w \<le> file_size f" if "w \<le> file_size f - file_pos f" for w
    using that by (simp add: word_le_nat_alt)
  then show "file_ok f'" using f r by (auto simp: fat_fread_def file_ok_def Let_def not_less split: if_splits)
qed

lemma clamp_pos_bound: "clamp_pos f x \<le> file_size f"
proof -
  have "uint (ucast y :: u32) \<le> uint (file_size f)" if "0 \<le> sint y" "sint y \<le> uint (file_size f)" for y :: u64
  proof -
    have "uint y = sint y" using that(1) sint_lt [of y] by (simp add: uint_sint take_bit_int_eq_self)
    moreover have "uint (ucast y :: u32) = take_bit 32 (uint y)" by (simp add: unsigned_ucast_eq)
    ultimately show ?thesis using that take_bit_int_less_eq_self_iff [of 32 "uint y"] by simp
  qed
  moreover have "(ucast (ucast (file_size f) :: u64) :: u32) = file_size f"
    by (rule bit_word_eqI) (auto simp: bit_simps)
  ultimately show ?thesis by (auto simp: clamp_pos_def Let_def word_le_def not_less)
qed

lemma fseek_ok: "file_ok f \<Longrightarrow> file_ok (snd (fat_fseek offset w f))"
  by (cases w) (simp_all add: fat_fseek_def file_ok_def Let_def clamp_pos_bound)

lemma fscanf_ok: "file_ok f \<Longrightarrow> fat_fscanf_d (f, m) = Some (r, v, f') \<Longrightarrow> file_ok f'"
proof -
  assume f: "file_ok f" and r: "fat_fscanf_d (f, m) = Some (r, v, f')"
  let ?b = "file_size f" and ?p = "skip_space m (file_data f) (bytes_left f) (file_pos f)"
  have "unat ?p \<le> unat ?b"
    using f by (intro skip_space_bound) (simp_all add: bytes_left_def file_ok_def word_le_nat_alt)
  then have p: "?p \<le> ?b" by (simp add: word_le_nat_alt)
  have next_p: "?p + 1 \<le> ?b" if "?p < ?b" using that by (simp add: inc_le)
  have scan: "pos \<le> ?b" if "scan_digits m d (unat ?b - unat q) q 0 = Some (x, pos)" "q \<le> ?b" for d q x pos
    using scan_digits_bound [OF that(1) order_refl] that(2) by (simp add: word_le_nat_alt)
  show "file_ok f'"
    using f r p next_p scan
    by (auto simp: fat_fscanf_d_def file_ok_def Let_def bytes_left_def bind_eq_Some_conv not_le split: if_splits)
qed

subsection \<open>Reading a file piece by piece\<close>

lemma uint_add_of_nat: "uint (a :: u64) + int i < 2 ^ 64 \<Longrightarrow> uint (a + of_nat i) = uint a + int i"
proof -
  assume s: "uint a + int i < 2 ^ 64"
  have "uint a + int i < 18446744073709551616" using s by simp
  then have "int i < 18446744073709551616" using unsigned_greater_eq [of a, where 'a = int] by linarith
  then have "i < 2 ^ 64" by simp
  then have "uint (of_nat i :: u64) = int i" by (simp only: unsigned_of_nat) (simp add: take_bit_nat_eq_self)
  then show ?thesis using s uint_add_lem [of a "of_nat i"] by simp
qed

lemma of_nat_unat_eq: "unat (x :: 'a :: len word) = n \<Longrightarrow> x = of_nat n"
  by auto

lemma ucast_of_nat32: "unat (x :: u32) = w \<Longrightarrow> (ucast x :: u64) = of_nat w"
  by auto

definition apart :: "u64 \<Rightarrow> nat \<Rightarrow> u64 \<Rightarrow> nat \<Rightarrow> bool" where
  "apart a n b k \<longleftrightarrow> uint a + int n \<le> 2 ^ 64 \<and> uint b + int k \<le> 2 ^ 64 \<and>
     (uint a + int n \<le> uint b \<or> uint b + int k \<le> uint a)"

lemma load_apart:
  assumes "apart a n b k" "length bs \<le> k"
  shows "load_bytes (store_bytes b bs m) a n = load_bytes m a n"
proof (rule load_bytes_cong)
  fix i assume "i < n"
  then have x: "uint (a + of_nat i) = uint a + int i" using assms(1) by (intro uint_add_of_nat) (simp add: apart_def)
  show "store_bytes b bs m (a + of_nat i) = m (a + of_nat i)"
  proof (cases "uint a + int n \<le> uint b")
    case True
    then show ?thesis using assms x \<open>i < n\<close> by (intro store_bytes_below) (simp_all add: apart_def)
  next
    case False
    then show ?thesis using assms x by (intro store_bytes_above) (simp add: apart_def)
  qed
qed

lemma load_bytes_part:
  "p + w \<le> n \<Longrightarrow> load_bytes m (a + of_nat p) w = take w (drop p (load_bytes m a n))"
  by (rule nth_equalityI) (simp_all add: add.assoc)

definition file_bytes :: "fat_file \<Rightarrow> ram \<Rightarrow> u8 list" where
  "file_bytes f m = load_bytes m (file_data f) (unat (file_size f))"

lemma fread_step:
  assumes "file_ok f" "buf \<noteq> 0" "sz \<noteq> 0" and n: "n = unat sz * unat count" "n < 2 ^ 32"
    and w: "w = min n (unat (file_size f) - unat (file_pos f))"
  shows "fat_fread buf sz count (f, m) = Some (of_nat w div sz, f\<lparr>file_pos := file_pos f + of_nat w\<rparr>,
    store_bytes buf (take n (drop (unat (file_pos f)) (file_bytes f m))) m)"
proof -
  have pos: "unat (file_pos f) \<le> unat (file_size f)" using assms(1) by (simp add: file_ok_def word_le_nat_alt)
  have "unat (sz * count) = n" using n by (simp add: unat_mult_lem [THEN iffD1])
  then have sc: "sz * count = of_nat n" by (rule of_nat_unat_eq)
  have want: "(ucast (sz * count) :: u32) = of_nat n" unfolding sc by (rule bit_word_eqI) (simp add: bit_simps)
  have nn: "unat (of_nat n :: u32) = n" using n(2) by (simp only: unat_of_nat) (simp add: take_bit_nat_eq_self)
  let ?avail = "file_size f - file_pos f"
  let ?want = "if (of_nat n :: u32) > ?avail then ?avail else of_nat n"
  have "unat ?avail = unat (file_size f) - unat (file_pos f)" using pos by (simp add: unat_sub_if')
  then have unat_want: "unat ?want = w" using nn w by (auto simp: word_less_nat_alt)
  then have eq: "?want = of_nat w" by (rule of_nat_unat_eq)
  have load: "load_bytes m (file_data f + ucast (file_pos f)) w = take n (drop (unat (file_pos f)) (file_bytes f m))"
  proof -
    have "load_bytes m (file_data f + of_nat (unat (file_pos f))) w = take w (drop (unat (file_pos f)) (file_bytes f m))"
      unfolding file_bytes_def using w pos by (intro load_bytes_part) simp
    also have "\<dots> = take n (drop (unat (file_pos f)) (file_bytes f m))"
      using w by (auto simp: min_def file_bytes_def)
    finally show ?thesis by simp
  qed
  have "(ucast (of_nat w :: u32) :: u64) = of_nat w"
    by (rule ucast_of_nat32) (rule unat_want [unfolded eq])
  then show ?thesis
    using assms(2,3) by (simp add: fat_fread_def Let_def want eq memcpy_def) (simp only: unat_want [unfolded eq] load)
qed

text \<open>A sequence of reads; \<open>got\<close> is what the buffers hold after each.\<close>

fun fread_all :: "(u64 \<times> u64 \<times> u64) list \<Rightarrow> fat_file \<times> ram \<Rightarrow> (u8 list \<times> fat_file \<times> ram) option" where
  "fread_all [] (f, m) = Some ([], f, m)"
| "fread_all ((buf, sz, count) # rs) (f, m) = do {
     (n, f', m') \<leftarrow> fat_fread buf sz count (f, m);
     (bs, f'', m'') \<leftarrow> fread_all rs (f', m');
     Some (load_bytes m' buf (unat (file_pos f' - file_pos f)) @ bs, f'', m'')
   }"

definition asked :: "u64 \<times> u64 \<times> u64 \<Rightarrow> nat" where
  "asked = (\<lambda>(buf, sz, count). unat sz * unat count)"

definition read_ok :: "fat_file \<Rightarrow> u64 \<times> u64 \<times> u64 \<Rightarrow> bool" where
  "read_ok f r \<longleftrightarrow> asked r < 2 ^ 32 \<and> (case r of (buf, sz, count) \<Rightarrow> buf \<noteq> 0 \<and> sz \<noteq> 0 \<and>
     apart (file_data f) (unat (file_size f)) buf (asked r))"

lemma min_pos:
  "p \<le> s \<Longrightarrow> s < 2 ^ 32 \<Longrightarrow> unat (pos :: u32) = p \<Longrightarrow> unat (pos + of_nat (min n (s - p))) = min s (p + n)"
proof -
  assume a: "p \<le> s" "s < 2 ^ 32" "unat pos = p"
  have "unat (of_nat (min n (s - p)) :: u32) = min n (s - p)"
    using a by (simp only: unat_of_nat) (simp add: take_bit_nat_eq_self min_def)
  moreover have "p + min n (s - p) = min s (p + n)" using a(1) by (auto simp: min_def)
  moreover have "min s (p + n) < 2 ^ 32" using a(2) by (simp add: min_less_iff_disj)
  ultimately show ?thesis using a unat_add_lem [of pos "of_nat (min n (s - p))"] by simp
qed

lemma fread_all_stream:
  assumes "file_ok f" "\<forall>r \<in> set rs. read_ok f r"
  shows "\<exists>m'. fread_all rs (f, m) = Some (take (sum_list (map asked rs)) (drop (unat (file_pos f)) (file_bytes f m)),
    f\<lparr>file_pos := of_nat (min (unat (file_size f)) (unat (file_pos f) + sum_list (map asked rs)))\<rparr>, m') \<and>
    file_bytes f m' = file_bytes f m"
  using assms
proof (induction rs arbitrary: f m)
  case Nil
  then have "min (unat (file_size f)) (unat (file_pos f)) = unat (file_pos f)"
    by (simp add: file_ok_def word_le_nat_alt)
  then show ?case by (simp add: file_bytes_def)
next
  case (Cons r rs)
  obtain buf sz count where r: "r = (buf, sz, count)" by (cases r)
  let ?n = "asked r" and ?p = "unat (file_pos f)" and ?s = "unat (file_size f)" and ?D = "file_bytes f m"
  have ok: "read_ok f r" using Cons.prems(2) by simp
  have n: "?n = unat sz * unat count" "?n < 2 ^ 32" "buf \<noteq> 0" "sz \<noteq> 0" "apart (file_data f) ?s buf ?n"
    using ok by (simp_all add: read_ok_def r asked_def)
  have p: "?p \<le> ?s" using Cons.prems(1) by (simp add: file_ok_def word_le_nat_alt)
  define w where "w = min ?n (?s - ?p)"
  define f1 where "f1 = f\<lparr>file_pos := file_pos f + of_nat w\<rparr>"
  define m1 where "m1 = store_bytes buf (take ?n (drop ?p ?D)) m"
  have read: "fat_fread buf sz count (f, m) = Some (of_nat w div sz, f1, m1)"
    unfolding f1_def m1_def by (rule fread_step [OF Cons.prems(1) n(3,4,1,2) w_def])
  have pos1: "unat (file_pos f1) = min ?s (?p + ?n)"
    unfolding f1_def w_def using min_pos [OF p unat32_less refl, of ?n] by simp
  have same: "file_bytes f1 m1 = ?D" unfolding m1_def f1_def
    using load_apart [OF n(5), of "take ?n (drop ?p ?D)" m] by (simp add: file_bytes_def)
  have len: "length (take ?n (drop ?p ?D)) = w" by (simp add: w_def file_bytes_def)
  have diff: "unat (file_pos f1 - file_pos f) = w"
  proof -
    have "w < 2 ^ 32" using n(2) by (simp add: w_def)
    then have "unat (of_nat w :: u32) = w" by (simp only: unat_of_nat) (simp add: take_bit_nat_eq_self)
    then show ?thesis by (simp add: f1_def)
  qed
  have got: "load_bytes m1 buf (unat (file_pos f1 - file_pos f)) = take ?n (drop ?p ?D)"
  proof -
    have "length (take ?n (drop ?p ?D)) \<le> 2 ^ 64" using len n(2) by (simp only: len w_def) simp
    from load_store_bytes [OF this, of buf m] show ?thesis by (simp only: diff m1_def len)
  qed
  have ok1: "file_ok f1" "\<forall>r \<in> set rs. read_ok f1 r"
    using pos1 Cons.prems(2) by (simp_all add: file_ok_def word_le_nat_alt f1_def read_ok_def)
  have size1: "file_size f1 = file_size f" by (simp add: f1_def)
  from Cons.IH [OF ok1, of m1, unfolded same size1] obtain m' where
    rest: "fread_all rs (f1, m1) = Some (take (sum_list (map asked rs)) (drop (unat (file_pos f1)) ?D),
        f1\<lparr>file_pos := of_nat (min ?s (unat (file_pos f1) + sum_list (map asked rs)))\<rparr>, m')"
      "file_bytes f1 m' = ?D"
    by blast
  have app: "take ?n (drop ?p ?D) @ take k (drop (unat (file_pos f1)) ?D) = take (?n + k) (drop ?p ?D)" for k
  proof -
    have "length ?D = ?s" by (simp add: file_bytes_def)
    then have "drop (unat (file_pos f1)) ?D = drop ?n (drop ?p ?D)"
      unfolding pos1 by (simp add: min_def add.commute)
    then show ?thesis by (simp only: take_add)
  qed
  have posk: "min ?s (unat (file_pos f1) + k) = min ?s (?p + (?n + k))" for k unfolding pos1 by simp
  have upd: "f1\<lparr>file_pos := q\<rparr> = f\<lparr>file_pos := q\<rparr>" "file_bytes f1 m' = file_bytes f m'" for q
    by (simp_all add: f1_def file_bytes_def)
  have "fread_all (r # rs) (f, m) = Some (load_bytes m1 buf (unat (file_pos f1 - file_pos f)) @
      take (sum_list (map asked rs)) (drop (unat (file_pos f1)) ?D),
      f1\<lparr>file_pos := of_nat (min ?s (unat (file_pos f1) + sum_list (map asked rs)))\<rparr>, m')"
    unfolding r fread_all.simps read by (simp only: bind.bind_lunit prod.case rest(1))
  then show ?case using rest(2) by (simp only: got app posk upd list.map sum_list.Cons) blast
qed

end
