(* ===== verification/Fat_Create.thy ===== *)
theory Fat_Create
  imports Fat_Read
begin

text \<open>
  Creating files: the layout of a volume as intervals of offsets, what allocating a cluster and writing a
  directory entry change, and that the search finds the new entry.
\<close>

subsection \<open>Places in the volume\<close>

text \<open>The address of byte \<open>k\<close> of the volume; the parts of a volume are intervals of such offsets.\<close>

definition vol :: "nat \<Rightarrow> u64" where
  "vol k = FAT_PART_BASE + of_nat k"

lemma vol_add: "vol a + of_nat i = vol (a + i)"
  by (simp add: vol_def add.assoc)

lemma vol_minus: "j \<le> i \<Longrightarrow> i < 2 ^ 40 \<Longrightarrow> unat (vol i - vol j) = i - j"
proof -
  assume "j \<le> i" "i < 2 ^ 40"
  then have "vol i - vol j = of_nat (i - j)" "i - j < 2 ^ 64" by (simp_all add: vol_def of_nat_diff)
  then show ?thesis using unat_of_nat64 [of "i - j"] by simp
qed

lemma vol_minus_neg: "i < j \<Longrightarrow> j < 2 ^ 40 \<Longrightarrow> unat (vol i - vol j) \<ge> 2 ^ 63"
proof -
  assume a: "i < j" "j < 2 ^ 40"
  have "vol i - vol j = of_nat i - of_nat j" by (simp add: vol_def)
  moreover have "unat (of_nat i - of_nat j :: u64) = unat (of_nat i :: u64) + 2 ^ 64 - j"
    using a unat_minus_of_nat [of j "of_nat i"] unat_of_nat64 [of i] by simp
  ultimately show ?thesis using a unat_of_nat64 [of i] by simp
qed

lemma vol_inject: "i < 2 ^ 40 \<Longrightarrow> j < 2 ^ 40 \<Longrightarrow> vol i = vol j \<longleftrightarrow> i = j"
proof
  assume a: "i < 2 ^ 40" "j < 2 ^ 40" and "vol i = vol j"
  then have "(of_nat i :: u64) = of_nat j" by (simp only: vol_def add_left_cancel)
  then have "unat (of_nat i :: u64) = unat (of_nat j :: u64)" by (simp only:)
  moreover have "i < 2 ^ 64" "j < 2 ^ 64" using a by simp_all
  ultimately show "i = j" by (simp only: unat_of_nat64)
qed simp

lemma vol_diff_less:
  assumes "k < 2 ^ 40" "a < 2 ^ 40" "n \<le> 2 ^ 40"
  shows "unat (vol k - vol a) < n \<longleftrightarrow> a \<le> k \<and> k < a + n"
proof (cases "a \<le> k")
  case True
  then show ?thesis using vol_minus [OF True assms(1)] by auto
next
  case False
  then show ?thesis using vol_minus_neg [of k a] assms by simp
qed

lemma fill_vol:
  "k < 2 ^ 40 \<Longrightarrow> a < 2 ^ 40 \<Longrightarrow> n \<le> 2 ^ 40 \<Longrightarrow>
    fill_bytes (vol a) v n m (vol k) = (if a \<le> k \<and> k < a + n then v else m (vol k))"
  by (simp add: fill_bytes_def vol_diff_less)

lemma store_vol:
  "k < 2 ^ 40 \<Longrightarrow> a < 2 ^ 40 \<Longrightarrow> length bs \<le> 2 ^ 40 \<Longrightarrow>
    store_bytes (vol a) bs m (vol k) = (if a \<le> k \<and> k < a + length bs then bs ! (k - a) else m (vol k))"
  using vol_diff_less [of k a "length bs"] vol_minus [of a k] by (simp add: store_bytes_def)

lemma wr16_vol:
  assumes "a < 2 ^ 32" "k < 2 ^ 40"
  shows "wr16 (vol a) v m (vol k) = (if k = a then ucast (v AND 0xFF) else if k = a + 1 then ucast (drop_bit 8 v AND 0xFF)
    else m (vol k))"
proof -
  have "vol a + 1 = vol (a + 1)" using vol_add [of a 1] by simp
  then show ?thesis using assms vol_inject [of k a] vol_inject [of k "a + 1"] by (simp add: wr16_def)
qed

lemma rd16_wr16: "rd16 (wr16 p v m) p = v"
proof -
  have m: "(0xFF :: u16) = mask 8" by (simp add: mask_eq_exp_minus_1)
  have "(ucast (ucast (v AND 0xFF) :: u8) OR push_bit 8 (ucast (ucast (drop_bit 8 v AND 0xFF) :: u8)) :: u16) = v"
    unfolding m
  proof (rule bit_word_eqI)
    fix i assume "i < LENGTH(16)"
    then show "bit (ucast (ucast (v AND mask 8) :: u8) OR push_bit 8 (ucast (ucast (drop_bit 8 v AND mask 8) :: u8)) :: u16) i
        = bit v i"
      by (cases "i < 8") (auto simp: bit_simps simp del: mask_numeral)
  qed
  moreover have "p + 1 \<noteq> p" by simp
  ultimately show ?thesis by (simp add: rd16_def wr16_def)
qed

lemma rd16_vol_cong: "m (vol a) = m' (vol a) \<Longrightarrow> m (vol (a + 1)) = m' (vol (a + 1)) \<Longrightarrow> rd16 m (vol a) = rd16 m' (vol a)"
  using vol_add [of a 1] by (simp add: rd16_def)

subsection \<open>The layout of a volume\<close>

definition fat1_off :: "fat16 \<Rightarrow> nat" where "fat1_off f = unat (fat_sec f) * unat (bps f)"
definition fat2_off :: "fat16 \<Rightarrow> nat" where "fat2_off f = (unat (fat_sec f) + unat (spf f)) * unat (bps f)"
definition root_off :: "fat16 \<Rightarrow> nat" where "root_off f = unat (root_sec f) * unat (bps f)"
definition data_off :: "fat16 \<Rightarrow> nat" where "data_off f = unat (data_sec f) * unat (bps f)"
definition cluster_len :: "fat16 \<Rightarrow> nat" where "cluster_len f = unat (spc f) * unat (bps f)"
definition cluster_off :: "fat16 \<Rightarrow> u16 \<Rightarrow> nat" where "cluster_off f c = data_off f + (unat c - 2) * cluster_len f"

text \<open>
  A volume with the clusters 2 to \<open>n - 1\<close>: the tables, the root directory and the clusters lie behind each
  other, and all offsets fit 32 bits.
\<close>

definition volume_ok :: "fat16 \<Rightarrow> nat \<Rightarrow> bool" where
  "volume_ok f n \<longleftrightarrow> 2 \<le> n \<and> n \<le> 0xFFF7 \<and> nfats f \<noteq> 0 \<and>
     fat1_off f + 2 * n \<le> fat2_off f \<and>
     (if nfats f > 1 then fat2_off f + 2 * n else fat1_off f + 2 * n) \<le> root_off f \<and>
     root_off f + 32 * unat (rdcnt f) \<le> data_off f \<and>
     data_off f + (n - 2) * cluster_len f < 2 ^ 32"

lemma sector_vol:
  assumes "unat s * unat (bps f) < 2 ^ 32"
  shows "fat16_sector f s = vol (unat s * unat (bps f))"
proof -
  have "s * ucast (bps f) = (of_nat (unat s * unat (bps f)) :: u32)" by simp
  then have "unat (s * ucast (bps f)) = unat s * unat (bps f)"
    using assms by (simp only: unat_of_nat) (simp add: take_bit_nat_eq_self)
  then show ?thesis by (simp only: fat16_sector_def vol_def ucast_of_nat32)
qed

lemma volume_bounds:
  assumes "volume_ok f n"
  shows "0 < unat (bps f)" "fat1_off f < 2 ^ 32" "nfats f > 1 \<Longrightarrow> fat2_off f < 2 ^ 32" "root_off f < 2 ^ 32" "data_off f < 2 ^ 32"
proof -
  show "0 < unat (bps f)"
  proof (rule ccontr)
    assume "\<not> 0 < unat (bps f)"
    then have "fat2_off f = 0" by (simp add: fat2_off_def)
    then show False using assms unfolding volume_ok_def by auto
  qed
qed (use assms in \<open>auto simp: volume_ok_def split: if_splits\<close>)

lemma le_times: "0 < (b :: nat) \<Longrightarrow> a * b < c \<Longrightarrow> a < c"
  by (metis le_less_trans mult.commute mult_le_mono1 nat_mult_1 One_nat_def Suc_leI)

lemma sector_places:
  assumes "volume_ok f n"
  shows "fat16_sector f (fat_sec f) = vol (fat1_off f)" "fat16_sector f (root_sec f) = vol (root_off f)"
    "nfats f > 1 \<Longrightarrow> fat16_sector f (fat_sec f + ucast (spf f)) = vol (fat2_off f)"
proof -
  note b = volume_bounds [OF assms]
  show "fat16_sector f (fat_sec f) = vol (fat1_off f)" "fat16_sector f (root_sec f) = vol (root_off f)"
    using b(2,4) sector_vol by (simp_all add: fat1_off_def root_off_def)
  assume "nfats f > 1"
  then have lt: "(unat (fat_sec f) + unat (spf f)) * unat (bps f) < 2 ^ 32" using b(3) by (simp add: fat2_off_def)
  then have "unat (fat_sec f) + unat (spf f) < 2 ^ 32" using b(1) le_times by blast
  moreover have "unat (ucast (spf f) :: u32) = unat (spf f)"
    using unsigned_less [of "spf f", where 'a = nat] by (simp add: unsigned_ucast_eq take_bit_nat_eq_self)
  ultimately have "unat (fat_sec f + ucast (spf f)) = unat (fat_sec f) + unat (spf f)"
    using unat_add_lem [of "fat_sec f" "ucast (spf f)"] by simp
  then show "fat16_sector f (fat_sec f + ucast (spf f)) = vol (fat2_off f)"
    using sector_vol [of "fat_sec f + ucast (spf f)" f] lt by (simp add: fat2_off_def)
qed

lemma cluster_place:
  assumes "volume_ok f n" "2 \<le> unat c" "unat c < n"
  shows "fat16_cluster_ptr f c = vol (cluster_off f c)" "data_off f \<le> cluster_off f c"
    "cluster_off f c + cluster_len f < 2 ^ 32"
proof -
  let ?k = "unat c - 2" and ?s = "data_sec f + (ucast c - 2) * ucast (spc f)"
  have k: "Suc ?k \<le> n - 2" using assms(2,3) by simp
  then have "Suc ?k * cluster_len f \<le> (n - 2) * cluster_len f" by (rule mult_le_mono1)
  then show fits: "cluster_off f c + cluster_len f < 2 ^ 32"
    using assms(1) by (simp add: volume_ok_def cluster_off_def)
  show "data_off f \<le> cluster_off f c" by (simp add: cluster_off_def)
  have off: "cluster_off f c = (unat (data_sec f) + ?k * unat (spc f)) * unat (bps f)"
    by (simp only: cluster_off_def data_off_def cluster_len_def add_mult_distrib mult.assoc)
  have small: "(unat (data_sec f) + ?k * unat (spc f)) * unat (bps f) < 2 ^ 32"
    using fits unfolding off by linarith
  then have lt: "unat (data_sec f) + ?k * unat (spc f) < 2 ^ 32"
    by (rule le_times [OF volume_bounds(1) [OF assms(1)]])
  have "(ucast c - 2 :: u32) = of_nat ?k" using assms(2) by (simp add: of_nat_diff)
  then have "?s = of_nat (unat (data_sec f) + ?k * unat (spc f))" by simp
  then have "unat ?s = unat (data_sec f) + ?k * unat (spc f)"
    using lt by (simp only: unat_of_nat) (simp add: take_bit_nat_eq_self)
  then show "fat16_cluster_ptr f c = vol (cluster_off f c)"
    using sector_vol [of ?s f] small by (simp only: fat16_cluster_ptr_def off)
qed

lemma free_cluster_first:
  "free_cluster m p k c = Some c' \<Longrightarrow> unat c + k \<le> 2 ^ 16 \<Longrightarrow>
    unat c \<le> unat c' \<and> unat c' < unat c + k \<and> rd16 m (p + ucast c' * 2) = 0"
proof (induction k arbitrary: c)
  case (Suc k)
  have next_c: "unat (c + 1) = unat c + 1" if "k > 0" using that Suc.prems(2) unat_add_lem [of c 1] by simp
  show ?case
  proof (cases "rd16 m (p + ucast c * 2) = 0")
    case False
    then have "free_cluster m p k (c + 1) = Some c'" using Suc.prems(1) by simp
    moreover from this have "k > 0" by (cases k) simp_all
    ultimately show ?thesis using Suc.IH [of "c + 1"] Suc.prems(2) next_c by simp
  qed (use Suc.prems in simp)
qed simp

lemma free_cluster_exists:
  "rd16 m (p + ucast (d :: u16) * 2) = 0 \<Longrightarrow> unat c \<le> unat d \<Longrightarrow> unat d < unat c + k \<Longrightarrow> unat c + k \<le> 2 ^ 16 \<Longrightarrow>
    \<exists>c'. free_cluster m p k c = Some c' \<and> unat c' \<le> unat d"
proof (induction k arbitrary: c)
  case (Suc k)
  show ?case
  proof (cases "rd16 m (p + ucast c * 2) = 0")
    case False
    then have "c \<noteq> d" using Suc.prems(1) by auto
    then have lt: "unat c < unat d" using Suc.prems(2) by (metis le_neq_implies_less word_unat_eq_iff)
    then have "unat (c + 1) = unat c + 1" using Suc.prems unat_add_lem [of c 1] by simp
    then show ?thesis using Suc.IH [of "c + 1"] Suc.prems lt False by simp
  qed (use Suc.prems in simp)
qed simp

lemma free_slot_first:
  "free_slot m k e = Some s \<Longrightarrow> \<exists>i < k. s = e + 32 * of_nat i \<and> (m s = 0 \<or> m s = 0xE5) \<and>
    (\<forall>j < i. m (e + 32 * of_nat j) \<notin> {0, 0xE5})"
proof (induction k arbitrary: e)
  case (Suc k)
  show ?case
  proof (cases "m e = 0 \<or> m e = 0xE5")
    case True
    then show ?thesis using Suc.prems by (intro exI [of _ 0]) simp
  next
    case False
    then obtain i where i: "i < k" "s = e + 32 + 32 * of_nat i" "m s = 0 \<or> m s = 0xE5"
      "\<forall>j < i. m (e + 32 + 32 * of_nat j) \<notin> {0, 0xE5}"
      using Suc.IH [of "e + 32"] Suc.prems by auto
    have "m (e + 32 * of_nat j) \<notin> {0, 0xE5}" if "j < Suc i" for j
      using that False i(4) by (cases j) (auto simp: algebra_simps)
    then show ?thesis using i by (intro exI [of _ "Suc i"]) (simp add: algebra_simps)
  qed
qed simp

text \<open>A search that passes over the entries before \<open>s\<close> as it did before, and accepts \<open>s\<close>, finds it.\<close>

lemma search_finds:
  assumes "i < k" "\<forall>j < i. m (e + 32 * of_nat j) \<notin> {0, 0xE5}" "found (dir_search m (\<lambda>e. False) ok k e) = None"
    and "\<forall>j < i. m' (e + 32 * of_nat j) = m (e + 32 * of_nat j) \<and> m' (e + 32 * of_nat j + 11) = m (e + 32 * of_nat j + 11) \<and>
      ok' (e + 32 * of_nat j) = ok (e + 32 * of_nat j)"
    and "m' (e + 32 * of_nat i) \<notin> {0, 0xE5}" "m' (e + 32 * of_nat i + 11) AND 0x08 = 0" "ok' (e + 32 * of_nat i)"
  shows "dir_search m' (\<lambda>e. False) ok' k e = Found (e + 32 * of_nat i)"
  using assms
proof (induction k arbitrary: e i)
  case (Suc k)
  show ?case
  proof (cases i)
    case 0
    then show ?thesis using Suc.prems(5-7) by simp
  next
    case (Suc i')
    have shift: "e + 32 * of_nat (Suc j) = (e + 32) + 32 * of_nat j" for j by (simp add: algebra_simps)
    note prems = Suc.prems(2,4) [THEN spec, of "Suc _", unfolded shift]
    have here: "m e \<notin> {0, 0xE5}" "m' e = m e" "m' (e + 11) = m (e + 11)" "ok' e = ok e"
      using Suc.prems(2,4) [THEN spec, of 0] Suc by simp_all
    have skip: "m (e + 11) AND 0x08 \<noteq> 0 \<or> \<not> ok e" using Suc.prems(3) here(1) by auto
    have "found (dir_search m (\<lambda>e. False) ok k (e + 32)) = None"
      using Suc.prems(3) here(1) skip by (auto split: if_splits)
    from Suc.IH [OF _ _ this _ Suc.prems(5-7) [unfolded Suc shift]]
    have "dir_search m' (\<lambda>e. False) ok' k (e + 32) = Found (e + 32 + 32 * of_nat i')"
      using Suc Suc.prems(1) prems by simp
    then show ?thesis using here skip by (simp add: Suc shift)
  qed
qed simp

subsection \<open>Creating a file\<close>

lemma unat_cluster_bytes: "unat (ucast (spc f) * ucast (bps f) :: u32) = cluster_len f"
proof -
  have b: "unat (spc f) < 2 ^ 8" "unat (bps f) < 2 ^ 16"
    using unsigned_less [of "spc f", where 'a = nat] unsigned_less [of "bps f", where 'a = nat] by simp_all
  then have "unat (spc f) * unat (bps f) < 2 ^ 8 * 2 ^ 16" by (intro mult_strict_mono) simp_all
  moreover have "ucast (spc f) * ucast (bps f) = (of_nat (unat (spc f) * unat (bps f)) :: u32)" by simp
  ultimately show ?thesis by (simp only: unat_of_nat cluster_len_def) (simp add: take_bit_nat_eq_self)
qed

text \<open>Where allocating cluster \<open>c\<close> changes the volume.\<close>

definition alloc_change :: "fat16 \<Rightarrow> u16 \<Rightarrow> nat \<Rightarrow> u8 option" where
  "alloc_change f c k =
     (if cluster_off f c \<le> k \<and> k < cluster_off f c + cluster_len f then Some 0
      else if nfats f > 1 \<and> (k = fat2_off f + 2 * unat c \<or> k = fat2_off f + 2 * unat c + 1) then Some 0xFF
      else if k = fat1_off f + 2 * unat c \<or> k = fat1_off f + 2 * unat c + 1 then Some 0xFF
      else None)"

definition changed :: "(nat \<Rightarrow> u8 option) \<Rightarrow> ram \<Rightarrow> ram \<Rightarrow> bool" where
  "changed g m m' \<longleftrightarrow> (\<forall>k < 2 ^ 40. m' (vol k) = (case g k of None \<Rightarrow> m (vol k) | Some v \<Rightarrow> v))"

lemma table_entry: "vol a + ucast (c :: u16) * 2 = vol (a + 2 * unat c)"
proof -
  have "ucast c * 2 = (of_nat (2 * unat c) :: u64)" by simp
  then show ?thesis by (simp only: vol_add)
qed

lemma alloc_exact:
  assumes ok: "volume_ok f n" and free: "2 \<le> unat d" "unat d < n" "fat16_next_cluster m f d = 0"
  shows "\<exists>c m'. fat16_alloc f m = (c, m') \<and> 2 \<le> unat c \<and> unat c \<le> unat d \<and> fat16_next_cluster m f c = 0 \<and>
    changed (alloc_change f c) m m'"
proof -
  note places = sector_places [OF ok] and bounds = volume_bounds [OF ok]
  have n: "n \<le> 0xFFF7" using ok by (simp add: volume_ok_def)
  have dfree: "rd16 m (vol (fat1_off f) + ucast d * 2) = 0"
    using free(3) by (simp add: fat16_next_cluster_def places(1))
  obtain c where c: "free_cluster m (vol (fat1_off f)) (0xFFF7 - 2) 2 = Some c" "unat c \<le> unat d"
    using free_cluster_exists [OF dfree, of 2 "0xFFF7 - 2"] free n by auto
  have cc: "2 \<le> unat c" "rd16 m (vol (fat1_off f) + ucast c * 2) = 0"
    using free_cluster_first [OF c(1)] by simp_all
  then have cfree: "fat16_next_cluster m f c = 0" by (simp add: fat16_next_cluster_def places(1))
  have cn: "unat c < n" using c(2) free(2) by simp
  note place = cluster_place [OF ok cc(1) cn]
  have offs: "fat1_off f + 2 * unat c < 2 ^ 32" "nfats f > 1 \<Longrightarrow> fat2_off f + 2 * unat c < 2 ^ 32"
    using ok cn by (auto simp: volume_ok_def split: if_splits)
  define m1 where "m1 = wr16 (vol (fat1_off f + 2 * unat c)) 0xFFFF m"
  define m2 where "m2 = (if nfats f > 1 then wr16 (vol (fat2_off f + 2 * unat c)) 0xFFFF m1 else m1)"
  define m3 where "m3 = fill_bytes (vol (cluster_off f c)) 0 (cluster_len f) m2"
  have "fat16_alloc f m = (c, m3)"
    unfolding fat16_alloc_def Let_def places(1) c(1) m3_def m2_def m1_def
    by (simp add: places(3) table_entry place(1) unat_cluster_bytes)
  moreover have "changed (alloc_change f c) m m3"
    unfolding changed_def
  proof (intro allI impI)
    fix k :: nat assume k: "k < 2 ^ 40"
    have m1: "m1 (vol k) = (if k = fat1_off f + 2 * unat c \<or> k = fat1_off f + 2 * unat c + 1 then 0xFF else m (vol k))"
      unfolding m1_def by (subst wr16_vol [OF offs(1) k]) simp
    have m2: "m2 (vol k) = (if nfats f > 1 \<and> (k = fat2_off f + 2 * unat c \<or> k = fat2_off f + 2 * unat c + 1) then 0xFF
        else m1 (vol k))"
      unfolding m2_def by (cases "nfats f > 1") (simp_all add: wr16_vol [OF offs(2) k])
    have "m3 (vol k) = (if cluster_off f c \<le> k \<and> k < cluster_off f c + cluster_len f then 0 else m2 (vol k))"
      unfolding m3_def using k place(3) by (intro fill_vol) simp_all
    then show "m3 (vol k) = (case alloc_change f c k of None \<Rightarrow> m (vol k) | Some v \<Rightarrow> v)"
      by (simp only: m1 m2 alloc_change_def if_distrib [of "case_option _ _"] option.case)
  qed
  ultimately show ?thesis using cc(1) c(2) cfree by blast
qed

text \<open>Where writing the entry of a new file changes the volume.\<close>

definition entry_change :: "nat \<Rightarrow> u8 list \<Rightarrow> u16 \<Rightarrow> nat \<Rightarrow> u8 option" where
  "entry_change e name c k =
     (if k = e + 26 then Some (ucast (c AND 0xFF)) else if k = e + 27 then Some (ucast (drop_bit 8 c AND 0xFF))
      else if k = e + 11 then Some 0x20
      else if e \<le> k \<and> k < e + 11 then Some (name ! (k - e))
      else if e \<le> k \<and> k < e + 32 then Some 0 else None)"

lemma entry_written:
  assumes "e < 2 ^ 32 - 32" "length name = 11"
  shows "changed (entry_change e name c) m
    (wr16 (vol e + 26) c ((store_bytes (vol e) name (fill_bytes (vol e) 0 32 m))(vol e + 11 := 0x20)))"
  unfolding changed_def
proof (intro allI impI)
  fix k :: nat assume k: "k < 2 ^ 40"
  have e: "vol e + 26 = vol (e + 26)" "vol e + 11 = vol (e + 11)" using vol_add [of e 26] vol_add [of e 11] by simp_all
  have e26: "e + 26 < 2 ^ 32" "e + 26 + 1 = e + 27" using assms(1) by simp_all
  let ?m1 = "fill_bytes (vol e) 0 32 m" and ?m2 = "store_bytes (vol e) name (fill_bytes (vol e) 0 32 m)"
  have f: "?m1 (vol k) = (if e \<le> k \<and> k < e + 32 then 0 else m (vol k))"
    using k assms(1) by (intro fill_vol) simp_all
  have s: "?m2 (vol k) = (if e \<le> k \<and> k < e + 11 then name ! (k - e) else ?m1 (vol k))"
    using k assms store_vol [of k e name ?m1] by simp
  have d: "(?m2(vol (e + 11) := 0x20)) (vol k) = (if k = e + 11 then 0x20 else ?m2 (vol k))"
    using k assms(1) vol_inject [of k "e + 11"] by simp
  show "wr16 (vol e + 26) c (?m2(vol e + 11 := 0x20)) (vol k) = (case entry_change e name c k of None \<Rightarrow> m (vol k) | Some v \<Rightarrow> v)"
    unfolding e wr16_vol [OF e26(1) k] e26(2) d s f
    by (simp only: entry_change_def if_distrib [of "case_option _ _"] option.case)
qed

text \<open>The parts of the volume do not overlap.\<close>

lemma changes_apart:
  assumes ok: "volume_ok f n" and c: "2 \<le> unat c" "unat c < n" and i: "i < unat (rdcnt f)"
  defines "e \<equiv> root_off f + 32 * i"
  shows "k < e + 32 \<Longrightarrow> e \<le> k \<Longrightarrow> alloc_change f c k = None"
    "unat d < n \<Longrightarrow> k = fat1_off f + 2 * unat d \<or> k = fat1_off f + 2 * unat d + 1 \<Longrightarrow>
      entry_change e name c k = None \<and> alloc_change f c k = (if d = c then Some 0xFF else None)"
    "cluster_off f c \<le> k \<Longrightarrow> k < cluster_off f c + cluster_len f \<Longrightarrow>
      entry_change e name c k = None \<and> alloc_change f c k = Some 0"
    "j < i \<Longrightarrow> k < root_off f + 32 * j + 32 \<Longrightarrow> root_off f + 32 * j \<le> k \<Longrightarrow>
      entry_change e name c k = None \<and> alloc_change f c k = None"
    "e + 32 \<le> data_off f" "e < 2 ^ 32 - 32"
proof -
  let ?F = "fat1_off f" and ?G = "fat2_off f" and ?C = "cluster_off f c" and ?L = "cluster_len f"
  have "data_off f \<le> ?C" "?C + ?L < 2 ^ 32" using cluster_place [OF ok c] by simp_all
  moreover have tables: "?F + 2 * n \<le> ?G" "?F + 2 * n \<le> root_off f" "nfats f > 1 \<Longrightarrow> ?G + 2 * n \<le> root_off f"
    "root_off f + 32 * unat (rdcnt f) \<le> data_off f"
    using ok by (auto simp: volume_ok_def split: if_splits)
  moreover have "32 * i + 32 \<le> 32 * unat (rdcnt f)" using i by simp
  ultimately have lin: "?F + 2 * n \<le> ?G" "?F + 2 * n \<le> root_off f" "nfats f > 1 \<Longrightarrow> ?G + 2 * n \<le> root_off f"
    "root_off f \<le> e" "e + 32 \<le> ?C" "?C + ?L < 2 ^ 32" "e + 32 \<le> data_off f"
    by (simp_all add: e_def)
  show "e + 32 \<le> data_off f" by (rule lin)
  show "e < 2 ^ 32 - 32" using lin(5,6) by simp
  show "alloc_change f c k = None" if "k < e + 32" "e \<le> k"
    using that lin c(2) unfolding alloc_change_def by (cases "nfats f > 1") auto
  show "entry_change e name c k = None \<and> alloc_change f c k = Some 0" if "?C \<le> k" "k < ?C + ?L"
    using that lin by (simp add: entry_change_def alloc_change_def)
  show "entry_change e name c k = None \<and> alloc_change f c k = None"
    if "j < i" "k < root_off f + 32 * j + 32" "root_off f + 32 * j \<le> k"
  proof -
    have "k < e" "root_off f \<le> k" using that by (simp_all add: e_def)
    then show ?thesis
      using lin c(2) unfolding alloc_change_def entry_change_def by (cases "nfats f > 1") auto
  qed
  show "entry_change e name c k = None \<and> alloc_change f c k = (if d = c then Some 0xFF else None)"
    if "unat d < n" "k = ?F + 2 * unat d \<or> k = ?F + 2 * unat d + 1"
  proof -
    have "k < ?F + 2 * n" using that by auto
    then have "entry_change e name c k = None" using lin by (simp add: entry_change_def)
    moreover have "k = ?F + 2 * unat c \<or> k = ?F + 2 * unat c + 1 \<longleftrightarrow> d = c"
    proof -
      have "k = ?F + 2 * unat c \<or> k = ?F + 2 * unat c + 1 \<longleftrightarrow> unat d = unat c" using that(2) by presburger
      then show ?thesis by (simp only: word_unat_eq_iff)
    qed
    ultimately show ?thesis using lin \<open>k < ?F + 2 * n\<close> by (auto simp: alloc_change_def)
  qed
qed

definition create_change :: "fat16 \<Rightarrow> nat \<Rightarrow> u8 list \<Rightarrow> u16 \<Rightarrow> nat \<Rightarrow> u8 option" where
  "create_change f e name c k = (case entry_change e name c k of None \<Rightarrow> alloc_change f c k | Some v \<Rightarrow> Some v)"

lemma changed_create:
  "changed (alloc_change f c) m m1 \<Longrightarrow> changed (entry_change e name c) m1 m2 \<Longrightarrow> changed (create_change f e name c) m m2"
  by (simp add: changed_def create_change_def split: option.splits)

lemma changed_Some: "changed g m m' \<Longrightarrow> k < 2 ^ 40 \<Longrightarrow> g k = Some v \<Longrightarrow> m' (vol k) = v"
  by (simp add: changed_def)

lemma changed_None: "changed g m m' \<Longrightarrow> k < 2 ^ 40 \<Longrightarrow> g k = None \<Longrightarrow> m' (vol k) = m (vol k)"
  by (simp add: changed_def)

lemma memcmp_zero: "length ps = length qs \<Longrightarrow> memcmp ps qs = 0 \<longleftrightarrow> ps = qs"
proof (induction ps qs rule: memcmp.induct)
  case (1 p ps q qs)
  then show ?case by (auto simp: word_uint_eq_iff)
qed auto

text \<open>The hypotheses that the facts about a created file share.\<close>

definition creates :: "fat16 \<Rightarrow> nat \<Rightarrow> nat \<Rightarrow> u8 list \<Rightarrow> u16 \<Rightarrow> ram \<Rightarrow> ram \<Rightarrow> bool" where
  "creates f n i name c m m' \<longleftrightarrow> volume_ok f n \<and> 2 \<le> unat c \<and> unat c < n \<and> i < unat (rdcnt f) \<and> length name = 11 \<and>
     changed (create_change f (root_off f + 32 * i) name c) m m'"

lemma created_table:
  assumes cr: "creates f n i name c m m'" and x: "unat x < n"
  shows "fat16_next_cluster m' f x = (if x = c then 0xFFFF else fat16_next_cluster m f x)"
proof -
  let ?k = "fat1_off f + 2 * unat x" and ?g = "create_change f (root_off f + 32 * i) name c"
  have ok: "volume_ok f n" and c: "2 \<le> unat c" "unat c < n" and i: "i < unat (rdcnt f)" and ch: "changed ?g m m'"
    using cr by (simp_all add: creates_def)
  have place: "fat16_sector f (fat_sec f) + ucast x * 2 = vol ?k"
    by (simp only: sector_places(1) [OF ok] table_entry)
  have k: "?k < 2 ^ 40" "?k + 1 < 2 ^ 40"
    using x ok volume_bounds(2) [OF ok] by (auto simp: volume_ok_def split: if_splits)
  have g: "?g ?k = (if x = c then Some 0xFF else None)" "?g (?k + 1) = (if x = c then Some 0xFF else None)"
    using changes_apart(2) [OF ok c i x, of _ name] by (simp_all add: create_change_def)
  show ?thesis
  proof (cases "x = c")
    case True
    then have gc: "?g ?k = Some 0xFF" "?g (?k + 1) = Some 0xFF" using g by simp_all
    have "m' (vol ?k) = 0xFF" by (rule changed_Some [OF ch k(1) gc(1)])
    moreover have "m' (vol (?k + 1)) = 0xFF" by (rule changed_Some [OF ch k(2) gc(2)])
    moreover have "vol ?k + 1 = vol (?k + 1)" using vol_add [of ?k 1] by simp
    ultimately have "fat16_next_cluster m' f x = 0xFFFF"
      by (simp only: fat16_next_cluster_def place rd16_def) simp
    then show ?thesis using True by simp
  next
    case False
    then show ?thesis
      using changed_None [OF ch k(1)] changed_None [OF ch k(2)] g
      by (simp add: fat16_next_cluster_def place) (rule rd16_vol_cong, simp_all)
  qed
qed

lemma created_entry:
  assumes cr: "creates f n i name c m m'"
  defines "e \<equiv> root_off f + 32 * i"
  shows "load_bytes m' (vol e) 11 = name" "m' (vol (e + 11)) = 0x20" "fat16_dir_cluster m' (vol e) = c"
    "fat16_dir_size m' (vol e) = 0"
proof -
  have ok: "volume_ok f n" and c: "2 \<le> unat c" "unat c < n" and i: "i < unat (rdcnt f)" and n: "length name = 11"
    and ch: "changed (create_change f e name c) m m'"
    using cr by (simp_all add: creates_def e_def)
  have e: "e < 2 ^ 32 - 32" using changes_apart(6) [OF ok c i] by (simp only: e_def)
  have b: "m' (vol (e + k)) = v" if "entry_change e name c (e + k) = Some v" "k < 32" for k v
    using changed_Some [OF ch, of "e + k" v] that e by (simp add: create_change_def)
  show "load_bytes m' (vol e) 11 = name"
    using b n by (intro nth_equalityI) (simp_all add: vol_add entry_change_def)
  show "m' (vol (e + 11)) = 0x20" by (rule b) (simp_all add: entry_change_def)
  have "m' (vol (e + 26)) = ucast (c AND 0xFF)" "m' (vol (e + 27)) = ucast (drop_bit 8 c AND 0xFF)"
    by (rule b; simp add: entry_change_def)+
  moreover have "vol e + 26 = vol (e + 26)" using vol_add [of e 26] by simp
  moreover have "vol (e + 26) + 1 = vol (e + 27)"
  proof -
    have "e + 26 + 1 = e + 27" by simp
    then show ?thesis using vol_add [of "e + 26" 1] by (simp only: of_nat_1)
  qed
  moreover have "vol (e + 27) \<noteq> vol (e + 26)" using e vol_inject [of "e + 27" "e + 26"] by simp
  ultimately have "rd16 m' (vol e + 26) = rd16 (wr16 (vol (e + 26)) c m') (vol (e + 26))"
    by (simp add: rd16_def wr16_def)
  then show "fat16_dir_cluster m' (vol e) = c" by (simp only: fat16_dir_cluster_def rd16_wr16)
  have "m' (vol (e + k)) = 0" if "28 \<le> k" "k < 32" for k using that by (intro b) (simp_all add: entry_change_def)
  moreover have eqs: "vol e + 28 = vol (e + 28)" "vol (e + 28) + 1 = vol (e + 29)" "vol (e + 28) + 2 = vol (e + 30)"
    "vol (e + 28) + 3 = vol (e + 31)" by (simp_all add: vol_def)
  ultimately
  show "fat16_dir_size m' (vol e) = 0"
    by (simp add: fat16_dir_size_def rd32_le_def eqs)
qed

lemma created_cluster:
  assumes cr: "creates f n i name c m m'"
  shows "load_bytes m' (fat16_cluster_ptr f c) (cluster_len f) = replicate (cluster_len f) 0"
proof -
  have ok: "volume_ok f n" and c: "2 \<le> unat c" "unat c < n" and i: "i < unat (rdcnt f)"
    and ch: "changed (create_change f (root_off f + 32 * i) name c) m m'"
    using cr by (simp_all add: creates_def)
  note place = cluster_place [OF ok c]
  show ?thesis
  proof (rule nth_equalityI)
    fix k assume k: "k < length (load_bytes m' (fat16_cluster_ptr f c) (cluster_len f))"
    then have "m' (vol (cluster_off f c + k)) = 0"
      using changes_apart(3) [OF ok c i, of "cluster_off f c + k" name] place(3)
      by (intro changed_Some [OF ch]) (simp_all add: create_change_def)
    then show "load_bytes m' (fat16_cluster_ptr f c) (cluster_len f) ! k = replicate (cluster_len f) 0 ! k"
      using k by (simp add: place(1) vol_add)
  qed simp
qed

lemma created_found:
  assumes cr: "creates f n i name c m m'" and name: "name ! 0 \<notin> {0, 0xE5}"
    and free: "\<forall>j < i. m (vol (root_off f) + 32 * of_nat j) \<notin> {0, 0xE5}" and new: "fat16_find f name m = None"
  shows "fat16_find f name m' = Some (vol (root_off f) + 32 * of_nat i)"
proof -
  have ok: "volume_ok f n" and c: "2 \<le> unat c" "unat c < n" and i: "i < unat (rdcnt f)" and n: "length name = 11"
    and ch: "changed (create_change f (root_off f + 32 * i) name c) m m'"
    using cr by (simp_all add: creates_def)
  let ?e = "root_off f + 32 * i" and ?ok = "\<lambda>m e. memcmp (load_bytes m e 11) name = 0"
  have at: "vol (root_off f) + 32 * of_nat j = vol (root_off f + 32 * j)" for j
    using vol_add [of "root_off f" "32 * j"] by simp
  have before: "m' (vol (root_off f + 32 * j + q)) = m (vol (root_off f + 32 * j + q))" if "j < i" "q < 32" for j q
    using changes_apart(4) [OF ok c i that(1), of "root_off f + 32 * j + q" name] changes_apart(6) [OF ok c i] that
    by (intro changed_None [OF ch]) (simp_all add: create_change_def)
  have "m' (vol (root_off f + 32 * j)) = m (vol (root_off f + 32 * j)) \<and>
      m' (vol (root_off f + 32 * j) + 11) = m (vol (root_off f + 32 * j) + 11) \<and>
      load_bytes m' (vol (root_off f + 32 * j)) 11 = load_bytes m (vol (root_off f + 32 * j)) 11" if "j < i" for j
    using before [OF that, of 0] before [OF that, of 11] before [OF that] vol_add [of "root_off f + 32 * j" 11]
    by (auto intro!: load_bytes_cong simp: vol_add)
  moreover note entry = created_entry [OF cr]
  have "m' (vol ?e) = name ! 0" using entry(1) n nth_load_bytes [of 0 11 m' "vol ?e"] by simp
  moreover have "m' (vol ?e + 11) AND 0x08 = 0" using entry(2) vol_add [of ?e 11] by simp
  moreover have "?ok m' (vol ?e)" using entry(1) n by (simp add: memcmp_zero)
  ultimately have "dir_search m' (\<lambda>e. False) (?ok m') (unat (rdcnt f)) (vol (root_off f)) = Found (vol (root_off f) + 32 * of_nat i)"
    using new i free name
    by (intro search_finds [where m = m and ok = "?ok m"]) (auto simp: at fat16_find_def sector_places(2) [OF ok])
  then show ?thesis by (simp add: fat16_find_def sector_places(2) [OF ok])
qed

lemma create_find:
  assumes ok: "volume_ok f n" and free: "2 \<le> unat d" "unat d < n" "fat16_next_cluster m f d = 0"
    and name: "length name = 11" "name ! 0 \<notin> {0, 0xE5}"
    and slot: "fat16_free_entry f m = Some e" and new: "fat16_find f name m = None"
  shows "\<exists>c m'. fat16_create f name m = (Some (e, c), m') \<and> 2 \<le> unat c \<and> unat c < n \<and>
    fat16_next_cluster m f c = 0 \<and>
    (\<forall>x. unat x < n \<longrightarrow> fat16_next_cluster m' f x = (if x = c then 0xFFFF else fat16_next_cluster m f x)) \<and>
    fat16_find f name m' = Some e \<and> fat16_dir_cluster m' e = c \<and> fat16_dir_size m' e = 0 \<and>
    load_bytes m' (fat16_cluster_ptr f c) (cluster_len f) = replicate (cluster_len f) 0"
proof -
  note places = sector_places [OF ok]
  obtain i where i: "i < unat (rdcnt f)" "e = vol (root_off f) + 32 * of_nat i"
      "\<forall>j < i. m (vol (root_off f) + 32 * of_nat j) \<notin> {0, 0xE5}"
    using free_slot_first [of m "unat (rdcnt f)" "vol (root_off f)" e] slot by (auto simp: fat16_free_entry_def places(2))
  let ?e = "root_off f + 32 * i"
  have at: "e = vol ?e" using vol_add [of "root_off f" "32 * i"] by (simp add: i(2))
  obtain c m1 where alloc: "fat16_alloc f m = (c, m1)" "2 \<le> unat c" "unat c \<le> unat d" "fat16_next_cluster m f c = 0"
      "changed (alloc_change f c) m m1"
    using alloc_exact [OF ok free] by blast
  have cn: "unat c < n" using alloc(3) free(2) by simp
  have c0: "c \<noteq> 0" using alloc(2) by auto
  define m' where "m' = wr16 (vol ?e + 26) c ((store_bytes (vol ?e) name (fill_bytes (vol ?e) 0 32 m1))(vol ?e + 11 := 0x20))"
  have created: "fat16_create f name m = (Some (e, c), m')"
    using slot alloc(1) c0 by (simp add: fat16_create_def m'_def at)
  have cr: "creates f n i name c m m'"
    using changed_create [OF alloc(5) entry_written [OF changes_apart(6) [OF ok alloc(2) cn i(1)] name(1)]] ok alloc(2) cn i(1) name(1)
    by (simp add: creates_def m'_def)
  show ?thesis
    using created alloc(2,4) cn created_table [OF cr] created_found [OF cr name(2) i(3) new] created_entry(3,4) [OF cr]
      created_cluster [OF cr]
    by (intro exI [of _ c] exI [of _ m']) (simp add: i(2) at [unfolded i(2)])
qed

end
