(* ===== verification/Fat_Theorems.thy ===== *)
theory Fat_Theorems
  imports Fat_Create
begin

text \<open>The properties of the file system, and a small volume on which they are tried.\<close>

text \<open>
  Sectors of 32 bytes, one table of 16 entries, two directory entries and the clusters 2 and 3. Cluster 2 holds
  the file \<open>A\<close> with the bytes \<open>abc\<close>.
\<close>

definition demo_volume :: fat16 where
  "demo_volume = \<lparr>bps = 32, spc = 1, rsvd = 1, nfats = 1, rdcnt = 2, spf = 1, fat_sec = 1, root_sec = 2, data_sec = 4\<rparr>"

definition demo_entry :: "u8 list" where
  "demo_entry = [0x41] @ replicate 10 0x20 @ [0x20] @ replicate 14 0 @ [2, 0, 3, 0, 0, 0]"

definition demo_ram :: ram where
  "demo_ram = store_bytes 0x82100040 demo_entry (store_bytes 0x82100024 [0xFF, 0xFF]
     (store_bytes 0x82100080 [0x61, 0x62, 0x63] (\<lambda>_. 0)))"

lemma demo_zero: "demo_ram 0x82100026 = 0" "demo_ram 0x82100027 = 0" "demo_ram 0x82100060 = 0"
  by (simp_all add: demo_ram_def demo_entry_def store_bytes_def)

lemma demo_first: "demo_ram 0x82100040 = 0x41" "demo_ram 0x8210004B = 0x20"
  by (simp_all add: demo_ram_def demo_entry_def store_bytes_def nth_append)

lemma demo_load: "load_bytes demo_ram 0x82100040 11 = 0x41 # replicate 10 0x20"
  by code_simp

lemma demo_dir: "fat16_sector demo_volume (root_sec demo_volume) = 0x82100040" "unat (rdcnt demo_volume) = Suc (Suc 0)"
   "fat16_sector demo_volume (fat_sec demo_volume) = 0x82100020"
  by (simp_all add: fat16_sector_def demo_volume_def FAT_PART_BASE_def)

lemma demo_free: "fat16_next_cluster demo_ram demo_volume 3 = 0"
  by (simp add: fat16_next_cluster_def demo_dir rd16_def demo_zero)

lemma demo_slot: "fat16_free_entry demo_volume demo_ram = Some 0x82100060"
  by (simp add: fat16_free_entry_def demo_dir demo_zero demo_first)

lemma demo_new: "fat16_find demo_volume (0x42 # replicate 10 0x20) demo_ram = None"
  by (simp add: fat16_find_def demo_dir demo_zero demo_first demo_load)

text \<open>C17. Opening a file reads it: when the path names an entry whose chain of clusters holds as many
  bytes as the entry says and the heap is below the volume, \<open>fat_fopen\<close> returns a file at position 0 whose buffer
  holds those bytes and a terminator, and changes memory only between the old and the new end of the heap.\<close>
theorem fat_fopen_reads_file:
  assumes "resolve_path m f path = Some (Some entry)" "sz = fat16_dir_size m entry"
    and "unat sz \<le> length (chain_bytes m f k (fat16_dir_cluster m entry))" "cluster_bytes f \<noteq> 0"
    and "heap \<noteq> 0" "uint heap + uint sz + 32 \<le> 0x82100000"
  shows "\<exists>heap' m'. fat_fopen (Some f) path (heap, m) =
      Some (Some \<lparr>file_data = heap + 16, file_size = sz, file_pos = 0\<rparr>, heap', m') \<and>
    load_bytes m' (heap + 16) (unat sz) = take (unat sz) (chain_bytes m f k (fat16_dir_cluster m entry)) \<and>
    m' (heap + 16 + ucast sz) = 0 \<and>
    (\<forall>x. uint x < uint heap + 16 \<or> uint heap' \<le> uint x \<longrightarrow> m' x = m x) \<and>
    uint heap + 16 + uint sz + 1 \<le> uint heap' \<and> uint heap' \<le> 0x82100000"
  by (rule fopen_reads [OF assms])

lemma demo_path: "resolve_path demo_ram demo_volume [0x61] = Some (Some 0x82100040)"
  by code_simp

lemma demo_fields: "fat16_dir_size demo_ram 0x82100040 = 3" "fat16_dir_cluster demo_ram 0x82100040 = 2"
  by code_simp+

lemma demo_chain:
  "length (chain_bytes demo_ram demo_volume 1 2) = 32" "take 3 (chain_bytes demo_ram demo_volume 1 2) = [0x61, 0x62, 0x63]"
proof -
  have ptr: "fat16_cluster_ptr demo_volume 2 = 0x82100080" "unat (cluster_bytes demo_volume) = 32" by code_simp+
  have "load_bytes demo_ram 0x82100080 3 = [0x61, 0x62, 0x63]" by code_simp
  then have "chain_bytes demo_ram demo_volume 1 2 = load_bytes demo_ram 0x82100080 32"
    "take 3 (load_bytes demo_ram 0x82100080 32) = [0x61, 0x62, 0x63]"
    by (simp_all add: in_chain_def ptr take_load_bytes)
  then show "length (chain_bytes demo_ram demo_volume 1 2) = 32"
    "take 3 (chain_bytes demo_ram demo_volume 1 2) = [0x61, 0x62, 0x63]" by (simp_all only: length_load_bytes)
qed

theorem fat_fopen_reads_file_witness:
  "\<exists>heap' m'. fat_fopen (Some demo_volume) [0x61] (HEAP_BASE, demo_ram) =
      Some (Some \<lparr>file_data = 0x81000010, file_size = 3, file_pos = 0\<rparr>, heap', m') \<and>
    load_bytes m' 0x81000010 3 = [0x61, 0x62, 0x63] \<and> m' 0x81000013 = 0"
proof -
  have "cluster_bytes demo_volume \<noteq> 0" "HEAP_BASE \<noteq> 0" "uint HEAP_BASE + uint (3 :: u32) + 32 \<le> 0x82100000"
    "unat (3 :: u32) \<le> length (chain_bytes demo_ram demo_volume 1 (fat16_dir_cluster demo_ram 0x82100040))"
    by (simp add: cluster_bytes_def demo_volume_def, simp_all add: HEAP_BASE_def demo_fields demo_chain del: One_nat_def)
  from fat_fopen_reads_file [OF demo_path demo_fields(1) [symmetric] this(4,1-3)] show ?thesis
    by (auto simp: HEAP_BASE_def demo_fields demo_chain simp del: One_nat_def)
qed



text \<open>C19. Reading a file piece by piece gives its bytes in order: any sequence of reads with buffers apart from
  the file's own leaves in the buffers, one behind the other, the next bytes of the file, as many as were
  asked for and are left, moves the position by as much, and leaves the file's bytes alone.\<close>
theorem fat_fread_stream:
  assumes "file_ok f" "\<forall>r \<in> set rs. read_ok f r"
  shows "\<exists>m'. fread_all rs (f, m) = Some (take (sum_list (map asked rs)) (drop (unat (file_pos f)) (file_bytes f m)),
    f\<lparr>file_pos := of_nat (min (unat (file_size f)) (unat (file_pos f) + sum_list (map asked rs)))\<rparr>, m') \<and>
    file_bytes f m' = file_bytes f m"
  by (rule fread_all_stream [OF assms])

theorem fat_fread_stream_witness:
  "\<exists>m'. fread_all [(0x100, 1, 1), (0x200, 1, 4)] (\<lparr>file_data = 0x1000, file_size = 3, file_pos = 0\<rparr>,
      store_bytes 0x1000 [7, 8, 9] (\<lambda>_. 0)) =
    Some ([7, 8, 9], \<lparr>file_data = 0x1000, file_size = 3, file_pos = 3\<rparr>, m')"
proof -
  let ?f = "\<lparr>file_data = 0x1000, file_size = 3, file_pos = 0\<rparr>" and ?m = "store_bytes 0x1000 [7, 8, 9] (\<lambda>_. 0)"
  have ok: "file_ok ?f" "\<forall>r \<in> set [(0x100, 1, 1), (0x200, 1, 4)]. read_ok ?f r"
    by (simp_all add: file_ok_def read_ok_def asked_def apart_def)
  have bytes: "file_bytes ?f ?m = [7, 8, 9]" by code_simp
  from fat_fread_stream [OF ok, of ?m] show ?thesis unfolding bytes by (auto simp: asked_def)
qed

text \<open>C18. A created file is found again: on a volume whose parts do not overlap, with a free cluster and a free
  entry, creating a file with a new name gives the entry and a cluster that was free; afterwards a search for the
  name finds the entry, which holds that cluster and size 0, the cluster ends its chain and is all zero, and
  the links of all other clusters are as before.\<close>
theorem fat16_created_is_found:
  assumes "volume_ok f n" "2 \<le> unat d" "unat d < n" "fat16_next_cluster m f d = 0"
    and "length name = 11" "name ! 0 \<notin> {0, 0xE5}"
    and "fat16_free_entry f m = Some e" "fat16_find f name m = None"
  shows "\<exists>c m'. fat16_create f name m = (Some (e, c), m') \<and> 2 \<le> unat c \<and> unat c < n \<and>
    fat16_next_cluster m f c = 0 \<and>
    (\<forall>x. unat x < n \<longrightarrow> fat16_next_cluster m' f x = (if x = c then 0xFFFF else fat16_next_cluster m f x)) \<and>
    fat16_find f name m' = Some e \<and> fat16_dir_cluster m' e = c \<and> fat16_dir_size m' e = 0 \<and>
    load_bytes m' (fat16_cluster_ptr f c) (cluster_len f) = replicate (cluster_len f) 0"
  by (rule create_find [OF assms])

theorem fat16_created_is_found_witness:
  "\<exists>c m'. fat16_create demo_volume (0x42 # replicate 10 0x20) demo_ram = (Some (0x82100060, c), m') \<and>
     fat16_find demo_volume (0x42 # replicate 10 0x20) m' = Some 0x82100060"
proof -
  have ok: "volume_ok demo_volume 4"
    by (simp add: volume_ok_def fat1_off_def fat2_off_def root_off_def data_off_def cluster_len_def demo_volume_def)
  have "2 \<le> unat (3 :: u16)" "unat (3 :: u16) < 4" "length (0x42 # replicate 10 (0x20 :: u8)) = 11"
    "(0x42 # replicate 10 (0x20 :: u8)) ! 0 \<notin> {0, 0xE5}" by simp_all
  from fat16_created_is_found [OF ok this(1,2) demo_free this(3,4) demo_slot demo_new] show ?thesis
    by (elim exE conjE) (intro exI conjI, assumption+)
qed

end
