(* ===== verification/Syscalls.thy ===== *)
theory Syscalls
  imports Fat_Read
begin

text \<open>
  Memory and string functions of the C runtime, \<open>common/syscalls.c\<close>, and \<open>memmove\<close> of
  \<open>mempol/bare_malloc.c\<close>, as the loops they are, over the memory of \<open>Fat16\<close>. The first argument of a loop is the
  most turns it can take.
\<close>

subsection \<open>Words in memory\<close>

text \<open>Little endian, as the cores are.\<close>

definition join_bytes :: "u8 list \<Rightarrow> u64" where
  "join_bytes bs = foldr (\<lambda>b w. ucast b OR push_bit 8 w) bs 0"

definition load64 :: "ram \<Rightarrow> u64 \<Rightarrow> u64" where
  "load64 m a = join_bytes (load_bytes m a 8)"

definition bytes64 :: "u64 \<Rightarrow> u8 list" where
  "bytes64 v = map (\<lambda>i. ucast (drop_bit (8 * i) v)) [0..<8]"

definition store64 :: "u64 \<Rightarrow> u64 \<Rightarrow> ram \<Rightarrow> ram" where
  "store64 a v m = store_bytes a (bytes64 v) m"

subsection \<open>Copying\<close>

fun memcpy_words :: "nat \<Rightarrow> u64 \<Rightarrow> u64 \<Rightarrow> u64 \<Rightarrow> ram \<Rightarrow> ram" where
  "memcpy_words 0 lim d s m = m"
| "memcpy_words (Suc n) lim d s m =
     (if d < lim then memcpy_words n lim (d + 8) (s + 8) (store64 d (load64 m s) m) else m)"

fun memcpy_bytes :: "nat \<Rightarrow> u64 \<Rightarrow> u64 \<Rightarrow> u64 \<Rightarrow> ram \<Rightarrow> ram" where
  "memcpy_bytes 0 lim d s m = m"
| "memcpy_bytes (Suc n) lim d s m =
     (if d < lim then memcpy_bytes n lim (d + 1) (s + 1) (m(d := m s)) else m)"

definition memcpy_c :: "u64 \<Rightarrow> u64 \<Rightarrow> u64 \<Rightarrow> ram \<Rightarrow> ram" where
  "memcpy_c dest src len m =
     (if (dest OR src OR len) AND 7 = 0 then memcpy_words (unat len) (dest + len) dest src m
      else memcpy_bytes (unat len) (dest + len) dest src m)"

fun memset_words :: "nat \<Rightarrow> u64 \<Rightarrow> u64 \<Rightarrow> u64 \<Rightarrow> ram \<Rightarrow> ram" where
  "memset_words 0 lim d word m = m"
| "memset_words (Suc n) lim d word m = (if d < lim then memset_words n lim (d + 8) word (store64 d word m) else m)"

fun memset_bytes :: "nat \<Rightarrow> u64 \<Rightarrow> u64 \<Rightarrow> u8 \<Rightarrow> ram \<Rightarrow> ram" where
  "memset_bytes 0 lim d byte m = m"
| "memset_bytes (Suc n) lim d byte m = (if d < lim then memset_bytes n lim (d + 1) byte (m(d := byte)) else m)"

definition memset_c :: "u64 \<Rightarrow> u32 \<Rightarrow> u64 \<Rightarrow> ram \<Rightarrow> ram" where
  "memset_c dest byte len m =
     (if (dest OR len) AND 7 = 0 then
        let word = ucast (byte AND 0xFF) :: u64;
            word = word OR push_bit 8 word;
            word = word OR push_bit 16 word;
            word = word OR push_bit 16 (push_bit 16 word)
        in memset_words (unat len) (dest + len) dest word m
      else memset_bytes (unat len) (dest + len) dest (ucast byte) m)"

text \<open>The loop of \<open>memmove\<close> that copies backwards.\<close>

fun copy_back :: "nat \<Rightarrow> u64 \<Rightarrow> u64 \<Rightarrow> ram \<Rightarrow> ram" where
  "copy_back 0 d s m = m"
| "copy_back (Suc n) d s m = copy_back n (d - 1) (s - 1) (m(d - 1 := m (s - 1)))"

definition memmove :: "u64 \<Rightarrow> u64 \<Rightarrow> u64 \<Rightarrow> ram \<Rightarrow> ram" where
  "memmove dst src n m =
     (if dst < src \<or> dst \<ge> src + n then memcpy_c dst src n m
      else copy_back (unat n) (dst + n) (src + n) m)"

subsection \<open>Strings\<close>

text \<open>Pointers run until they meet a terminator; \<open>None\<close> is a search that never ends.\<close>

partial_function (option) string_end :: "ram \<Rightarrow> u64 \<Rightarrow> u64 option" where
  "string_end m p = (if m p = 0 then Some p else string_end m (p + 1))"

definition strlen :: "u64 \<Rightarrow> ram \<Rightarrow> u64 option" where
  "strlen s m = map_option (\<lambda>p. p - s) (string_end m s)"

fun string_end_n :: "nat \<Rightarrow> ram \<Rightarrow> u64 \<Rightarrow> u64" where
  "string_end_n 0 m p = p"
| "string_end_n (Suc n) m p = (if m p \<noteq> 0 then string_end_n n m (p + 1) else p)"

definition strnlen :: "u64 \<Rightarrow> u64 \<Rightarrow> ram \<Rightarrow> u64" where
  "strnlen s n m = string_end_n (unat n) m s - s"

partial_function (option) strcmp :: "ram \<Rightarrow> u64 \<Rightarrow> u64 \<Rightarrow> int option" where
  "strcmp m s1 s2 =
     (let c1 = m s1; c2 = m s2
      in if c1 \<noteq> 0 \<and> c1 = c2 then strcmp m (s1 + 1) (s2 + 1) else Some (uint c1 - uint c2))"

text \<open>The memory after \<open>strcpy\<close>, which returns its first argument.\<close>

partial_function (option) strcpy :: "u64 \<Rightarrow> u64 \<Rightarrow> ram \<Rightarrow> ram option" where
  "strcpy d src m = (let m' = m(d := m src) in if m src \<noteq> 0 then strcpy (d + 1) (src + 1) m' else Some m')"

end
