(* ===== verification/Mem_Theorems.thy ===== *)
theory Mem_Theorems
  imports Syscalls
begin

text \<open>
  The copying loops against the block operations \<open>memcpy\<close> and \<open>fill_bytes\<close> that the file system is
  modelled with.
\<close>

subsection \<open>Words are eight bytes\<close>

lemma length_bytes64 [simp]: "length (bytes64 v) = 8"
  by (simp add: bytes64_def)

lemma bit_join_bytes:
  "n < 64 \<Longrightarrow> bit (join_bytes bs) n \<longleftrightarrow> n div 8 < length bs \<and> bit (bs ! (n div 8)) (n mod 8)"
proof (induction bs arbitrary: n)
  case Nil
  then show ?case by (simp add: join_bytes_def)
next
  case (Cons b bs)
  have eq: "join_bytes (b # bs) = ucast b OR push_bit 8 (join_bytes bs)" by (simp add: join_bytes_def)
  show ?case
  proof (cases "n < 8")
    case True
    then show ?thesis using Cons.prems by (simp add: eq bit_simps)
  next
    case False
    then obtain k where k: "n = k + 8" by (metis add.commute le_Suc_ex linorder_not_less)
    have "\<not> bit b n" using False bit_imp_le_length [of b n] by auto
    moreover have "(k + 8) div 8 = Suc (k div 8)" by simp
    ultimately show ?thesis using k Cons.prems Cons.IH [of k] by (simp add: eq bit_simps)
  qed
qed

lemma bytes_load64: "bytes64 (load64 m a) = load_bytes m a 8"
proof (rule nth_equalityI)
  fix i assume "i < length (bytes64 (load64 m a))"
  then have i: "i < 8" by simp
  have "ucast (drop_bit (8 * i) (load64 m a)) = m (a + of_nat i)"
  proof (rule bit_word_eqI)
    fix n assume "n < LENGTH(8)"
    then have "n < 8" "8 * i + n < 64" "(8 * i + n) div 8 = i" "(8 * i + n) mod 8 = n" using i by simp_all
    then show "bit (ucast (drop_bit (8 * i) (load64 m a)) :: u8) n = bit (m (a + of_nat i)) n"
      using i by (simp add: load64_def bit_simps bit_join_bytes add.commute)
  qed
  then show "bytes64 (load64 m a) ! i = load_bytes m a 8 ! i" using i by (simp add: bytes64_def)
qed simp

lemma store_load64: "store64 d (load64 m s) m = store_bytes d (load_bytes m s 8) m"
  by (simp add: store64_def bytes_load64)

lemma store_one: "m(d := v) = store_bytes d [v] m"
  by (auto simp: store_bytes_def fun_eq_iff unat_eq_zero)

subsection \<open>Copying forwards\<close>

text \<open>Copying up in chunks is safe when the destination does not lie inside the source.\<close>

definition not_inside :: "u64 \<Rightarrow> u64 \<Rightarrow> nat \<Rightarrow> bool" where
  "not_inside d s n \<longleftrightarrow> uint d + int n < 2 ^ 64 \<and> uint s + int n < 2 ^ 64 \<and> (uint d \<le> uint s \<or> uint s + int n \<le> uint d)"

lemma load_bytes_split: "load_bytes m a (n + k) = load_bytes m a n @ load_bytes m (a + of_nat n) k"
  by (rule nth_equalityI) (auto simp: nth_append add.assoc simp flip: of_nat_add)

lemma length_bound: "uint (a :: u64) + int n < 2 ^ 64 \<Longrightarrow> n < 2 ^ 64"
proof -
  assume "uint a + int n < 2 ^ 64"
  moreover have "0 \<le> uint a" by (rule unsigned_greater_eq)
  ultimately have "int n < 2 ^ 64" by linarith
  then show ?thesis by simp
qed

lemma chunk_kept:
  assumes ok: "not_inside d s (c + n)"
  shows "load_bytes (memcpy d s c m) (s + of_nat c) n = load_bytes m (s + of_nat c) n"
proof (rule load_bytes_cong)
  fix i assume i: "i < n"
  have at: "uint (s + of_nat c + of_nat i) = uint s + int c + int i"
    using ok i uint_add_of_nat [of s "c + i"] by (simp add: not_inside_def add.assoc)
  show "memcpy d s c m (s + of_nat c + of_nat i) = m (s + of_nat c + of_nat i)"
  proof (cases "uint d \<le> uint s")
    case True
    then show ?thesis using at unfolding memcpy_def by (intro store_bytes_above) simp
  next
    case False
    then show ?thesis using at ok i unfolding memcpy_def by (intro store_bytes_below) (simp_all add: not_inside_def)
  qed
qed

lemma chunk_copied:
  assumes ok: "not_inside d s (c + n)"
  shows "memcpy (d + of_nat c) (s + of_nat c) n (memcpy d s c m) = memcpy d s (c + n) m"
proof -
  have "c + n < 2 ^ 64" using ok by (intro length_bound [of d]) (simp add: not_inside_def)
  then have "c + n \<le> 2 ^ 64" by simp
  then show ?thesis
    using store_bytes_append [of "load_bytes m s c" "load_bytes m (s + of_nat c) n" d m] chunk_kept [OF ok, of m]
    by (simp add: memcpy_def load_bytes_split)
qed

lemma not_inside_rest: "not_inside d s (c + n) \<Longrightarrow> not_inside (d + of_nat c) (s + of_nat c) n"
  using uint_add_of_nat [of d c] uint_add_of_nat [of s c] by (auto simp: not_inside_def)

lemma not_at_end: "uint (d :: u64) + int n < 2 ^ 64 \<Longrightarrow> 0 < n \<Longrightarrow> d < d + of_nat n"
  using uint_add_of_nat [of d n] by (simp add: word_less_def)

lemma memcpy_0: "memcpy d s 0 m = m"
  by (simp add: memcpy_def load_bytes_def)

lemma memcpy_one: "memcpy d s (Suc 0) m = m(d := m s)"
  by (simp add: memcpy_def load_bytes_def store_one)

lemma memcpy_bytes_exact:
  "not_inside d s n \<Longrightarrow> memcpy_bytes n (d + of_nat n) d s m = memcpy d s n m"
proof (induction n arbitrary: d s m)
  case (Suc n)
  have "memcpy_bytes n (d + 1 + of_nat n) (d + 1) (s + 1) (m(d := m s)) = memcpy (d + 1) (s + 1) n (m(d := m s))"
    using not_inside_rest [of d s 1 n] Suc.prems by (intro Suc.IH) simp
  then show ?case
    using chunk_copied [of d s 1 n m] memcpy_one [of d s m] Suc.prems not_at_end [of d "Suc n"] by (simp add: not_inside_def add.assoc)
qed (simp add: memcpy_0)

lemma memcpy_words_exact:
  "not_inside d s (8 * k) \<Longrightarrow> k \<le> n \<Longrightarrow> memcpy_words n (d + of_nat (8 * k)) d s m = memcpy d s (8 * k) m"
proof (induction k arbitrary: n d s m)
  case 0
  then show ?case by (cases n) (simp_all add: memcpy_0)
next
  case (Suc k)
  then obtain n' where n': "n = Suc n'" "k \<le> n'" by (cases n) auto
  have "memcpy d s 8 m = store64 d (load64 m s) m" by (simp add: memcpy_def store_load64)
  moreover have "memcpy_words n' (d + 8 + of_nat (8 * k)) (d + 8) (s + 8) m' = memcpy (d + 8) (s + 8) (8 * k) m'" for m'
    using not_inside_rest [of d s 8 "8 * k"] Suc.prems n' by (intro Suc.IH) simp_all
  ultimately show ?case
    using chunk_copied [of d s 8 "8 * k" m] Suc.prems not_at_end [of d "8 * Suc k"] n'
    by (simp add: not_inside_def add.assoc)
qed

lemma aligned_8: "x AND 7 = 0 \<longleftrightarrow> unat x mod 8 = 0" for x :: u64
proof -
  have "mask 3 = (7 :: u64)" by (simp add: mask_numeral)
  then have "x AND 7 = take_bit 3 x" by (simp only: take_bit_eq_mask)
  then have "x AND 7 = 0 \<longleftrightarrow> unat (take_bit 3 x) = 0" by (simp add: unat_eq_zero)
  also have "unat (take_bit 3 x) = unat x mod 8" by (simp only: unsigned_take_bit_eq) (simp add: take_bit_eq_mod)
  finally show ?thesis .
qed

lemma or_zero: "(x OR y) AND 7 = 0 \<longleftrightarrow> x AND 7 = 0 \<and> y AND 7 = 0" for x y :: u64
  by (simp add: bit_eq_iff bit_simps) blast

lemma word_of_unat: "(of_nat (unat x) :: u64) = x"
  by simp

lemma memcpy_c_exact:
  assumes "not_inside dest src (unat len)"
  shows "memcpy_c dest src len m = memcpy dest src (unat len) m"
proof (cases "(dest OR src OR len) AND 7 = 0")
  case True
  then have "len AND 7 = 0" unfolding or_zero by simp
  then have "unat len mod 8 = 0" unfolding aligned_8 .
  then obtain k where k: "unat len = 8 * k" by auto
  then have "dest + len = dest + of_nat (8 * k)" by (metis of_nat_unat_eq)
  then show ?thesis
    using True assms memcpy_words_exact [of dest src k "unat len" m] k by (simp add: memcpy_c_def)
next
  case False
  have "dest + len = dest + of_nat (unat len)" by (simp add: of_nat_unat_eq)
  then show ?thesis
    using False memcpy_bytes_exact [OF assms, of m] by (simp only: memcpy_c_def if_False)
qed

subsection \<open>Filling\<close>

lemma fill_is_store: "fill_bytes a v n = store_bytes a (replicate n v)"
  by (auto simp: fill_bytes_def store_bytes_def fun_eq_iff)

lemma fill_split: "c + n \<le> 2 ^ 64 \<Longrightarrow> fill_bytes (a + of_nat c) v n (fill_bytes a v c m) = fill_bytes a v (c + n) m"
  using store_bytes_append [of "replicate c v" "replicate n v" a m] by (simp add: fill_is_store replicate_add)

lemma memset_bytes_exact:
  "uint d + int n < 2 ^ 64 \<Longrightarrow> memset_bytes n (d + of_nat n) d v m = fill_bytes d v n m"
proof (induction n arbitrary: d m)
  case (Suc n)
  have d: "uint (d + 1) = uint d + 1" "Suc n < 2 ^ 64"
    using Suc.prems uint_add_of_nat [of d 1] length_bound [of d "Suc n"] by simp_all
  have "memset_bytes n (d + 1 + of_nat n) (d + 1) v (m(d := v)) = fill_bytes (d + 1) v n (m(d := v))"
    using Suc.prems d by (intro Suc.IH) simp
  moreover have "m(d := v) = fill_bytes d v 1 m" by (simp add: fill_is_store store_one)
  ultimately show ?case
    using fill_split [of 1 n d v m] not_at_end [of d "Suc n"] Suc.prems d by (simp add: add.assoc)
qed (simp add: fill_is_store)

lemma memset_words_exact:
  assumes "bytes64 word = replicate 8 v"
  shows "uint d + int (8 * k) < 2 ^ 64 \<Longrightarrow> k \<le> n \<Longrightarrow> memset_words n (d + of_nat (8 * k)) d word m = fill_bytes d v (8 * k) m"
proof (induction k arbitrary: n d m)
  case 0
  then show ?case by (cases n) (simp_all add: fill_is_store)
next
  case (Suc k)
  then obtain n' where n': "n = Suc n'" "k \<le> n'" by (cases n) auto
  have d: "uint (d + 8) = uint d + 8" "8 + 8 * k < 2 ^ 64"
    using Suc.prems uint_add_of_nat [of d 8] length_bound [of d "8 * Suc k"] by simp_all
  have "store64 d word m = fill_bytes d v 8 m" using assms by (simp add: store64_def fill_is_store)
  moreover have "memset_words n' (d + 8 + of_nat (8 * k)) (d + 8) word m' = fill_bytes (d + 8) v (8 * k) m'" for m'
    using Suc.prems n' d by (intro Suc.IH) simp_all
  ultimately show ?case
    using fill_split [of 8 "8 * k" d v m] not_at_end [of d "8 * Suc k"] Suc.prems n' d by (simp add: add.assoc)
qed

text \<open>Doubling the pattern: \<open>c\<close> bits of copies of \<open>v\<close> become \<open>2 * c\<close>.\<close>

definition copies :: "u8 \<Rightarrow> nat \<Rightarrow> u64 \<Rightarrow> bool" where
  "copies v c w \<longleftrightarrow> (\<forall>k < 64. bit w k \<longleftrightarrow> k < c \<and> bit v (k mod 8))"

lemma copies_double:
  assumes "copies v c w" "c mod 8 = 0"
  shows "copies v (2 * c) (w OR push_bit c w)"
proof -
  have "bit (w OR push_bit c w) k \<longleftrightarrow> k < 2 * c \<and> bit v (k mod 8)" if k: "k < 64" for k
  proof (cases "k < c")
    case True
    then show ?thesis using assms k by (simp add: copies_def bit_simps)
  next
    case False
    then obtain j where j: "k = j + c" by (metis add.commute le_Suc_ex linorder_not_less)
    then have "k mod 8 = j mod 8" using assms(2) by (metis add.right_neutral mod_add_right_eq)
    then show ?thesis using False assms(1) j k by (simp add: copies_def bit_simps)
  qed
  then show ?thesis by (simp add: copies_def)
qed

lemma copies_bytes: "copies v 64 w \<Longrightarrow> bytes64 w = replicate 8 v"
proof (rule nth_equalityI)
  fix i assume w: "copies v 64 w" and "i < length (bytes64 w)"
  then have i: "i < 8" by simp
  have "ucast (drop_bit (8 * i) w) = v"
  proof (rule bit_word_eqI)
    fix n assume "n < LENGTH(8)"
    then have "n < 8" "8 * i + n < 64" "(8 * i + n) mod 8 = n" using i by simp_all
    then show "bit (ucast (drop_bit (8 * i) w) :: u8) n = bit v n"
      using w by (simp add: copies_def bit_simps add.commute)
  qed
  then show "bytes64 w ! i = replicate 8 v ! i" using i by (simp add: bytes64_def)
qed simp

lemma memset_c_exact:
  assumes "uint dest + int (unat len) < 2 ^ 64"
  shows "memset_c dest byte len m = fill_bytes dest (ucast byte) (unat len) m"
proof (cases "(dest OR len) AND 7 = 0")
  case True
  define w1 w2 w3 w4 where "w1 = (ucast (byte AND 0xFF) :: u64)" "w2 = w1 OR push_bit 8 w1"
    "w3 = w2 OR push_bit 16 w2" "w4 = w3 OR push_bit 16 (push_bit 16 w3)"
  note words = this
  have "mask 8 = (0xFF :: u32)" by (simp add: mask_numeral)
  then have "byte AND 0xFF = take_bit 8 byte" by (simp only: take_bit_eq_mask)
  then have "copies (ucast byte) 8 w1" by (auto simp: copies_def words(1) bit_simps)
  from copies_double [OF copies_double [OF copies_double [OF this]]]
  have "copies (ucast byte) 64 w4" by (simp add: words)
  then have bytes: "bytes64 w4 = replicate 8 (ucast byte)" by (rule copies_bytes)
  have "len AND 7 = 0" using True unfolding or_zero by simp
  then have "unat len mod 8 = 0" unfolding aligned_8 .
  then obtain k where k: "unat len = 8 * k" by auto
  have "dest + len = dest + of_nat (8 * k)" unfolding k [symmetric] word_of_unat ..
  then have "memset_c dest byte len m = memset_words (unat len) (dest + of_nat (8 * k)) dest w4 m"
    using True by (simp only: memset_c_def if_True words Let_def simp_thms)
  also have "\<dots> = fill_bytes dest (ucast byte) (8 * k) m"
    using assms unfolding k by (intro memset_words_exact [OF bytes]) simp_all
  finally show ?thesis unfolding k .
next
  case False
  have "dest + len = dest + of_nat (unat len)" by (simp add: of_nat_unat_eq)
  then show ?thesis
    using False memset_bytes_exact [OF assms, of "ucast byte" m] by (simp only: memset_c_def if_False)
qed

subsection \<open>Copying backwards\<close>

lemma copy_back_exact:
  "uint s \<le> uint d \<Longrightarrow> uint d + int n < 2 ^ 64 \<Longrightarrow> copy_back n (d + of_nat n) (s + of_nat n) m = memcpy d s n m"
proof (induction n arbitrary: m)
  case (Suc n)
  let ?m = "m(d + of_nat n := m (s + of_nat n))"
  have d: "uint (d + of_nat n) = uint d + int n" using Suc.prems by (intro uint_add_of_nat) simp
  have "load_bytes ?m s n = load_bytes m s n"
  proof (rule load_bytes_cong)
    fix i assume i: "i < n"
    then have "uint (s + of_nat i) = uint s + int i" using Suc.prems by (intro uint_add_of_nat) simp
    then have "uint (s + of_nat i) \<noteq> uint (d + of_nat n)" using d i Suc.prems by simp
    then show "?m (s + of_nat i) = m (s + of_nat i)" by auto
  qed
  moreover have "copy_back n (d + of_nat n) (s + of_nat n) ?m = memcpy d s n ?m" using Suc.prems by (intro Suc.IH) simp_all
  moreover have "store_bytes d (load_bytes m s n) ?m = store_bytes d (load_bytes m s n @ [m (s + of_nat n)]) m"
  proof
    fix x
    have n: "unat (of_nat n :: u64) = n" using Suc.prems length_bound [of d n] by (intro unat_of_nat64) simp
    have "x = d + of_nat n \<longleftrightarrow> x - d = of_nat n" by (auto simp: algebra_simps)
    also have "\<dots> \<longleftrightarrow> unat (x - d) = n" using n by (metis of_nat_unat_eq)
    finally have "x = d + of_nat n \<longleftrightarrow> unat (x - d) = n" .
    then show "store_bytes d (load_bytes m s n) ?m x = store_bytes d (load_bytes m s n @ [m (s + of_nat n)]) m x"
      by (auto simp: store_bytes_def nth_append less_Suc_eq)
  qed
  moreover have "load_bytes m s (Suc n) = load_bytes m s n @ [m (s + of_nat n)]"
    using load_bytes_split [of m s n 1] by (simp add: load_bytes_def)
  ultimately show ?case by (simp add: memcpy_def add.assoc [symmetric] add.commute [of 1])
qed (simp add: memcpy_0)

lemma memmove_exact:
  assumes "uint dst + int (unat n) < 2 ^ 64" "uint src + int (unat n) < 2 ^ 64"
  shows "memmove dst src n m = memcpy dst src (unat n) m"
proof -
  have "uint (src + of_nat (unat n)) = uint src + int (unat n)" using assms by (intro uint_add_of_nat)
  then have src: "uint (src + n) = uint src + int (unat n)" by (simp only: word_of_unat)
  show ?thesis
  proof (cases "dst < src \<or> dst \<ge> src + n")
    case True
    then have "not_inside dst src (unat n)" using assms src by (auto simp: not_inside_def word_less_def word_le_def)
    then show ?thesis using True by (simp add: memmove_def memcpy_c_exact)
  next
    case False
    then have "uint src \<le> uint dst" by (simp add: word_less_def)
    from copy_back_exact [OF this assms(1), of m] show ?thesis
      using False by (simp only: memmove_def if_False word_of_unat)
  qed
qed

subsection \<open>Strings\<close>

definition string_at :: "ram \<Rightarrow> u64 \<Rightarrow> u8 list \<Rightarrow> bool" where
  "string_at m a cs \<longleftrightarrow> load_bytes m a (Suc (length cs)) = cs @ [0] \<and> 0 \<notin> set cs"

lemma string_at_Nil: "string_at m a [] \<longleftrightarrow> m a = 0"
  by (simp add: string_at_def load_bytes_def)

lemma string_at_Cons: "string_at m a (c # cs) \<longleftrightarrow> m a = c \<and> c \<noteq> 0 \<and> string_at m (a + 1) cs"
proof -
  have "load_bytes m a (Suc n) = m a # load_bytes m (a + 1) n" for n
    using load_bytes_split [of m a 1 n] by (simp add: load_bytes_def)
  from this [of "Suc (length cs)"] show ?thesis by (auto simp: string_at_def)
qed

lemma string_end_found: "string_at m a cs \<Longrightarrow> string_end m a = Some (a + of_nat (length cs))"
proof (induction cs arbitrary: a)
  case Nil
  then show ?case by (simp add: string_at_Nil string_end.simps [of m a])
next
  case (Cons c cs)
  then show ?case by (simp add: string_at_Cons string_end.simps [of m a] add.assoc)
qed

lemma strlen_exact: "string_at m s cs \<Longrightarrow> strlen s m = Some (of_nat (length cs))"
  by (simp add: strlen_def string_end_found)

lemma string_end_n_found: "string_at m a cs \<Longrightarrow> string_end_n n m a = a + of_nat (min n (length cs))"
proof (induction cs arbitrary: n a)
  case Nil
  then show ?case by (cases n) (simp_all add: string_at_Nil)
next
  case (Cons c cs)
  then show ?case by (cases n) (simp_all add: string_at_Cons add.assoc)
qed

lemma strnlen_exact: "string_at m s cs \<Longrightarrow> strnlen s n m = of_nat (min (unat n) (length cs))"
  by (simp add: strnlen_def string_end_n_found)

lemma strcmp_exact:
  "string_at m a cs \<Longrightarrow> string_at m b ds \<Longrightarrow>
   \<exists>r. strcmp m a b = Some r \<and> (r = 0 \<longleftrightarrow> cs = ds) \<and> (r < 0 \<longleftrightarrow> ord_class.lexordp cs ds)"
proof (induction cs arbitrary: a b ds)
  case Nil
  then show ?case
    by (cases ds) (simp_all add: string_at_Nil string_at_Cons strcmp.simps [of m a b] word_uint_eq_iff
        order_less_le unsigned_greater_eq)
next
  case (Cons c cs)
  show ?case
  proof (cases ds)
    case Nil
    then show ?thesis using Cons.prems unsigned_greater_eq [of c, where 'a = int]
      by (simp add: string_at_Nil string_at_Cons strcmp.simps [of m a b] word_uint_eq_iff)
  next
    case d: (Cons d ds')
    show ?thesis
    proof (cases "c = d")
      case True
      then show ?thesis using Cons.prems Cons.IH [of "a + 1" "b + 1" ds'] d
        by (simp add: string_at_Cons strcmp.simps [of m a b])
    next
      case False
      then show ?thesis using Cons.prems d
        by (auto simp: string_at_Cons strcmp.simps [of m a b] word_uint_eq_iff word_less_def)
    qed
  qed
qed

lemma strcpy_exact:
  "string_at m s cs \<Longrightarrow> not_inside d s (Suc (length cs)) \<Longrightarrow> strcpy d s m = Some (memcpy d s (Suc (length cs)) m)"
proof (induction cs arbitrary: d s m)
  case Nil
  then show ?case
    by (simp add: string_at_Nil strcpy.simps [of d s m] memcpy_one fun_eq_iff)
next
  case (Cons c cs)
  have one: "memcpy d s 1 m = m(d := m s)" by (simp add: memcpy_one)
  have ok: "not_inside d s (1 + Suc (length cs))" using Cons.prems(2) by simp
  have "string_at (m(d := m s)) (s + 1) cs"
    using Cons.prems(1) chunk_kept [OF ok, of m] unfolding one string_at_Cons by (simp add: string_at_def)
  moreover have "not_inside (d + 1) (s + 1) (Suc (length cs))" using not_inside_rest [OF ok] by simp
  ultimately have "strcpy (d + 1) (s + 1) (m(d := m s)) = Some (memcpy (d + 1) (s + 1) (Suc (length cs)) (m(d := m s)))"
    by (rule Cons.IH)
  then show ?case
    using Cons.prems(1) chunk_copied [OF ok, of m] one by (simp add: strcpy.simps [of d s m] string_at_Cons)
qed

subsection \<open>Properties\<close>

text \<open>C21. The memory functions move blocks: for ranges that do not wrap around the address space, \<open>memmove\<close> stores
  the bytes that were at the source, however the ranges overlap, \<open>memcpy\<close> does so unless the destination
  starts inside the source, \<open>memset\<close> stores copies of its byte, and nothing else changes, whether they
  go by words or by bytes.\<close>
theorem memory_functions_exact:
  assumes "uint dst + int (unat n) < 2 ^ 64" "uint src + int (unat n) < 2 ^ 64"
  shows "memmove dst src n m = store_bytes dst (load_bytes m src (unat n)) m \<and>
    (\<not> (src < dst \<and> dst < src + n) \<longrightarrow> memcpy_c dst src n m = store_bytes dst (load_bytes m src (unat n)) m) \<and>
    memset_c dst byte n m = store_bytes dst (replicate (unat n) (ucast byte)) m"
proof (intro conjI impI)
  assume apart: "\<not> (src < dst \<and> dst < src + n)"
  have "uint (src + of_nat (unat n)) = uint src + int (unat n)" using assms(2) by (intro uint_add_of_nat)
  then have "uint (src + n) = uint src + int (unat n)" by (simp only: word_of_unat)
  then have "not_inside dst src (unat n)" using assms apart by (auto simp: not_inside_def word_less_def)
  then show "memcpy_c dst src n m = store_bytes dst (load_bytes m src (unat n)) m"
    by (simp add: memcpy_c_exact memcpy_def)
qed (simp_all add: memmove_exact [OF assms] memset_c_exact [OF assms(1)] memcpy_def fill_is_store)

theorem memory_functions_exact_witness:
  "load_bytes (memmove 0x1002 0x1000 5 (store_bytes 0x1000 [1, 2, 3, 4, 5] (\<lambda>_. 0))) 0x1000 7 = [1, 2, 1, 2, 3, 4, 5]"
proof -
  let ?m = "store_bytes 0x1000 [1, 2, 3, 4, 5] (\<lambda>_. 0 :: u8)"
  have eq: "memmove 0x1002 0x1000 5 ?m = store_bytes 0x1002 (load_bytes ?m 0x1000 (unat (5 :: u64))) ?m"
    using memory_functions_exact [of "0x1002" 5 "0x1000" ?m 0] by simp
  show ?thesis unfolding eq
    by (simp add: load_bytes_def store_bytes_def upt_rec unsigned_minus_1_eq_mask mask_eq_exp_minus_1)
qed

text \<open>The string functions on terminated strings: \<open>strlen\<close> and \<open>strnlen\<close> return the length, the second
  at most its bound; \<open>strcmp\<close> returns 0 exactly for equal strings and a negative number exactly when the first
  comes first in the lexicographic order; \<open>strcpy\<close> copies the string with its terminator.\<close>
theorem string_functions_exact:
  assumes "string_at m a cs" "string_at m b ds"
  shows "strlen a m = Some (of_nat (length cs)) \<and> strnlen a n m = of_nat (min (unat n) (length cs)) \<and>
    (\<exists>r. strcmp m a b = Some r \<and> (r = 0 \<longleftrightarrow> cs = ds) \<and> (r < 0 \<longleftrightarrow> ord_class.lexordp cs ds)) \<and>
    (not_inside d a (Suc (length cs)) \<longrightarrow> strcpy d a m = Some (store_bytes d (cs @ [0]) m))"
  using assms strcpy_exact [OF assms(1), of d]
  by (simp add: strlen_exact strnlen_exact strcmp_exact memcpy_def string_at_def [of m a])

theorem string_functions_exact_witness:
  "strlen 0x100 (store_bytes 0x100 [0x61, 0x62] (\<lambda>_. 0)) = Some 2"
proof -
  have "string_at (store_bytes 0x100 [0x61, 0x62] (\<lambda>_. 0)) 0x100 [0x61, 0x62]"
    by (simp add: string_at_def load_bytes_def store_bytes_def upt_rec)
  from string_functions_exact [OF this this, of 0 0] show ?thesis by simp
qed

end
