(* ===== verification/Printing.thy ===== *)
theory Printing
  imports Fat_File Soc_Drivers
begin

text \<open>
  The three formatting routines: \<open>printf\<close> of the test programs, \<open>inc/string_lib/src/string_lib.c\<close>; \<open>sprintf\<close> of the
  workloads, \<open>bare_sprintf\<close> in \<open>mempol/bare_malloc.c\<close>; and the firmware's \<open>debug_printf\<close>,
  \<open>mempol/pmu_firmware/common/debug_printf.c\<close>. Formats and strings are the lists of their bytes before the
  terminator. \<open>None\<close> is behaviour that C leaves undefined: an argument of another type or none, the
  overflow of an \<open>int\<close>, a store outside a local array, and a format read behind its terminator.
\<close>

datatype arg = Num u32 | Str "u8 list option"

abbreviation "PERCENT \<equiv> 0x25 :: u8"
abbreviation "MINUS \<equiv> 0x2D :: u8"
abbreviation "ZERO \<equiv> 0x30 :: u8"

text \<open>The string \<open>(null)\<close> that stands for a null pointer.\<close>

definition string_or_null :: "u8 list option \<Rightarrow> u8 list" where
  "string_or_null s = (case s of None \<Rightarrow> [0x28, 0x6E, 0x75, 0x6C, 0x6C, 0x29] | Some s \<Rightarrow> s)"

subsection \<open>\<open>string_lib.c\<close>\<close>

text \<open>The core has no fast division: division by ten with shifts, and the remainder by multiplication.\<close>

definition divu10 :: "u32 \<Rightarrow> u32" where
  "divu10 n =
     (let q = drop_bit 1 n + drop_bit 2 n;
          q = q + drop_bit 4 q;
          q = q + drop_bit 8 q;
          q = q + drop_bit 16 q;
          q = drop_bit 3 q;
          r = n - q * 10
      in q + drop_bit 4 (r + 6))"

definition remu10_table :: "u8 list" where
  "remu10_table = [0, 1, 2, 2, 3, 3, 4, 5, 5, 6, 7, 7, 8, 8, 9, 0]"

definition remu10 :: "u32 \<Rightarrow> u8" where
  "remu10 n = (let n = drop_bit 28 (0x19999999 * n + drop_bit 1 n + drop_bit 3 n) in remu10_table ! unat n)"

definition PAD_RIGHT :: u32 where "PAD_RIGHT = 1"
definition PAD_ZERO :: u32 where "PAD_ZERO = 2"
definition PRINT_BUF_LEN :: nat where "PRINT_BUF_LEN = 32"

text \<open>What a function prints, and the number of characters it counts.\<close>

type_synonym printed = "u8 list \<times> int"

definition qprints :: "u8 list \<Rightarrow> int \<Rightarrow> u32 \<Rightarrow> printed" where
  "qprints s width pad =
     (let len = int (length s);
          padchar = (if width > 0 \<and> pad AND PAD_ZERO \<noteq> 0 then ZERO else 0x20);
          width = (if width > 0 then (if len \<ge> width then 0 else width - len) else width);
          left = (if pad AND PAD_RIGHT = 0 then nat width else 0);
          right = nat (width - int left)
      in (replicate left padchar @ s @ replicate right padchar, int left + len + int right))"

text \<open>The digits are stored from the end of \<open>print_buf\<close>; \<open>buf\<close> is what is in it, without the terminator.\<close>

definition push_char :: "u8 \<Rightarrow> u8 list \<Rightarrow> u8 list option" where
  "push_char c buf = (if Suc (length buf) < PRINT_BUF_LEN then Some (c # buf) else None)"

function hex_digits :: "u8 \<Rightarrow> u32 \<Rightarrow> u8 list \<Rightarrow> u8 list option" where
  "hex_digits letbase u buf =
     (if u = 0 then Some buf
      else let t = ucast (u AND 0xF) :: u8;
               t = (if t \<ge> 10 then t + (letbase - ZERO - 10) else t)
           in case push_char (t + ZERO) buf of None \<Rightarrow> None | Some buf \<Rightarrow> hex_digits letbase (drop_bit 4 u) buf)"
  by pat_completeness auto
termination
  by (relation "measure (\<lambda>(letbase, u, buf). PRINT_BUF_LEN - length buf)")
    (auto simp: push_char_def split: if_splits)

function dec_digits :: "u32 \<Rightarrow> u8 list \<Rightarrow> u8 list option" where
  "dec_digits u buf =
     (if u = 0 then Some buf
      else case push_char (remu10 u + ZERO) buf of None \<Rightarrow> None | Some buf \<Rightarrow> dec_digits (divu10 u) buf)"
  by pat_completeness auto
termination
  by (relation "measure (\<lambda>(u, buf). PRINT_BUF_LEN - length buf)") (auto simp: push_char_def split: if_splits)

declare hex_digits.simps [simp del] dec_digits.simps [simp del]

definition qprinti :: "u32 \<Rightarrow> nat \<Rightarrow> bool \<Rightarrow> int \<Rightarrow> u32 \<Rightarrow> u8 \<Rightarrow> printed option" where
  "qprinti i b sg width pad letbase =
     (if i = 0 then Some (qprints [ZERO] width pad)
      else let neg = (sg \<and> b = 10 \<and> sint i < 0) in
        if neg \<and> i = 0x80000000 then None
        else do {
          let u = (if neg then - i else i);
          s \<leftarrow> (if b = 16 then hex_digits letbase u [] else dec_digits u []);
          if neg then
            if width \<noteq> 0 \<and> pad AND PAD_ZERO \<noteq> 0 then
              let (out, pc) = qprints s (width - 1) pad in Some (MINUS # out, 1 + pc)
            else map_option (\<lambda>s. qprints s width pad) (push_char MINUS s)
          else Some (qprints s width pad)
        })"

text \<open>The flags and the width behind a percent sign, and what follows them.\<close>

definition pad_flags :: "u8 list \<Rightarrow> u32 \<times> u8 list" where
  "pad_flags format =
     (let (pad, format) = (case format of [] \<Rightarrow> (0, []) | c # r \<Rightarrow> if c = MINUS then (PAD_RIGHT, r) else (0, format))
      in (if takeWhile (\<lambda>c. c = ZERO) format \<noteq> [] then pad OR PAD_ZERO else pad, dropWhile (\<lambda>c. c = ZERO) format))"

fun field_width :: "int \<Rightarrow> u8 list \<Rightarrow> (int \<times> u8 list) option" where
  "field_width width [] = Some (width, [])"
| "field_width width (c # format) =
     (if is_digit c then
        let width = width * 10 + uint (c - ZERO)
        in if width \<ge> 2 ^ 31 then None else field_width width format
      else Some (width, c # format))"

definition conversions :: "u8 list" where
  "conversions = [0x73, 0x64, 0x75, 0x78, 0x58, 0x63]"

definition qconvert :: "u8 \<Rightarrow> arg \<Rightarrow> int \<Rightarrow> u32 \<Rightarrow> printed option" where
  "qconvert conv a width pad =
     (case a of
        Str s \<Rightarrow> if conv = 0x73 then Some (qprints (string_or_null s) width pad) else None
      | Num v \<Rightarrow>
          if conv = 0x64 then qprinti v 10 True width pad 0x61
          else if conv = 0x75 then qprinti v 10 False width pad 0x61
          else if conv = 0x78 then qprinti v 16 False width pad 0x61
          else if conv = 0x58 then qprinti v 16 False width pad 0x41
          else if conv = 0x63 then
            let scr = ucast v :: u8 in Some (qprints (if scr = 0 then [] else [scr]) width pad)
          else None)"

definition emit :: "printed \<Rightarrow> printed option \<Rightarrow> printed option" where
  "emit = (\<lambda>(out, pc). map_option (\<lambda>(out', pc'). (out @ out', pc + pc')))"

lemma pad_flags_length: "length (snd (pad_flags format)) \<le> length format"
proof -
  have "length (dropWhile P r) \<le> Suc (length r)" for P :: "u8 \<Rightarrow> bool" and r
    using length_dropWhile_le [of P r] by linarith
  moreover have "length (if P c then dropWhile P r else c # r) \<le> Suc (length r)" for P :: "u8 \<Rightarrow> bool" and c r
    using length_dropWhile_le [of P r] by simp
  ultimately show ?thesis
    by (cases format) (auto simp: pad_flags_def Let_def)
qed

lemma field_width_length: "field_width w format = Some (w', format') \<Longrightarrow> length format' \<le> length format"
  by (induction w format rule: field_width.induct) (auto simp: Let_def split: if_splits)

text \<open>An unknown conversion is skipped without a word.\<close>

function qprint :: "u8 list \<Rightarrow> arg list \<Rightarrow> printed option" where
  "qprint [] va = Some ([], 0)"
| "qprint (c # format) va =
     (if c \<noteq> PERCENT then emit ([c], 1) (qprint format va)
      else case format of
        [] \<Rightarrow> Some ([], 0)
      | d # format' \<Rightarrow>
          if d = PERCENT then emit ([d], 1) (qprint format' va)
          else case field_width 0 (snd (pad_flags format)) of
            None \<Rightarrow> None
          | Some (width, []) \<Rightarrow> None
          | Some (width, conv # format'') \<Rightarrow>
              if conv \<in> set conversions then
                (case va of
                   [] \<Rightarrow> None
                 | a # va' \<Rightarrow>
                     (case qconvert conv a width (fst (pad_flags format)) of
                        None \<Rightarrow> None
                      | Some p \<Rightarrow> emit p (qprint format'' va')))
              else qprint format'' va)"
  by pat_completeness auto
termination
proof (relation "measure (\<lambda>(format, va). length format)", goal_cases)
  case (4 c format va d format' p w r conv format'')
  then show ?case using field_width_length [of 0 "snd (pad_flags format)" w "conv # format''"] pad_flags_length [of format] by auto
next
  case (5 c format va d format' p w r conv format'')
  then show ?case using field_width_length [of 0 "snd (pad_flags format)" w "conv # format''"] pad_flags_length [of format] by auto
qed auto

text \<open>\<open>printf\<close> sends what it prints to the UART, character by character; \<open>sprintf\<close> stores it.\<close>

fun put_chars :: "'s hw \<Rightarrow> u8 list \<Rightarrow> 's \<Rightarrow> 's option" where
  "put_chars hw [] s = Some s"
| "put_chars hw (c # cs) s = do { s \<leftarrow> uart_sendchar hw c s; put_chars hw cs s }"

definition printf :: "'s hw \<Rightarrow> u8 list \<Rightarrow> arg list \<Rightarrow> 's \<Rightarrow> (int \<times> 's) option" where
  "printf hw format va s = do {
     (out, pc) \<leftarrow> qprint format va;
     s \<leftarrow> put_chars hw out s;
     Some (pc, s) }"

definition puts :: "'s hw \<Rightarrow> u8 list \<Rightarrow> 's \<Rightarrow> (int \<times> 's) option" where
  "puts hw str s = do {
     s \<leftarrow> put_chars hw (str @ [0x0A]) s;
     Some (int (length str), s) }"

subsection \<open>\<open>bare_sprintf\<close> and \<open>debug_printf\<close>\<close>

text \<open>
  Both collect the digits in a local array with room for \<open>cap\<close> of them: \<open>bare_sprintf\<close> from its start, to
  write them out in reverse, \<open>debug_printf\<close> from its end. \<open>digits\<close> is what is stored, in the order it is printed.
\<close>

function put_digits :: "nat \<Rightarrow> nat \<Rightarrow> u8 list \<Rightarrow> u8 list option" where
  "put_digits cap v digits =
     (if v = 0 then Some digits
      else if length digits \<ge> cap then None
      else put_digits cap (v div 10) ((ZERO + of_nat (v mod 10)) # digits))"
  by pat_completeness auto
termination by (relation "measure (\<lambda>(cap, v, digits). v)") auto

declare put_digits.simps [simp del]

definition sprintf_unsigned :: "nat \<Rightarrow> u8 list option" where
  "sprintf_unsigned v = (if v = 0 then Some [ZERO] else put_digits 12 v [])"

definition sprintf_signed :: "u32 \<Rightarrow> u8 list option" where
  "sprintf_signed v =
     (if v = 0x80000000 then None
      else if sint v < 0 then map_option ((#) MINUS) (sprintf_unsigned (nat (- sint v)))
      else sprintf_unsigned (nat (sint v)))"

text \<open>One conversion, with the arguments it leaves.\<close>

definition sprintf_convert :: "u8 \<Rightarrow> arg list \<Rightarrow> (u8 list \<times> arg list) option" where
  "sprintf_convert c args =
     (if c = 0x73 then (case args of Str s # args \<Rightarrow> Some (string_or_null s, args) | _ \<Rightarrow> None)
      else if c = 0x64 \<or> c = 0x69 then
        (case args of Num v # args \<Rightarrow> map_option (\<lambda>out. (out, args)) (sprintf_signed v) | _ \<Rightarrow> None)
      else if c = 0x75 then
        (case args of Num v # args \<Rightarrow> map_option (\<lambda>out. (out, args)) (sprintf_unsigned (unat v)) | _ \<Rightarrow> None)
      else if c = 0x63 then (case args of Num v # args \<Rightarrow> Some ([ucast v], args) | _ \<Rightarrow> None)
      else if c = PERCENT then Some ([PERCENT], args)
      else Some ([PERCENT, c], args))"

fun sprintf_out :: "u8 list \<Rightarrow> arg list \<Rightarrow> u8 list option" where
  "sprintf_out [] args = Some []"
| "sprintf_out [c] args = (if c \<noteq> PERCENT then Some [c] else None)"
| "sprintf_out (c # d # format) args =
     (if c \<noteq> PERCENT then map_option ((#) c) (sprintf_out (d # format) args)
      else case sprintf_convert d args of
        None \<Rightarrow> None
      | Some (out, args) \<Rightarrow> map_option ((@) out) (sprintf_out format args))"

definition bare_sprintf :: "u64 \<Rightarrow> u8 list \<Rightarrow> arg list \<Rightarrow> ram \<Rightarrow> (int \<times> ram) option" where
  "bare_sprintf buf format args m = do {
     out \<leftarrow> sprintf_out format args;
     Some (int (length out), store_bytes buf (out @ [0]) m) }"

text \<open>
  The firmware prints into a part of its data memory. The state is the static \<open>output_ptr\<close> and that
  memory, addressed by the 32-bit pointers of the APMU core.
\<close>

definition PRINT_START_ADDRESS :: u32 where "PRINT_START_ADDRESS = 0x10428800"
definition PRINT_END_ADDRESS :: u32 where "PRINT_END_ADDRESS = 0x10428FFC"

record print_mem =
  output_ptr :: u32
  print_ram :: "u32 \<Rightarrow> u8"

definition write_to_memory :: "'s hw \<Rightarrow> u32 \<Rightarrow> 's \<Rightarrow> 's" where
  "write_to_memory hw v s = wr32 hw 0x10427FFC v s"

text \<open>The loop of \<open>init_print_mem\<close> from \<open>ptr\<close>, for at most \<open>n\<close> turns.\<close>

fun clear_from :: "nat \<Rightarrow> u32 \<Rightarrow> (u32 \<Rightarrow> u8) \<Rightarrow> u32 \<Rightarrow> u8" where
  "clear_from 0 ptr m = m"
| "clear_from (Suc n) ptr m = (if ptr \<le> PRINT_END_ADDRESS then clear_from n (ptr + 1) (m(ptr := 0)) else m)"

definition init_print_mem :: "print_mem \<Rightarrow> print_mem" where
  "init_print_mem p = p\<lparr>print_ram := clear_from (Suc (unat (PRINT_END_ADDRESS - PRINT_START_ADDRESS)))
     PRINT_START_ADDRESS (print_ram p)\<rparr>"

definition mem_putchar :: "u8 \<Rightarrow> print_mem \<Rightarrow> print_mem" where
  "mem_putchar c p =
     (if output_ptr p \<le> PRINT_END_ADDRESS
      then p\<lparr>print_ram := (print_ram p)(output_ptr p := c), output_ptr := output_ptr p + 1\<rparr>
      else p)"

definition debug_int :: "u32 \<Rightarrow> u8 list option" where
  "debug_int i =
     (if i = 0 then Some [ZERO]
      else if i = 0x80000000 then None
      else do {
        b \<leftarrow> put_digits 9 (nat \<bar>sint i\<bar>) [];
        if sint i < 0 then (if length b \<ge> 9 then None else Some (MINUS # b)) else Some b })"

definition debug_convert :: "u8 \<Rightarrow> arg list \<Rightarrow> (u8 list \<times> arg list) option" where
  "debug_convert c args =
     (if c = 0x64 then (case args of Num v # args \<Rightarrow> map_option (\<lambda>out. (out, args)) (debug_int v) | _ \<Rightarrow> None)
      else if c = 0x63 then (case args of Num v # args \<Rightarrow> Some ([ucast v], args) | _ \<Rightarrow> None)
      else if c = 0x73 then (case args of Str (Some s) # args \<Rightarrow> Some (s, args) | _ \<Rightarrow> None)
      else Some ([PERCENT, c], args))"

fun debug_printf :: "u8 list \<Rightarrow> arg list \<Rightarrow> print_mem \<Rightarrow> print_mem option" where
  "debug_printf [] args p = Some p"
| "debug_printf [c] args p = (if c \<noteq> PERCENT then Some (mem_putchar c p) else None)"
| "debug_printf (c # d # format) args p =
     (if c \<noteq> PERCENT then debug_printf (d # format) args (mem_putchar c p)
      else case debug_convert d args of
        None \<Rightarrow> None
      | Some (out, args) \<Rightarrow> debug_printf format args (fold mem_putchar out p))"

end
