(* ===== verification/Print_Numbers.thy ===== *)
theory Print_Numbers
  imports Printing
begin

text \<open>
  Decimal numbers: the division of \<open>string_lib.c\<close> is exact, and the three routines print the same
  text \<open>show_int\<close>.
\<close>

subsection \<open>Division by ten\<close>

lemma unat_drop_bit: "unat (drop_bit k (x :: 'a :: len word)) = unat x div 2 ^ k"
  by (simp only: unat_drop_bit_eq) (simp only: drop_bit_eq_div)

lemma unat_add_small: "unat x + unat y < 2 ^ 32 \<Longrightarrow> unat (x + y :: u32) = unat x + unat y"
  by (simp add: unat_word_ariths)

lemma div_bounds: "0 < k \<Longrightarrow> k * (n div k) \<le> n" "0 < k \<Longrightarrow> n < k * (n div k) + k" for n k :: nat
  by (simp_all add: dividend_less_times_div add.commute)

text \<open>The shifts approximate the quotient from below by less than two.\<close>

lemma quotient_bounds:
  fixes n :: nat
  defines "q1 \<equiv> n div 2 + n div 4"
  defines "q2 \<equiv> q1 + q1 div 16"
  defines "q3 \<equiv> q2 + q2 div 256"
  defines "q4 \<equiv> q3 + q3 div 65536"
  defines "q \<equiv> q4 div 8"
  assumes "n < 2 ^ 32"
  shows "q4 < 2 ^ 32" "10 * q \<le> n" "n < 10 * q + 20"
proof -
  define a b c d e f where "a = n div 2" "b = n div 4" "c = q1 div 16" "d = q2 div 256" "e = q3 div 65536" "f = q4 div 8"
  have parts: "2 * a \<le> n" "n < 2 * a + 2" "4 * b \<le> n" "n < 4 * b + 4" "16 * c \<le> q1" "q1 < 16 * c + 16"
    "256 * d \<le> q2" "q2 < 256 * d + 256" "65536 * e \<le> q3" "q3 < 65536 * e + 65536" "8 * f \<le> q4" "q4 < 8 * f + 8"
    unfolding a_b_c_d_e_f_def by (rule div_bounds, simp)+
  have sums: "q1 = a + b" "q2 = q1 + c" "q3 = q2 + d" "q4 = q3 + e" "q = f"
    by (simp_all add: a_b_c_d_e_f_def q1_def q2_def q3_def q4_def q_def)
  show "q4 < 2 ^ 32" using parts sums assms(6) by simp
  show "10 * q \<le> n" using parts sums assms by linarith
  have "3 * n \<le> 4 * q1 + 5" "17 * q1 \<le> 16 * q2 + 15" "257 * q2 \<le> 256 * q3 + 255" "65537 * q3 \<le> 65536 * q4 + 65535"
    "q4 \<le> 8 * q + 7" using parts sums by linarith+
  moreover have "n < 4294967296" using assms(6) by simp
  ultimately show "n < 10 * q + 20" by linarith
qed

lemma divu10_div: "unat (divu10 n) = unat n div 10"
proof -
  define N where "N = unat n"
  define q1 q2 q3 q4 q where "q1 = N div 2 + N div 4" "q2 = q1 + q1 div 16" "q3 = q2 + q2 div 256"
    "q4 = q3 + q3 div 65536" "q = q4 div 8"
  note parts = this
  have less: "N < 2 ^ 32" unfolding N_def using unsigned_less [of n] by simp
  have bounds: "q4 < 2 ^ 32" "10 * q \<le> N" "N < 10 * q + 20"
    unfolding parts by (rule quotient_bounds [OF less])+
  have le: "q3 \<le> q4" "q2 \<le> q3" "q1 \<le> q2" by (simp_all add: parts(2-4))
  define w1 w2 w3 w4 w where "w1 = drop_bit 1 n + drop_bit 2 n" "w2 = w1 + drop_bit 4 w1" "w3 = w2 + drop_bit 8 w2"
    "w4 = w3 + drop_bit 16 w3" "w = drop_bit 3 w4"
  note words = this
  have "unat w1 = q1" using bounds(1) le
    by (simp add: words(1) parts(1) unat_add_small unat_drop_bit N_def)
  then have "unat w2 = q2" using bounds(1) le by (simp add: words(2) parts(2) unat_add_small unat_drop_bit)
  then have "unat w3 = q3" using bounds(1) le by (simp add: words(3) parts(3) unat_add_small unat_drop_bit)
  then have "unat w4 = q4" using bounds(1) by (simp add: words(4) parts(4) unat_add_small unat_drop_bit)
  then have w: "unat w = q" by (simp add: words(5) parts(5) unat_drop_bit)
  have "unat (w * 10) = q * 10" using bounds(2) less w by (simp add: unat_word_ariths)
  then have r: "unat (n - w * 10) = N - q * 10"
    using bounds(2) by (simp add: unat_sub_if' N_def)
  then have "unat (n - w * 10 + 6) = N - q * 10 + 6" using bounds(2,3) less by (simp add: unat_word_ariths)
  then have "unat (drop_bit 4 (n - w * 10 + 6)) = (N - q * 10 + 6) div 16" by (simp add: unat_drop_bit)
  moreover have "divu10 n = w + drop_bit 4 (n - w * 10 + 6)" by (simp add: divu10_def words Let_def)
  moreover have "q + (N - q * 10 + 6) div 16 = N div 10"
  proof -
    obtain r where "N = 10 * q + r" using bounds(2) by (metis le_iff_add)
    then have "r < 20" using bounds(3) by simp
    have "(r + 6) div 16 = r div 10"
    proof (cases "r < 10")
      case False
      then have "r div 10 = 1" "(r + 6) div 16 = 1" using \<open>r < 20\<close> by linarith+
      then show ?thesis by simp
    qed simp
    with \<open>N = 10 * q + r\<close> show ?thesis by simp
  qed
  moreover have "N div 10 < 2 ^ 32" using less by linarith
  ultimately show ?thesis using w by (simp add: unat_add_small N_def)
qed

lemma remu10_mod: "unat (remu10 n) = unat n mod 10"
proof -
  define k d where "k = unat n div 10" "d = unat n mod 10"
  have n: "unat n = 10 * k + d" "d < 10" by (simp_all add: k_d_def)
  have less: "unat n < 2 ^ 32" using unsigned_less [of n] by simp
  define S where "S = (2 * k + d) div 8 + d div 2 + 0x19999999 * d"
  define w where "w = 0x19999999 * n + drop_bit 1 n + drop_bit 3 n"
  have "unat w = (0x19999999 * unat n + unat n div 2 + unat n div 8) mod 2 ^ 32"
    by (simp add: w_def unat_word_ariths unat_drop_bit mod_simps)
  also have "0x19999999 * unat n + unat n div 2 + unat n div 8 = S + 2 ^ 32 * k"
  proof -
    have "unat n div 2 = 5 * k + d div 2" unfolding n by simp
    moreover have "unat n div 8 = k + (2 * k + d) div 8" unfolding n by presburger
    ultimately show ?thesis unfolding n S_def by simp
  qed
  also have "(S + 2 ^ 32 * k) mod 2 ^ 32 = S mod 2 ^ 32" by simp
  also have "S < 2 ^ 32" using n less by (simp add: S_def)
  then have "S mod 2 ^ 32 = S" by simp
  finally have "unat w = S" .
  then have idx: "unat (drop_bit 28 w) = S div 2 ^ 28" by (simp add: unat_drop_bit)
  have "d \<in> {0, 1, 2, 3, 4, 5, 6, 7, 8, 9}" using n(2) by auto
  moreover have "10 * k + d < 2 ^ 32" using n less by simp
  ultimately have "(d, S div 2 ^ 28) \<in> {(0, 0), (1, 1), (2, 3), (3, 4), (3, 5), (4, 6), (5, 7), (5, 8), (6, 9), (7, 11),
      (8, 12), (8, 13), (9, 14)}"
    unfolding S_def by (elim insertE emptyE) (simp_all, (linarith | presburger)+)
  then have "unat (remu10_table ! (S div 2 ^ 28)) = d"
    by (auto simp: remu10_table_def)
  then show ?thesis using idx k_d_def by (simp add: remu10_def w_def)
qed
subsection \<open>The text of a number\<close>

fun digits :: "nat \<Rightarrow> u8 list" where
  "digits n = (if n < 10 then [ZERO + of_nat n] else digits (n div 10) @ [ZERO + of_nat (n mod 10)])"

declare digits.simps [simp del]

definition show_int :: "int \<Rightarrow> u8 list" where
  "show_int i = (if i < 0 then MINUS # digits (nat (- i)) else digits (nat i))"

lemma digits_nonempty: "digits n \<noteq> []"
  by (subst digits.simps) simp

lemma length_digits: "length (digits n) \<le> k \<longleftrightarrow> 0 < k \<and> n < 10 ^ k"
proof (induction n arbitrary: k rule: digits.induct)
  case (1 n)
  show ?case
  proof (cases "n < 10")
    case True
    then have "n < 10 ^ k" if "0 < k" using that self_le_power [of "10 :: nat" k] by linarith
    with True show ?thesis by (auto simp: digits.simps [of n])
  next
    case False
    then have "length (digits n) \<le> k \<longleftrightarrow> k \<noteq> 0 \<and> length (digits (n div 10)) \<le> k - 1"
      by (auto simp: digits.simps [of n])
    also have "\<dots> \<longleftrightarrow> 1 < k \<and> n div 10 < 10 ^ (k - 1)" using 1 [OF False, of "k - 1"] by (simp add: less_diff_conv) linarith
    also have "\<dots> \<longleftrightarrow> 0 < k \<and> n < 10 ^ k"
      using False by (cases k; cases "k - 1") (auto simp: div_less_iff_less_mult mult.commute)
    finally show ?thesis .
  qed
qed

lemma put_digits_eq:
  "0 < v \<Longrightarrow> put_digits cap v acc = (if length (digits v) + length acc \<le> cap then Some (digits v @ acc) else None)"
proof (induction v arbitrary: acc rule: digits.induct)
  case (1 v)
  show ?case
  proof (cases "v < 10")
    case True
    with 1(2) show ?thesis by (simp add: put_digits.simps [of cap v] put_digits.simps [of cap 0] digits.simps [of v])
  next
    case False
    then have "0 < v div 10" by simp
    from 1(1) [OF False this, of "(ZERO + of_nat (v mod 10)) # acc"] False 1(2) show ?thesis
      by (simp add: put_digits.simps [of cap v] digits.simps [of v])
  qed
qed

lemma dec_digits_eq: "dec_digits u buf = put_digits 31 (unat u) buf"
proof (induction u buf rule: dec_digits.induct)
  case (1 u buf)
  have "remu10 u + ZERO = ZERO + of_nat (unat u mod 10)"
    by (simp add: add.commute flip: remu10_mod)
  then show ?case
    using 1 by (simp add: dec_digits.simps [of u] put_digits.simps [of 31 "unat u"] push_char_def PRINT_BUF_LEN_def
        divu10_div unat_eq_zero add.commute)
qed

lemma sint_negative: "sint v < 0 \<Longrightarrow> v \<noteq> 0x80000000 \<Longrightarrow> nat (- sint v) = unat (- v) \<and> unat (- v) < 2 ^ 31"
  for v :: u32
proof -
  assume neg: "sint v < 0" and no: "v \<noteq> 0x80000000"
  have low: "- (2 ^ 31) \<le> sint v" using sint_ge [of v] by simp
  have "sint v \<noteq> - (2 ^ 31)"
  proof
    assume "sint v = - (2 ^ 31)"
    then have "(of_int (sint v) :: u32) = of_int (- (2 ^ 31))" by (simp only:)
    then have "v = word_of_int (- (2 ^ 31))" by simp
    with no show False by simp
  qed
  with low have low: "- (2 ^ 31) < sint v" by simp
  have "- v = word_of_int (- sint v)" by simp
  then have "uint (- v) = take_bit 32 (- sint v)" by (simp only: unsigned_of_int) simp
  also have "\<dots> = - sint v" using neg low by (simp add: take_bit_int_eq_self)
  finally have "uint (- v) = - sint v" .
  then have "unat (- v) = nat (- sint v)" by (metis nat_uint_eq)
  with neg low show ?thesis by simp
qed

lemma digits_0: "digits 0 = [ZERO]"
  by (simp add: digits.simps)

lemma sprintf_unsigned_eq: "v < 2 ^ 32 \<Longrightarrow> sprintf_unsigned v = Some (digits v)"
  using length_digits [of v 12] by (simp add: sprintf_unsigned_def put_digits_eq digits_0)

lemma sint_u32_range: "nat (sint v) < 2 ^ 31" for v :: u32
  using sint_lt [of v] by simp

lemma sprintf_signed_eq: "v \<noteq> 0x80000000 \<Longrightarrow> sprintf_signed v = Some (show_int (sint v))"
  using sint_negative [of v] sint_u32_range [of v]
  by (auto simp: sprintf_signed_def show_int_def sprintf_unsigned_eq)

lemma debug_int_eq:
  "v \<noteq> 0x80000000 \<Longrightarrow> debug_int v = (if length (show_int (sint v)) \<le> 9 then Some (show_int (sint v)) else None)"
proof -
  assume v: "v \<noteq> 0x80000000"
  show ?thesis
  proof (cases "sint v" "0 :: int" rule: linorder_cases)
    case less
    then show ?thesis using v by (auto simp: debug_int_def show_int_def put_digits_eq)
  next
    case equal
    then have "v = 0" by (metis signed_eq_0_iff)
    then show ?thesis by (simp add: debug_int_def show_int_def digits_0)
  next
    case greater
    then show ?thesis using v by (auto simp: debug_int_def show_int_def put_digits_eq)
  qed
qed

lemma sint_nonneg: "\<not> sint v < 0 \<Longrightarrow> nat (sint v) = unat v" for v :: u32
proof -
  assume "\<not> sint v < 0"
  then have "uint v = sint v" using sint_lt [of v] by (simp add: uint_sint take_bit_int_eq_self)
  then show ?thesis by (metis nat_uint_eq)
qed

lemma dec_digits_all: "u \<noteq> 0 \<Longrightarrow> dec_digits u [] = Some (digits (unat u)) \<and> length (digits (unat u)) \<le> 10"
proof -
  assume "u \<noteq> 0"
  moreover have "length (digits (unat u)) \<le> 10"
    using unsigned_less [of u, where ?'a = nat] by (simp add: length_digits)
  ultimately show ?thesis by (simp add: dec_digits_eq put_digits_eq unat_gt_0)
qed

lemma qprinti_decimal:
  assumes "v \<noteq> 0x80000000" "width = 0 \<or> pad AND PAD_ZERO = 0"
  shows "qprinti v 10 True width pad letbase = Some (qprints (show_int (sint v)) width pad)"
proof (cases "v = 0 \<or> \<not> sint v < 0")
  case True
  then show ?thesis using dec_digits_all [of v] by (auto simp: qprinti_def show_int_def digits_0 sint_nonneg)
next
  case False
  then show ?thesis using assms sint_negative [of v] dec_digits_all [of "- v"]
    by (auto simp: qprinti_def show_int_def push_char_def PRINT_BUF_LEN_def)
qed
end
