(* ===== verification/Print_Scan.thy ===== *)
theory Print_Scan
  imports Print_Numbers
begin

text \<open>
  \<open>fat_fscanf\<close> on text in memory, and the numbers that \<open>bare_sprintf\<close> prints. \<open>holds_text f m cs\<close> says that
  \<open>cs\<close> is what is left of the file.
\<close>

subsection \<open>Text in memory\<close>

fun text_at :: "ram \<Rightarrow> u64 \<Rightarrow> u32 \<Rightarrow> u8 list \<Rightarrow> bool" where
  "text_at m d pos [] = True"
| "text_at m d pos (c # cs) = (m (d + ucast pos) = c \<and> text_at m d (pos + 1) cs)"

lemma text_at_append: "text_at m d pos (xs @ ys) \<longleftrightarrow> text_at m d pos xs \<and> text_at m d (pos + of_nat (length xs)) ys"
  by (induction xs arbitrary: pos) (auto simp: add.assoc)

lemma text_atI:
  "\<forall>i < length cs. m (d + ucast (pos + of_nat i :: u32)) = cs ! i \<Longrightarrow> text_at m d pos cs"
proof (induction cs arbitrary: pos)
  case (Cons c cs)
  have "m (d + ucast (pos + 1 + of_nat i :: u32)) = cs ! i" if "i < length cs" for i
    using Cons.prems [rule_format, of "Suc i"] that by (simp add: add.assoc)
  with Cons.IH [of "pos + 1"] Cons.prems [rule_format, of 0] show ?case by simp
qed simp

definition is_space :: "u8 \<Rightarrow> bool" where "is_space c \<longleftrightarrow> c \<in> {0x20, 0x09, 0x0A, 0x0D}"

lemma skip_space_text:
  "text_at m d pos (ws @ cs) \<Longrightarrow> list_all is_space ws \<Longrightarrow> cs = [] \<or> \<not> is_space (hd cs) \<Longrightarrow>
   skip_space m d (length ws + length cs) pos = pos + of_nat (length ws)"
proof (induction ws arbitrary: pos)
  case Nil
  then show ?case by (cases cs) (auto simp: is_space_def)
next
  case (Cons w ws)
  then show ?case using Cons.IH [of "pos + 1"] by (simp add: is_space_def add.assoc)
qed

definition decimal :: "int \<Rightarrow> u8 list \<Rightarrow> int" where
  "decimal = foldl (\<lambda>a c. a * 10 + uint (c - ZERO))"

lemma decimal_mono: "0 \<le> a \<Longrightarrow> a \<le> decimal a ds"
proof (induction ds arbitrary: a)
  case (Cons c ds)
  have "0 \<le> uint (c - ZERO)" by (rule unsigned_greater_eq)
  with Cons.prems have "a \<le> a * 10 + uint (c - ZERO)" "0 \<le> a * 10 + uint (c - ZERO)" by linarith+
  with Cons.IH [of "a * 10 + uint (c - ZERO)"] show ?case by (simp add: decimal_def)
qed (simp add: decimal_def)

lemma scan_digits_text:
  assumes "text_at m d pos (ds @ cs)" "list_all is_digit ds" "cs = [] \<or> \<not> is_digit (hd cs)" "0 \<le> a" "decimal a ds < 2 ^ 31"
  shows "scan_digits m d (length ds + length cs) pos a = Some (decimal a ds, pos + of_nat (length ds))"
  using assms
proof (induction ds arbitrary: pos a)
  case Nil
  then show ?case by (cases cs) (auto simp: decimal_def)
next
  case (Cons c ds)
  let ?a = "a * 10 + uint (c - ZERO)"
  have "0 \<le> uint (c - ZERO)" by (rule unsigned_greater_eq)
  with Cons.prems have a: "0 \<le> ?a" by linarith
  have "decimal a (c # ds) = decimal ?a ds" by (simp add: decimal_def)
  with Cons.prems Cons.IH [of "pos + 1" ?a] a decimal_mono [OF a, of ds] show ?case
    by (simp add: Let_def add.assoc)
qed

lemma digit_char: "n < 10 \<Longrightarrow> is_digit (ZERO + of_nat n) \<and> uint (ZERO + of_nat n - ZERO) = int n" for n :: nat
proof -
  assume "n < 10"
  then have "n \<in> {0, 1, 2, 3, 4, 5, 6, 7, 8, 9}" by auto
  then show ?thesis by (auto simp: is_digit_def)
qed

lemma digits_are_digits: "list_all is_digit (digits n)"
proof (induction n rule: digits.induct)
  case (1 n)
  then show ?case by (cases "n < 10") (simp_all add: digits.simps [of n] digit_char)
qed

lemma decimal_digits: "decimal 0 (digits n) = int n"
proof (induction n rule: digits.induct)
  case (1 n)
  show ?case
  proof (cases "n < 10")
    case True
    then show ?thesis using digit_char [of n] by (simp add: digits.simps [of n] decimal_def)
  next
    case False
    have "int (n div 10) * 10 + int (n mod 10) = int n" by (metis div_mult_mod_eq of_nat_add of_nat_mult of_nat_numeral)
    with False show ?thesis using 1 digit_char [of "n mod 10"] by (simp add: digits.simps [of n] decimal_def)
  qed
qed

text \<open>What is left of a file.\<close>

definition holds_text :: "fat_file \<Rightarrow> ram \<Rightarrow> u8 list \<Rightarrow> bool" where
  "holds_text f m cs \<longleftrightarrow> text_at m (file_data f) (file_pos f) cs \<and> unat (file_size f) = unat (file_pos f) + length cs"

definition advance :: "nat \<Rightarrow> fat_file \<Rightarrow> fat_file" where
  "advance n f = f\<lparr>file_pos := file_pos f + of_nat n\<rparr>"

lemma advance_advance: "advance a (advance b f) = advance (b + a) f"
  by (simp add: advance_def add.assoc)

lemma holds_text_advance: "holds_text f m (xs @ ys) \<Longrightarrow> holds_text (advance (length xs) f) m ys"
proof -
  assume h: "holds_text f m (xs @ ys)"
  then have "unat (file_pos f) + length xs < 2 ^ 32"
    using unsigned_less [of "file_size f", where ?'a = nat] by (simp add: holds_text_def)
  then have "unat (file_pos f + of_nat (length xs)) = unat (file_pos f) + length xs"
    by (simp add: unat_word_ariths unat_of_nat take_bit_nat_eq_self)
  with h show ?thesis by (simp add: holds_text_def advance_def text_at_append)
qed

lemma holds_text_left: "holds_text f m cs \<Longrightarrow> bytes_left f = length cs \<and> (file_pos f \<ge> file_size f \<longleftrightarrow> cs = [])"
  by (auto simp: holds_text_def bytes_left_def word_le_nat_alt)

lemma fscanf_space:
  assumes "holds_text f m ws" "list_all is_space ws"
  shows "fat_fscanf_d (f, m) = Some (-1, 0, advance (length ws) f)"
proof (cases "ws = []")
  case True
  then show ?thesis using holds_text_left [OF assms(1)] by (simp add: fat_fscanf_d_def advance_def)
next
  case False
  have "skip_space m (file_data f) (bytes_left f) (file_pos f) = file_pos f + of_nat (length ws)"
    using skip_space_text [of m "file_data f" "file_pos f" ws "[]"] assms holds_text_left [OF assms(1)]
    by (simp add: holds_text_def)
  moreover have "file_size f \<le> file_pos f + of_nat (length ws)"
    using holds_text_left [of "advance (length ws) f" m "[]"] holds_text_advance [of f m ws "[]"] assms
    by (simp add: advance_def)
  ultimately show ?thesis using False holds_text_left [OF assms(1)]
    by (simp add: fat_fscanf_d_def Let_def advance_def)
qed

lemma show_int_first: "\<exists>c cs. show_int i = c # cs \<and> \<not> is_space c"
proof -
  obtain c cs where "digits (nat \<bar>i\<bar>) = c # cs" using digits_nonempty by (cases "digits (nat \<bar>i\<bar>)") auto
  moreover from this have "is_digit c" using digits_are_digits [of "nat \<bar>i\<bar>"] by simp
  then have "\<not> is_space c" by (auto simp: is_digit_def is_space_def)
  ultimately show ?thesis by (cases "i < 0") (auto simp: show_int_def is_space_def)
qed

lemma fscanf_number:
  assumes h: "holds_text f m (ws @ show_int i @ cs)" and ws: "list_all is_space ws"
    and cs: "cs = [] \<or> \<not> is_digit (hd cs)" and i: "\<bar>i\<bar> < 2 ^ 31"
  shows "fat_fscanf_d (f, m) = Some (1, i, advance (length ws + length (show_int i)) f)"
proof -
  define f1 where "f1 = advance (length ws) f"
  obtain c cs' where first: "show_int i = c # cs'" "\<not> is_space c" using show_int_first by blast
  have "skip_space m (file_data f) (bytes_left f) (file_pos f) = file_pos f + of_nat (length ws)"
    using skip_space_text [of m "file_data f" "file_pos f" ws "show_int i @ cs"] h ws first holds_text_left [OF h]
    by (simp add: holds_text_def)
  then have f1: "f\<lparr>file_pos := skip_space m (file_data f) (bytes_left f) (file_pos f)\<rparr> = f1"
    by (simp add: f1_def advance_def)
  have h1: "holds_text f1 m (show_int i @ cs)" unfolding f1_def by (rule holds_text_advance [OF h])
  have start: "\<not> file_pos f \<ge> file_size f" "\<not> file_pos f1 \<ge> file_size f1"
    using holds_text_left [OF h] holds_text_left [OF h1] first by auto
  define ds where "ds = digits (nat \<bar>i\<bar>)"
  define f2 where "f2 = (if i < 0 then advance 1 f1 else f1)"
  have h2: "holds_text f2 m (ds @ cs)"
    using h1 holds_text_advance [of f1 m "[MINUS]" "ds @ cs"] by (auto simp: f2_def ds_def show_int_def)
  obtain d ds' where ds: "ds = d # ds'" "is_digit d"
    using digits_nonempty digits_are_digits [of "nat \<bar>i\<bar>"] by (cases ds) (auto simp: ds_def)
  have at: "m (file_data f1 + ucast (file_pos f1)) = c" "m (file_data f2 + ucast (file_pos f2)) = d"
    using h1 h2 first ds by (simp_all add: holds_text_def)
  have minus: "c = MINUS \<longleftrightarrow> i < 0"
    using first ds by (auto simp: show_int_def ds_def is_digit_def split: if_splits)
  have scan: "scan_digits m (file_data f2) (bytes_left f2) (file_pos f2) 0 = Some (\<bar>i\<bar>, file_pos f2 + of_nat (length ds))"
    using scan_digits_text [of m "file_data f2" "file_pos f2" ds cs 0] h2 cs i holds_text_left [OF h2]
    by (simp add: holds_text_def ds_def digits_are_digits decimal_digits)
  have f2: "(if c = MINUS then f1\<lparr>file_pos := file_pos f1 + 1\<rparr> else f1) = f2"
    using minus by (simp add: f2_def advance_def)
  have "\<not> file_pos f2 \<ge> file_size f2" using holds_text_left [OF h2] ds by auto
  then have "fat_fscanf_d (f, m) = Some (1, i, advance (length ds) f2)"
    using ds minus i unfolding fat_fscanf_d_def Let_def prod.case f1 at(1) f2
    by (simp only: start at(2) scan if_False simp_thms bind.bind_lunit prod.case) (simp add: advance_def)
  then show ?thesis by (simp add: f2_def f1_def advance_advance show_int_def ds_def add.assoc)
qed

lemma length_show_int: "\<bar>i\<bar> < 2 ^ 31 \<Longrightarrow> length (show_int i) \<le> 11"
proof -
  assume "\<bar>i\<bar> < 2 ^ 31"
  then have "nat \<bar>i\<bar> < 10 ^ 10" by simp
  then have "length (digits (nat \<bar>i\<bar>)) \<le> 10" by (simp only: length_digits) simp
  then show ?thesis by (auto simp: show_int_def)
qed

lemma store_text_at:
  assumes "length cs < 2 ^ 32"
  shows "text_at (store_bytes buf (cs @ [0]) m) buf 0 cs"
proof (rule text_atI, intro allI impI)
  fix i assume i: "i < length cs"
  then have "unat (of_nat i :: u32) = i" using assms by (simp add: unat_of_nat take_bit_nat_eq_self)
  then have "unat (ucast (of_nat i :: u32) :: u64) = i" using i assms by (simp add: unsigned_ucast_eq take_bit_nat_eq_self)
  then show "store_bytes buf (cs @ [0]) m (buf + ucast (0 + of_nat i :: u32)) = cs ! i"
    using i by (simp add: store_bytes_def nth_append)
qed

text \<open>A program that prints a list of numbers, one per line, and one that scans until it fails.\<close>

definition lines_format :: "nat \<Rightarrow> u8 list" where
  "lines_format n = concat (replicate n [PERCENT, 0x64, 0x0A])"

definition lines_text :: "int list \<Rightarrow> u8 list" where
  "lines_text ns = concat (map (\<lambda>i. show_int i @ [0x0A]) ns)"

fun scan_lines :: "nat \<Rightarrow> fat_file \<times> ram \<Rightarrow> (int list \<times> fat_file) option" where
  "scan_lines 0 (f, m) = Some ([], f)"
| "scan_lines (Suc n) (f, m) = do {
     (r, i, f) \<leftarrow> fat_fscanf_d (f, m);
     if r = 1 then map_option (\<lambda>(ns, f). (i # ns, f)) (scan_lines n (f, m)) else Some ([], f) }"

lemma sprintf_lines:
  "\<forall>v \<in> set vs. v \<noteq> 0x80000000 \<Longrightarrow>
   sprintf_out (lines_format (length vs)) (map Num vs) = Some (lines_text (map sint vs))"
proof (induction vs)
  case (Cons v vs)
  have "sprintf_out (0x0A # format) args = map_option ((#) 0x0A) (sprintf_out format args)" for format args
    by (cases format) simp_all
  with Cons show ?case
    by (simp add: lines_format_def lines_text_def sprintf_convert_def sprintf_signed_eq)
qed (simp add: lines_format_def lines_text_def)

lemma scan_lines_text:
  "holds_text f m (ws @ lines_text ns) \<Longrightarrow> list_all is_space ws \<Longrightarrow> \<forall>i \<in> set ns. \<bar>i\<bar> < 2 ^ 31 \<Longrightarrow>
   scan_lines (Suc (length ns)) (f, m) = Some (ns, advance (length ws + length (lines_text ns)) f)"
proof (induction ns arbitrary: f ws)
  case Nil
  then show ?case using fscanf_space [of f m ws] by (simp add: lines_text_def)
next
  case (Cons i ns)
  let ?f = "advance (length ws + length (show_int i)) f"
  have held: "holds_text f m (ws @ show_int i @ [0x0A] @ lines_text ns)" using Cons.prems(1) by (simp add: lines_text_def)
  then have "fat_fscanf_d (f, m) = Some (1, i, ?f)"
    using fscanf_number [of f m ws i "[0x0A] @ lines_text ns"] Cons.prems(2,3) by (simp add: is_digit_def)
  moreover have "holds_text ?f m ([0x0A] @ lines_text ns)"
    using holds_text_advance [of f m "ws @ show_int i" "[0x0A] @ lines_text ns"] held by simp
  then have "scan_lines (Suc (length ns)) (?f, m) = Some (ns, advance (Suc (length (lines_text ns))) ?f)"
    using Cons.IH [of ?f "[0x0A]"] Cons.prems(3) by (simp add: is_space_def)
  ultimately show ?case by (simp add: advance_advance lines_text_def algebra_simps)
qed
lemma length_lines_text: "\<forall>i \<in> set ns. \<bar>i\<bar> < 2 ^ 31 \<Longrightarrow> length (lines_text ns) \<le> 12 * length ns"
  using length_show_int by (induction ns) (fastforce simp: lines_text_def)+

lemma sint_abs: "v \<noteq> 0x80000000 \<Longrightarrow> \<bar>sint v\<bar> < 2 ^ 31" for v :: u32
  using sint_negative [of v] sint_lt [of v] by (cases "sint v < 0") auto

lemma sprintf_scan:
  assumes "\<forall>v \<in> set vs. v \<noteq> 0x80000000" "length vs < 2 ^ 28"
  shows "\<exists>n m' f'. bare_sprintf buf (lines_format (length vs)) (map Num vs) m = Some (int n, m') \<and>
    scan_lines (Suc (length vs)) (\<lparr>file_data = buf, file_size = of_nat n, file_pos = 0\<rparr>, m') =
      Some (map sint vs, f') \<and>
    fat_feof (Some f')"
proof -
  define cs n where "cs = lines_text (map sint vs)" "n = length cs"
  define m' where "m' = store_bytes buf (cs @ [0]) m"
  define f where "f = \<lparr>file_data = buf, file_size = of_nat n, file_pos = 0\<rparr>"
  have range: "\<forall>i \<in> set (map sint vs). \<bar>i\<bar> < 2 ^ 31" using assms(1) sint_abs by auto
  then have n: "n < 2 ^ 32" using length_lines_text [OF range] assms(2) by (simp add: cs_n_def)
  then have "unat (of_nat n :: u32) = n" by (simp add: unat_of_nat take_bit_nat_eq_self)
  then have held: "holds_text f m' ([] @ cs)"
    using store_text_at [of cs buf m] n by (simp add: holds_text_def f_def m'_def cs_n_def)
  have "scan_lines (Suc (length vs)) (f, m') = Some (map sint vs, advance n f)"
    using scan_lines_text [OF held [unfolded cs_n_def(1)] _ range] by (simp add: cs_n_def)
  moreover have "fat_feof (Some (advance n f))" by (simp add: fat_feof_def advance_def f_def)
  moreover have "bare_sprintf buf (lines_format (length vs)) (map Num vs) m = Some (int n, m')"
    using sprintf_lines [OF assms(1)] by (simp add: bare_sprintf_def m'_def cs_n_def)
  ultimately show ?thesis unfolding f_def by blast
qed

subsection \<open>The memory of \<open>debug_printf\<close>\<close>

definition prints :: "print_mem \<Rightarrow> print_mem \<Rightarrow> bool" where
  "prints p p' \<longleftrightarrow> output_ptr p \<le> output_ptr p' \<and>
     (output_ptr p \<le> PRINT_END_ADDRESS + 1 \<longrightarrow> output_ptr p' \<le> PRINT_END_ADDRESS + 1) \<and>
     (\<forall>x. x < output_ptr p \<or> output_ptr p' \<le> x \<longrightarrow> print_ram p' x = print_ram p x)"

lemma prints_refl: "prints p p"
  by (simp add: prints_def)

lemma prints_putchar: "prints p q \<Longrightarrow> prints p (mem_putchar c q)"
proof (cases "output_ptr q \<le> PRINT_END_ADDRESS")
  case True
  then have "uint (output_ptr q) \<le> 0x10428FFC" by (simp add: word_le_def PRINT_END_ADDRESS_def)
  then have "uint (output_ptr q + 1) = uint (output_ptr q) + 1" by (simp add: uint_word_ariths)
  moreover assume "prints p q"
  ultimately show ?thesis using True
    by (auto simp: prints_def mem_putchar_def word_le_def word_less_def PRINT_END_ADDRESS_def)
qed (simp add: mem_putchar_def)

lemma prints_fold: "prints p q \<Longrightarrow> prints p (fold mem_putchar out q)"
  by (induction out arbitrary: q) (simp_all add: prints_putchar)

lemma debug_printf_prints: "debug_printf format args q = Some p' \<Longrightarrow> prints p q \<Longrightarrow> prints p p'"
  by (induction format args q rule: debug_printf.induct)
    (auto simp: prints_putchar prints_fold split: if_splits option.splits)

end
