(* ===== verification/Print_Theorems.thy ===== *)
theory Print_Theorems
  imports Print_Scan
begin

text \<open>The properties of the formatting routines.\<close>

text \<open>C23. Division by shifts: for every 32-bit number \<open>divu10\<close> is the quotient and \<open>remu10\<close> the remainder of the
  division by ten, and the table of \<open>remu10\<close> is never read outside.\<close>
theorem divu10_exact:
  "unat (divu10 n) = unat n div 10 \<and> unat (remu10 n) = unat n mod 10 \<and>
   unat (drop_bit 28 (0x19999999 * n + drop_bit 1 n + drop_bit 3 n)) < length remu10_table"
proof (intro conjI divu10_div remu10_mod)
  show "unat (drop_bit 28 (0x19999999 * n + drop_bit 1 n + drop_bit 3 n)) < length remu10_table"
    using unsigned_less [of "0x19999999 * n + drop_bit 1 n + drop_bit 3 n", where ?'a = nat]
    by (simp add: unat_drop_bit remu10_table_def div_less_iff_less_mult)
qed



text \<open>C22. What is printed is scanned: numbers that \<open>bare_sprintf\<close> prints one per line into a buffer are the
  numbers that \<open>fscanf\<close> with \<open>%d\<close> reads from a file with that buffer, in their order; then it reports the end of
  the file.\<close>
theorem printed_numbers_scanned:
  assumes "\<forall>v \<in> set vs. v \<noteq> 0x80000000" "length vs < 2 ^ 28"
  shows "\<exists>n m' f'. bare_sprintf buf (lines_format (length vs)) (map Num vs) m = Some (int n, m') \<and>
    scan_lines (Suc (length vs)) (\<lparr>file_data = buf, file_size = of_nat n, file_pos = 0\<rparr>, m') =
      Some (map sint vs, f') \<and>
    fat_feof (Some f')"
  by (rule sprintf_scan [OF assms])

theorem printed_numbers_scanned_witness:
  "\<exists>n m' f'. bare_sprintf 0x1000 (lines_format 2) [Num 7, Num (-12)] (\<lambda>_. 0) = Some (int n, m') \<and>
    scan_lines 3 (\<lparr>file_data = 0x1000, file_size = of_nat n, file_pos = 0\<rparr>, m') = Some ([7, -12], f')"
proof -
  have "length [7, -12 :: u32] < 2 ^ 28" "\<forall>v \<in> set [7, -12 :: u32]. v \<noteq> 0x80000000" by simp_all
  from printed_numbers_scanned [OF this(2,1), where buf = "0x1000" and m = "\<lambda>_. 0"] show ?thesis
    by (simp only: list.size list.map numeral_2_eq_2 numeral_3_eq_3 plus_nat.simps) (simp; blast)
qed

text \<open>C26. The firmware's printf has room for nine characters of a number: printing an \<open>int\<close> with \<open>%d\<close> is undefined, a
  store before the buffer, exactly for the numbers from 1000000000 up and from -100000000 down.\<close>
theorem debug_printf_overflows:
  "debug_printf [PERCENT, 0x64] [Num v] p = None \<longleftrightarrow> 10 ^ 9 \<le> sint v \<or> sint v \<le> - (10 ^ 8)"
proof (cases "v = 0x80000000")
  case True
  then show ?thesis by (simp add: debug_convert_def debug_int_def)
next
  case False
  then have "debug_printf [PERCENT, 0x64] [Num v] p = None \<longleftrightarrow> \<not> length (show_int (sint v)) \<le> 9"
    by (simp add: debug_convert_def debug_int_eq)
  also have "\<dots> \<longleftrightarrow> 10 ^ 9 \<le> sint v \<or> sint v \<le> - (10 ^ 8)"
  proof -
    have len: "length (digits n) \<le> 9 \<longleftrightarrow> n < 1000000000" "length (digits n) \<le> 8 \<longleftrightarrow> n < 100000000" for n
      using length_digits [of n 9] length_digits [of n 8] by simp_all
    show ?thesis
    proof (cases "sint v < 0")
      case True
      then show ?thesis by (simp add: show_int_def len nat_less_iff) linarith
    next
      case False
      then show ?thesis by (simp add: show_int_def len nat_less_iff) linarith
    qed
  qed
  finally show ?thesis .
qed



end
