(* ===== verification/Image_IO.thy ===== *)
theory Image_IO
  imports Printing
begin

text \<open>
  Input images and the check of the results, the files of the benchmark suite that were rewritten for the
  FAT16 volume: \<open>mempol/sdvb/common/c/readImage.c\<close> and \<open>selfCheck.c\<close>, with \<open>iMallocHandle.c\<close> (the copies under
  \<open>sad_profile\<close> are identical). A matrix is the record \<open>i2d\<close>; like the structure of a file it takes its
  place on the heap, but its fields are the record. Local variables that a file is read into are byte
  lists; one that is used before it is filled gives \<open>None\<close>, as do the overflow of an \<open>int\<close>, a store
  outside a local array, and a chain of clusters that never ends.
\<close>

record i2d =
  i2d_width :: int
  i2d_height :: int
  i2d_data :: "int list"

text \<open>The heap pointer after the allocation; \<open>rows\<close> and \<open>cols\<close> are converted to 64 bits before the product.\<close>

definition iMallocHandle :: "int \<Rightarrow> int \<Rightarrow> u64 \<Rightarrow> u64" where
  "iMallocHandle rows cols heap_ptr = snd (bare_malloc (8 + 4 * word_of_int rows * word_of_int cols) heap_ptr)"

subsection \<open>\<open>readImage\<close>\<close>

text \<open>\<open>fat_fread\<close> of one element into a local of \<open>n\<close> bytes: its bytes, unless the file is too short.\<close>

definition read_var :: "nat \<Rightarrow> ram \<Rightarrow> fat_file \<Rightarrow> u8 list option \<times> fat_file" where
  "read_var n m f =
     (let avail = unat (file_size f - file_pos f);
          want = min n avail
      in (if want = n then Some (load_bytes m (file_data f + ucast (file_pos f)) n) else None,
          f\<lparr>file_pos := file_pos f + of_nat want\<rparr>))"

fun read_vars :: "nat list \<Rightarrow> ram \<Rightarrow> fat_file \<Rightarrow> u8 list option list \<times> fat_file" where
  "read_vars [] m f = ([], f)"
| "read_vars (n # ns) m f =
     (let (v, f) = read_var n m f; (vs, f) = read_vars ns m f in (v # vs, f))"

text \<open>The sizes of the header's variables, in the order in which they are read.\<close>

definition header_sizes :: "nat list" where
  "header_sizes = [2, 4, 2, 2, 4, 4, 4, 4, 2, 2, 4, 4, 4, 4, 4, 4]"

text \<open>A variable of \<open>n\<close> bytes as a signed number.\<close>

definition signed_le :: "u8 list \<Rightarrow> int" where
  "signed_le bs = signed_take_bit (8 * length bs - 1) (foldr (\<lambda>b a. uint b + 256 * a) bs 0)"

text \<open>The test of the header, with its short circuits; the outer \<open>None\<close> is a variable that was not filled.\<close>

definition bad_header ::
    "u8 list option \<Rightarrow> u8 list option \<Rightarrow> u8 list option \<Rightarrow> u8 list option \<Rightarrow> bool option" where
  "bad_header signature width height bits = do {
     sg \<leftarrow> signature;
     if sg \<noteq> [0x42, 0x4D] then Some True else do {
       h \<leftarrow> height;
       if signed_le h \<le> 0 then Some True else do {
         w \<leftarrow> width;
         if signed_le w \<le> 0 then Some True else do {
           b \<leftarrow> bits;
           Some (signed_le b \<noteq> 8 \<and> signed_le b \<noteq> 24)
         }
       }
     }
   }"

text \<open>
  One pixel: the state is the local that becomes the pixel (\<open>tempg\<close>, which keeps its value when the file has
  ended) and the file.
\<close>

type_synonym pixel_state = "u8 list option \<times> fat_file"

definition read_green :: "ram \<Rightarrow> pixel_state \<Rightarrow> pixel_state" where
  "read_green m = (\<lambda>(tempg, f). case read_var 1 m f of (v, f) \<Rightarrow> (if v = None then tempg else v, f))"

definition read_pixel :: "bool \<Rightarrow> ram \<Rightarrow> pixel_state \<Rightarrow> pixel_state" where
  "read_pixel bits8 m = (\<lambda>(tempg, f).
     if bits8 then read_green m (tempg, f)
     else let (_, f) = read_var 1 m f;
              (tempg, f) = read_green m (tempg, f);
              (_, f) = read_var 1 m f
          in (tempg, f))"

text \<open>A row of \<open>n\<close> pixels, and \<open>h\<close> rows, the last row first.\<close>

fun read_row :: "bool \<Rightarrow> ram \<Rightarrow> nat \<Rightarrow> pixel_state \<Rightarrow> (int list \<times> pixel_state) option" where
  "read_row bits8 m 0 st = Some ([], st)"
| "read_row bits8 m (Suc n) st = do {
     let st = read_pixel bits8 m st;
     v \<leftarrow> fst st;
     (vs, st) \<leftarrow> read_row bits8 m n st;
     Some (uint (hd v) # vs, st) }"

fun read_rows :: "bool \<Rightarrow> ram \<Rightarrow> nat \<Rightarrow> nat \<Rightarrow> pixel_state \<Rightarrow> (int list \<times> pixel_state) option" where
  "read_rows bits8 m w 0 st = Some ([], st)"
| "read_rows bits8 m w (Suc h) st = do {
     (row, st) \<leftarrow> read_row bits8 m w st;
     (rows, st) \<leftarrow> read_rows bits8 m w h st;
     Some (rows @ row, st) }"

text \<open>The body of \<open>readImage\<close> once the file is open; the result is the image or NULL, and the heap pointer.\<close>

definition read_bitmap :: "ram \<Rightarrow> fat_file \<Rightarrow> u64 \<Rightarrow> (i2d option \<times> u64) option" where
  "read_bitmap m input heap_ptr = (case read_vars header_sizes m input of (vars, input) \<Rightarrow> do {
     bad \<leftarrow> bad_header (vars ! 0) (vars ! 6) (vars ! 7) (vars ! 9);
     if bad then Some (None, heap_ptr)
     else do {
       w \<leftarrow> map_option signed_le (vars ! 6);
       h \<leftarrow> map_option signed_le (vars ! 7);
       bits \<leftarrow> map_option signed_le (vars ! 9);
       loc_of_bitmap \<leftarrow> map_option signed_le (vars ! 4);
       if h * w > 2 ^ 31 then None
       else do {
         let heap_ptr = iMallocHandle h w heap_ptr;
         let input = snd (fat_fseek (word_of_int loc_of_bitmap) SEEK_SET input);
         (pixels, _) \<leftarrow> read_rows (bits = 8) m (nat w) (nat h) (None, input);
         Some (Some \<lparr>i2d_width = w, i2d_height = h, i2d_data = pixels\<rparr>, heap_ptr)
       }
     } })"

definition readImage :: "fat16 option \<Rightarrow> u8 list \<Rightarrow> u64 \<times> ram \<Rightarrow> (i2d option \<times> u64 \<times> ram) option" where
  "readImage g_vol path hm = do {
     (input, heap_ptr, m) \<leftarrow> fat_fopen g_vol path hm;
     case input of
       None \<Rightarrow> Some (None, heap_ptr, m)
     | Some input \<Rightarrow> map_option (\<lambda>(img, heap_ptr). (img, heap_ptr, m)) (read_bitmap m input heap_ptr) }"

subsection \<open>\<open>selfCheck\<close>\<close>

definition EXPECTED_FILE :: "u8 list" where
  "EXPECTED_FILE = [0x2F, 0x65, 0x78, 0x70, 0x65, 0x63, 0x74, 0x65, 0x64, 0x5F, 0x43, 0x2E, 0x74, 0x78, 0x74]"

text \<open>The numbers that are read, at most \<open>n\<close>: until the file ends or a number cannot be read.\<close>

fun scan_expected :: "nat \<Rightarrow> fat_file \<times> ram \<Rightarrow> int list option" where
  "scan_expected 0 (f, m) = Some []"
| "scan_expected (Suc n) (f, m) =
     (if fat_feof (Some f) then Some []
      else do {
        (r, i, f) \<leftarrow> fat_fscanf_d (f, m);
        if r = 1 then map_option ((#) i) (scan_expected n (f, m)) else Some [] })"

text \<open>The loop over the elements; \<open>None\<close> is the absolute value of the smallest \<open>int\<close>.\<close>

definition abs_c :: "int \<Rightarrow> int option" where
  "abs_c x = (if x = - (2 ^ 31) then None else Some \<bar>x\<bar>)"

fun compare_expected :: "int \<Rightarrow> int list \<Rightarrow> int list \<Rightarrow> int option" where
  "compare_expected tol (x # xs) (b # bs) = do {
     p \<leftarrow> abs_c x;
     q \<leftarrow> abs_c b;
     if p - q > tol \<or> p - q < - tol then Some (-1) else compare_expected tol xs bs }"
| "compare_expected tol xs bs = Some 1"

text \<open>The name of the file has a local array of 100 bytes.\<close>

definition selfCheck ::
    "fat16 option \<Rightarrow> i2d \<Rightarrow> u8 list \<Rightarrow> int \<Rightarrow> u64 \<times> ram \<Rightarrow> (int \<times> u64 \<times> ram) option" where
  "selfCheck g_vol in1 path tol = (\<lambda>(heap_ptr, m).
     let n = i2d_height in1 * i2d_width in1;
         heap_ptr = snd (bare_malloc (4 * word_of_int (i2d_height in1) * word_of_int (i2d_width in1)) heap_ptr)
     in do {
       file \<leftarrow> sprintf_out ([PERCENT, 0x73] @ EXPECTED_FILE) [Str (Some path)];
       if length file \<ge> 100 \<or> n \<ge> 2 ^ 31 \<or> n < - (2 ^ 31) then None
       else do {
         (fd, heap_ptr, m) \<leftarrow> fat_fopen g_vol file (heap_ptr, m);
         case fd of
           None \<Rightarrow> Some (-1, heap_ptr, m)
         | Some fd \<Rightarrow> do {
             buffer \<leftarrow> scan_expected (nat n) (fd, m);
             if int (length buffer) < n then Some (-1, heap_ptr, m)
             else do {
               ret \<leftarrow> compare_expected tol (take (nat n) (i2d_data in1)) buffer;
               Some (ret, heap_ptr, m)
             }
           }
       }
     })"

end
