(* ===== verification/Image_Theorems.thy ===== *)
theory Image_Theorems
  imports Image_IO Print_Scan Fat_Read
begin

text \<open>
  What \<open>readImage\<close> makes of the bytes of a file, and when \<open>selfCheck\<close> accepts a result.
\<close>

subsection \<open>Reading at a position\<close>

definition at_pos :: "fat_file \<Rightarrow> nat \<Rightarrow> fat_file" where
  "at_pos f p = f\<lparr>file_pos := of_nat p\<rparr>"

lemma read_var_at:
  assumes "p + n \<le> unat (file_size f)"
  shows "read_var n m (at_pos f p) = (Some (take n (drop p (file_bytes f m))), at_pos f (p + n))"
proof -
  have "unat (file_size f) < 2 ^ 32" using unsigned_less [of "file_size f", where 'a = nat] by simp
  then have p: "unat (of_nat p :: u32) = p" using assms by (simp add: unat_of_nat take_bit_nat_eq_self)
  then have "unat (file_size f - of_nat p) = unat (file_size f) - p"
    using assms by (simp add: unat_sub_if')
  moreover have "(ucast (of_nat p :: u32) :: u64) = of_nat p" by (rule ucast_of_nat32 [OF p])
  moreover have "load_bytes m (file_data f + of_nat p) n = take n (drop p (file_bytes f m))"
    using assms unfolding file_bytes_def by (rule load_bytes_part)
  ultimately show ?thesis using assms by (simp add: read_var_def at_pos_def)
qed

text \<open>\<open>read_var\<close> is \<open>fat_fread\<close> of one element into a buffer: the same file afterwards, and the same bytes.\<close>

lemma read_var_fread:
  assumes "file_ok f" "buf \<noteq> 0" "0 < n" "n < 2 ^ 32"
  shows "\<exists>m'. fat_fread buf (of_nat n) 1 (f, m) =
      Some (if fst (read_var n m f) = None then 0 else 1, snd (read_var n m f), m') \<and>
    (\<forall>bs. fst (read_var n m f) = Some bs \<longrightarrow> m' = store_bytes buf bs m)"
proof -
  let ?avail = "file_size f - file_pos f"
  define want :: u32 where "want = (if of_nat n > ?avail then ?avail else of_nat n)"
  have n: "unat (of_nat n :: u32) = n" "unat (of_nat n :: u64) = n"
    using assms(4) by (simp_all add: unat_of_nat take_bit_nat_eq_self)
  have want: "unat want = min n (unat ?avail)" by (simp add: want_def word_less_nat_alt n min_def)
  then have pos: "want = of_nat (min n (unat ?avail))" by (simp flip: want)
  have sz: "(of_nat n :: u64) \<noteq> 0" using n(2) assms(3) by auto
  have "(ucast (of_nat n * 1 :: u64) :: u32) = of_nat n"
    by (intro word_unat_eq_iff [THEN iffD2]) (use assms(4) in \<open>simp add: unsigned_ucast_eq n take_bit_nat_eq_self\<close>)
  then have read: "fat_fread buf (of_nat n) 1 (f, m) =
      Some (ucast want div of_nat n, f\<lparr>file_pos := file_pos f + want\<rparr>,
        memcpy buf (file_data f + ucast (file_pos f)) (unat want) m)"
    using assms(2) sz by (simp add: fat_fread_def Let_def want_def)
  have w: "unat (ucast want :: u64) = min n (unat ?avail)"
    using want assms(4) by (simp add: unsigned_ucast_eq take_bit_nat_eq_self min.strict_coboundedI1)
  have "(ucast want :: u64) div of_nat n = (if min n (unat ?avail) = n then 1 else 0)"
    using assms(3) by (intro word_unat_eq_iff [THEN iffD2]) (simp add: unat_div_distrib w n min_def)
  then show ?thesis using want pos by (simp add: read read_var_def Let_def memcpy_def)
qed

fun fields :: "nat \<Rightarrow> nat list \<Rightarrow> u8 list \<Rightarrow> u8 list option list" where
  "fields p [] bs = []"
| "fields p (n # ns) bs = Some (take n (drop p bs)) # fields (p + n) ns bs"

lemma read_vars_at:
  "p + sum_list ns \<le> unat (file_size f) \<Longrightarrow>
   read_vars ns m (at_pos f p) = (fields p ns (file_bytes f m), at_pos f (p + sum_list ns))"
  by (induction ns arbitrary: p) (simp_all add: read_var_at add.assoc)

lemma one_byte: "p < length bs \<Longrightarrow> take (Suc 0) (drop p bs) = [bs ! p]"
  by (simp add: take_Suc_conv_app_nth)

subsection \<open>Pixels\<close>

definition pixel_bytes :: "bool \<Rightarrow> nat" where "pixel_bytes bits8 = (if bits8 then 1 else 3)"

definition pixel_at :: "bool \<Rightarrow> u8 list \<Rightarrow> nat \<Rightarrow> int" where
  "pixel_at bits8 bs p = uint (bs ! (if bits8 then p else p + 1))"

lemma length_file_bytes: "length (file_bytes f m) = unat (file_size f)"
  by (simp add: file_bytes_def)

lemma read_pixel_at:
  assumes "p + pixel_bytes b \<le> unat (file_size f)"
  shows "\<exists>v. read_pixel b m (t, at_pos f p) = (Some [v], at_pos f (p + pixel_bytes b)) \<and>
    uint v = pixel_at b (file_bytes f m) p"
  using assms
  by (cases b) (simp_all add: read_pixel_def read_green_def pixel_bytes_def pixel_at_def read_var_at one_byte
      length_file_bytes numeral_3_eq_3)

lemma read_row_at:
  "p + n * pixel_bytes b \<le> unat (file_size f) \<Longrightarrow>
   \<exists>t'. read_row b m n (t, at_pos f p) =
     Some (map (\<lambda>j. pixel_at b (file_bytes f m) (p + j * pixel_bytes b)) [0..<n], t', at_pos f (p + n * pixel_bytes b))"
proof (induction n arbitrary: p t)
  case (Suc n)
  obtain v where v: "read_pixel b m (t, at_pos f p) = (Some [v], at_pos f (p + pixel_bytes b))"
    "uint v = pixel_at b (file_bytes f m) p"
    using read_pixel_at [of p b f m t] Suc.prems by auto
  from Suc.IH [of "p + pixel_bytes b" "Some [v]"] Suc.prems obtain t' where
    "read_row b m n (Some [v], at_pos f (p + pixel_bytes b)) =
      Some (map (\<lambda>j. pixel_at b (file_bytes f m) (p + pixel_bytes b + j * pixel_bytes b)) [0..<n], t',
        at_pos f (p + pixel_bytes b + n * pixel_bytes b))" by (auto simp: add.assoc)
  then show ?case using v
    by (simp add: add.assoc upt_conv_Cons map_Suc_upt [symmetric] del: upt_Suc)
qed simp

definition pixel_rows :: "bool \<Rightarrow> u8 list \<Rightarrow> nat \<Rightarrow> nat \<Rightarrow> nat \<Rightarrow> int list" where
  "pixel_rows b bs p w h = concat (map (\<lambda>i. map (\<lambda>j. pixel_at b bs (p + ((h - 1 - i) * w + j) * pixel_bytes b)) [0..<w]) [0..<h])"

lemma read_rows_at:
  "p + h * w * pixel_bytes b \<le> unat (file_size f) \<Longrightarrow>
   \<exists>st. read_rows b m w h (t, at_pos f p) = Some (pixel_rows b (file_bytes f m) p w h, st)"
proof (induction h arbitrary: p t)
  case (Suc h)
  let ?k = "pixel_bytes b" and ?bs = "file_bytes f m"
  have room: "p + w * ?k \<le> unat (file_size f)" "p + w * ?k + h * w * ?k \<le> unat (file_size f)"
    using Suc.prems by (simp_all add: algebra_simps)
  obtain t' where row: "read_row b m w (t, at_pos f p) =
      Some (map (\<lambda>j. pixel_at b ?bs (p + j * ?k)) [0..<w], t', at_pos f (p + w * ?k))"
    using read_row_at [OF room(1)] by blast
  obtain st where rows: "read_rows b m w h (t', at_pos f (p + w * ?k)) = Some (pixel_rows b ?bs (p + w * ?k) w h, st)"
    using Suc.IH [OF room(2)] by blast
  have shift: "p + w * ?k + ((h - 1 - i) * w + j) * ?k = p + ((h - i) * w + j) * ?k" if "i < h" for i j
  proof -
    have "h - i = Suc (h - 1 - i)" using that by simp
    then show ?thesis by (simp add: algebra_simps)
  qed
  have "pixel_rows b ?bs (p + w * ?k) w h =
      concat (map (\<lambda>i. map (\<lambda>j. pixel_at b ?bs (p + ((h - i) * w + j) * ?k)) [0..<w]) [0..<h])"
    unfolding pixel_rows_def by (intro arg_cong [where f = concat] map_cong refl) (simp only: shift set_upt atLeastLessThan_iff)
  then have "pixel_rows b ?bs (p + w * ?k) w h @ map (\<lambda>j. pixel_at b ?bs (p + j * ?k)) [0..<w] =
      pixel_rows b ?bs p w (Suc h)"
    by (simp add: pixel_rows_def [of _ _ _ _ "Suc h"])
  then show ?case using row rows by simp
qed (simp add: pixel_rows_def)

lemma nth_rows:
  "(\<And>i. i < h \<Longrightarrow> length (g i) = w) \<Longrightarrow> i < h \<Longrightarrow> j < w \<Longrightarrow>
   length (concat (map g [0..<h])) = h * w \<and> concat (map g [0..<h]) ! (i * w + j) = g i ! j"
proof (induction h)
  case (Suc h)
  have len: "length (concat (map g [0..<h])) = h * w"
    using Suc.prems(1) by (induction h) simp_all
  show ?case
  proof (cases "i = h")
    case True
    then show ?thesis using len Suc.prems by (simp add: nth_append)
  next
    case False
    then have "i < h" using Suc.prems by simp
    then have "i * w + j < h * w" using Suc.prems(3) mult_le_mono1 [of "Suc i" h w] by simp
    then show ?thesis using len Suc \<open>i < h\<close> by (simp add: nth_append)
  qed
qed simp

lemma length_pixel_rows: "length (pixel_rows b bs p w h) = h * w"
  unfolding pixel_rows_def by (induction h) (simp_all add: length_concat comp_def sum_list_triv)

lemma nth_pixel_rows:
  assumes "i < h" "j < w"
  shows "pixel_rows b bs p w h ! (i * w + j) = pixel_at b bs (p + ((h - 1 - i) * w + j) * pixel_bytes b)"
  unfolding pixel_rows_def by (subst nth_rows [THEN conjunct2]) (simp_all add: assms)

subsection \<open>The header\<close>

lemma fopen_start: "fat_fopen g_vol path hm = Some (Some f, hm') \<Longrightarrow> file_pos f = 0"
  by (cases hm) (auto simp: fat_fopen_def Let_def split_beta bind_eq_Some_conv split: option.splits if_splits)

text \<open>A signed field of \<open>n\<close> bytes at an offset.\<close>

definition bmp_field :: "u8 list \<Rightarrow> nat \<Rightarrow> nat \<Rightarrow> int" where
  "bmp_field bs k n = signed_le (take n (drop k bs))"

lemma header_fields:
  "fields 0 header_sizes bs = map (\<lambda>(k, n). Some (take n (drop k bs)))
     [(0, 2), (2, 4), (6, 2), (8, 2), (10, 4), (14, 4), (18, 4), (22, 4), (26, 2), (28, 2), (30, 4), (34, 4), (38, 4),
      (42, 4), (46, 4), (50, 4)]"
  by (simp add: header_sizes_def numeral_2_eq_2)

lemma seek_to:
  assumes "0 \<le> k" "k \<le> uint (file_size f)"
  shows "snd (fat_fseek (word_of_int k) SEEK_SET f) = at_pos f (nat k)"
proof -
  have k: "k < 2 ^ 32" using assms(2) uint_lt2p [of "file_size f"] by simp
  have "sint (word_of_int k :: u64) = signed_take_bit 63 k" by (simp add: signed_of_int)
  also have "\<dots> = k" using assms(1) k by (intro signed_take_bit_int_eq_self) simp_all
  finally have "sint (word_of_int k :: u64) = k" .
  moreover have "(ucast (word_of_int k :: u64) :: u32) = of_nat (nat k)"
  proof (rule word_uint_eqI)
    show "uint (ucast (word_of_int k :: u64) :: u32) = uint (of_nat (nat k) :: u32)"
      using assms(1) k by (simp add: unsigned_ucast_eq unsigned_of_int unsigned_of_nat take_bit_int_eq_self take_bit_nat_eq_self)
  qed
  ultimately show ?thesis using assms by (simp add: fat_fseek_def clamp_pos_def at_pos_def)
qed

text \<open>C27. Reading an image: when the file is a bitmap with 8 or 24 bits per pixel that holds all its pixels, \<open>readImage\<close>
  returns an image of its size, whose pixel in row \<open>i\<close> and column \<open>j\<close> is the byte, or the green byte, of the
  \<open>j\<close>-th pixel in the \<open>i\<close>-th row from the end, the rows being stored without padding.\<close>
theorem readImage_pixels:
  fixes hm :: "u64 \<times> ram"
  assumes "fat_fopen g_vol path hm = Some (Some f, heap, m)"
  defines "bs \<equiv> file_bytes f m"
  defines "w \<equiv> bmp_field bs 18 4" and "h \<equiv> bmp_field bs 22 4" and "bits \<equiv> bmp_field bs 28 2" and "loc \<equiv> bmp_field bs 10 4"
  assumes "take 2 bs = [0x42, 0x4D]" "54 \<le> length bs" "0 < w" "0 < h" "bits = 8 \<or> bits = 24" "h * w \<le> 2 ^ 31"
    and "0 \<le> loc" "loc + h * w * (bits div 8) \<le> int (length bs)"
  shows "\<exists>img heap'. readImage g_vol path hm = Some (Some img, heap', m) \<and>
    i2d_width img = w \<and> i2d_height img = h \<and> length (i2d_data img) = nat (h * w) \<and>
    (\<forall>i < nat h. \<forall>j < nat w. i2d_data img ! (i * nat w + j) =
      uint (bs ! (nat loc + ((nat h - 1 - i) * nat w + j) * nat (bits div 8) + nat (bits div 24))))"
proof -
  define b where "b = (bits = 8)"
  have k: "nat (bits div 8) = pixel_bytes b" "nat (bits div 24) = (if b then 0 else 1)"
    using assms(11) by (auto simp: b_def pixel_bytes_def)
  have size: "length bs = unat (file_size f)" by (simp add: bs_def length_file_bytes)
  have f: "f = at_pos f 0" using fopen_start [OF assms(1)] by (simp add: at_pos_def)
  have "sum_list header_sizes = 54" by (simp add: header_sizes_def)
  then have vars: "read_vars header_sizes m f = (fields 0 header_sizes bs, at_pos f 54)"
    using read_vars_at [of 0 header_sizes f m] assms(8) size f unfolding bs_def by simp
  have good: "bad_header (Some (take 2 (drop 0 bs))) (Some (take 4 (drop 18 bs))) (Some (take 4 (drop 22 bs))) (Some (take 2 (drop 28 bs))) = Some False"
    using assms(7,9-11) by (auto simp: bad_header_def w_def h_def bits_def bmp_field_def)
  have "int (nat loc + nat h * nat w * pixel_bytes b) = loc + h * w * (bits div 8)"
    using assms(9,10,11,13) by (auto simp: k(1) [symmetric])
  then have room: "nat loc + nat h * nat w * pixel_bytes b \<le> unat (file_size f)"
    using assms(14) size by linarith
  then obtain st where rows: "read_rows b m (nat w) (nat h) (None, at_pos f (nat loc)) =
      Some (pixel_rows b bs (nat loc) (nat w) (nat h), st)"
    using read_rows_at unfolding bs_def by blast
  have "nat loc \<le> unat (file_size f)" using room by linarith
  then have "loc \<le> uint (file_size (at_pos f 54))" using assms(13) by (simp add: at_pos_def nat_le_iff)
  from seek_to [OF assms(13) this]
  have seek: "snd (fat_fseek (word_of_int loc) SEEK_SET (at_pos f 54)) = at_pos f (nat loc)" by (simp add: at_pos_def)
  let ?img = "\<lparr>i2d_width = w, i2d_height = h, i2d_data = pixel_rows b bs (nat loc) (nat w) (nat h)\<rparr>"
  have "read_bitmap m f heap = Some (Some ?img, iMallocHandle h w heap)"
    using good assms(12) seek rows
    by (simp add: read_bitmap_def vars header_fields b_def w_def h_def bits_def loc_def bmp_field_def)
  then have read: "readImage g_vol path hm = Some (Some ?img, iMallocHandle h w heap, m)"
    by (simp add: readImage_def assms(1))
  have len: "length (pixel_rows b bs (nat loc) (nat w) (nat h)) = nat (h * w)"
    using assms(9,10) by (simp add: length_pixel_rows nat_mult_distrib)
  have "pixel_rows b bs (nat loc) (nat w) (nat h) ! (i * nat w + j) =
      uint (bs ! (nat loc + ((nat h - 1 - i) * nat w + j) * nat (bits div 8) + nat (bits div 24)))"
    if "i < nat h" "j < nat w" for i j
    unfolding k nth_pixel_rows [OF that] by (simp add: pixel_at_def)
  with read len show ?thesis by (intro exI [of _ ?img] exI conjI) auto
qed

text \<open>A bitmap of one row with two pixels, 8 bits each, behind its header of 54 bytes.\<close>

definition tiny_bitmap :: "u8 list" where
  "tiny_bitmap = [0x42, 0x4D] @ replicate 8 0 @ [54, 0, 0, 0] @ replicate 4 0 @ [2, 0, 0, 0, 1, 0, 0, 0, 1, 0, 8, 0] @
     replicate 24 0 @ [7, 9]"

subsection \<open>Checking a result\<close>

lemma scan_expected_text:
  "holds_text f m (ws @ lines_text ns) \<Longrightarrow> list_all is_space ws \<Longrightarrow> \<forall>i \<in> set ns. \<bar>i\<bar> < 2 ^ 31 \<Longrightarrow>
   scan_expected k (f, m) = Some (take k ns)"
proof (induction k arbitrary: f ws ns)
  case (Suc k)
  have feof: "fat_feof (Some f) \<longleftrightarrow> ws @ lines_text ns = []"
    using holds_text_left [OF Suc.prems(1)] by (simp add: fat_feof_def)
  show ?case
  proof (cases ns)
    case Nil
    then show ?thesis using Suc.prems fscanf_space [of f m ws] feof by (simp add: lines_text_def)
  next
    case (Cons i ns')
    let ?f = "advance (length ws + length (show_int i)) f"
    have held: "holds_text f m (ws @ show_int i @ [0x0A] @ lines_text ns')"
      using Suc.prems(1) by (simp add: lines_text_def Cons)
    then have "fat_fscanf_d (f, m) = Some (1, i, ?f)"
      using fscanf_number [of f m ws i "[0x0A] @ lines_text ns'"] Suc.prems(2,3) Cons by (simp add: is_digit_def)
    moreover have "holds_text ?f m ([0x0A] @ lines_text ns')"
      using holds_text_advance [of f m "ws @ show_int i" "[0x0A] @ lines_text ns'"] held by simp
    then have "scan_expected k (?f, m) = Some (take k ns')"
      using Suc.prems(3) Cons by (intro Suc.IH [of _ "[0x0A]"]) (simp_all add: is_space_def)
    moreover have "\<not> fat_feof (Some f)" using feof by (simp add: Cons lines_text_def)
    ultimately show ?thesis by (simp add: Cons)
  qed
qed simp

lemma file_holds_text:
  assumes "file_pos f = 0"
  shows "holds_text f m (file_bytes f m)"
proof -
  have small: "unat (file_size f) < 2 ^ 32" using unsigned_less [of "file_size f", where 'a = nat] by simp
  have "text_at m (file_data f) 0 (file_bytes f m)"
  proof (rule text_atI, intro allI impI)
    fix i assume "i < length (file_bytes f m)"
    then have i: "i < unat (file_size f)" by (simp add: length_file_bytes)
    then have "unat (of_nat i :: u32) = i" using small by (simp add: unat_of_nat take_bit_nat_eq_self)
    then have "(ucast (of_nat i :: u32) :: u64) = of_nat i" by (rule ucast_of_nat32)
    then show "m (file_data f + ucast (0 + of_nat i :: u32)) = file_bytes f m ! i"
      using i by (simp add: file_bytes_def load_bytes_def)
  qed
  then show ?thesis using assms by (simp add: holds_text_def length_file_bytes)
qed

lemma compare_expected_exact:
  "\<forall>x \<in> set xs. \<bar>x\<bar> < 2 ^ 31 \<Longrightarrow> \<forall>x \<in> set bs. \<bar>x\<bar> < 2 ^ 31 \<Longrightarrow> length xs = length bs \<Longrightarrow>
   compare_expected tol xs bs = Some (if \<forall>i < length xs. \<bar>\<bar>xs ! i\<bar> - \<bar>bs ! i\<bar>\<bar> \<le> tol then 1 else -1)"
proof (induction tol xs bs rule: compare_expected.induct)
  case (1 tol x xs b bs)
  have all: "(\<forall>i < length (x # xs). \<bar>\<bar>(x # xs) ! i\<bar> - \<bar>(b # bs) ! i\<bar>\<bar> \<le> tol) \<longleftrightarrow>
      \<bar>\<bar>x\<bar> - \<bar>b\<bar>\<bar> \<le> tol \<and> (\<forall>i < length xs. \<bar>\<bar>xs ! i\<bar> - \<bar>bs ! i\<bar>\<bar> \<le> tol)"
    by (auto simp: less_Suc_eq_0_disj)
  have "abs_c x = Some \<bar>x\<bar>" "abs_c b = Some \<bar>b\<bar>" using "1.prems" by (auto simp: abs_c_def)
  then show ?case
    using "1.IH" [of "\<bar>x\<bar>" "\<bar>b\<bar>"] "1.prems" unfolding all by (auto simp: abs_le_iff)
qed simp_all

text \<open>C28. The check of a result: when the file of expected values opens and holds numbers, one per line, \<open>selfCheck\<close>
  returns 1 exactly when there are enough numbers and the absolute value of each element is within the tolerance of
  the absolute value of the number for it, and -1 otherwise. So an element with the wrong sign passes.\<close>
theorem selfCheck_exact:
  assumes "fat_fopen g_vol (path @ EXPECTED_FILE) (snd (bare_malloc (4 * word_of_int h * word_of_int w) heap), m) =
      Some (Some f, heap', m')"
    and "holds_text f m' (lines_text ns)" "\<forall>x \<in> set ns. \<bar>x\<bar> < 2 ^ 31" "\<forall>x \<in> set xs. \<bar>x\<bar> < 2 ^ 31"
    and "length xs = nat (h * w)" "0 \<le> h * w" "h * w < 2 ^ 31" "length path < 85"
  shows "selfCheck g_vol \<lparr>i2d_width = w, i2d_height = h, i2d_data = xs\<rparr> path tol (heap, m) =
    Some (if length xs \<le> length ns \<and> (\<forall>i < length xs. \<bar>\<bar>xs ! i\<bar> - \<bar>ns ! i\<bar>\<bar> \<le> tol) then 1 else -1, heap', m')"
proof -
  have "sprintf_out EXPECTED_FILE [] = Some EXPECTED_FILE" by (simp add: EXPECTED_FILE_def)
  then have name: "sprintf_out ([PERCENT, 0x73] @ EXPECTED_FILE) [Str (Some path)] = Some (path @ EXPECTED_FILE)"
    by (simp add: sprintf_convert_def string_or_null_def)
  have short: "length (path @ EXPECTED_FILE) < 100" using assms(8) by (simp add: EXPECTED_FILE_def)
  have scan: "scan_expected (length xs) (f, m') = Some (take (length xs) ns)"
    using scan_expected_text [of f m' "[]" ns "length xs"] assms(2,3) by simp
  have "\<forall>x \<in> set (take (length xs) ns). \<bar>x\<bar> < 2 ^ 31" using assms(3) by (auto dest: in_set_takeD)
  then have cmp: "compare_expected tol xs (take (length xs) ns) =
      Some (if \<forall>i < length xs. \<bar>\<bar>xs ! i\<bar> - \<bar>ns ! i\<bar>\<bar> \<le> tol then 1 else -1)" if "length xs \<le> length ns"
    using compare_expected_exact [of xs "take (length xs) ns" tol] assms(4) that by simp
  have n: "h * w = int (length xs)" using assms(5,6) by simp
  have "length xs < 2147483648" using assms(7) n by simp
  then show ?thesis
    using name short scan cmp assms(1)
    by (cases "length xs \<le> length ns")
      (simp_all add: selfCheck_def Let_def n min_def del: sprintf_out.simps append.simps)
qed

subsection \<open>A volume with an image and expected values\<close>

text \<open>A directory entry, with the first cluster and the length of the file.\<close>

definition test_entry :: "u8 list \<Rightarrow> u8 \<Rightarrow> u8 \<Rightarrow> u8 \<Rightarrow> u8 list" where
  "test_entry name attr cluster len = name @ [attr] @ replicate 14 0 @ [cluster, 0, len, 0, 0, 0]"

text \<open>The volume: the table, a root directory with an image and a directory, which holds the expected values.\<close>

definition test_disk :: "u8 list" where
  "test_disk = replicate 64 0 @ (replicate 4 0 @ replicate 6 0xFF @ replicate 54 0) @
     test_entry (0x41 # replicate 10 0x20) 0x20 2 56 @ test_entry (0x44 # replicate 10 0x20) 0x10 3 0 @
     (tiny_bitmap @ replicate 8 0) @
     (test_entry [0x45, 0x58, 0x50, 0x45, 0x43, 0x54, 0x7E, 0x31, 0x54, 0x58, 0x54] 0x20 4 4 @ replicate 32 0) @
     ([0x37, 0x0A, 0x39, 0x0A] @ replicate 60 0)"

definition test_ram :: ram where "test_ram = store_bytes FAT_PART_BASE test_disk (\<lambda>_. 0)"

definition test_volume :: fat16 where
  "test_volume = \<lparr>bps = 64, spc = 1, rsvd = 1, nfats = 1, rdcnt = 2, spf = 1, fat_sec = 1, root_sec = 2, data_sec = 3\<rparr>"

lemma t1: "resolve_path test_ram test_volume [0x41] = Some (Some 0x82100080)" by code_simp
lemma test_root: "find_in_root test_volume [0x44] test_ram = Some 0x821000A0" by code_simp

lemma test_fields:
  "fat16_dir_size test_ram 0x82100080 = 56" "fat16_dir_cluster test_ram 0x82100080 = 2"
  "fat16_dir_size test_ram 0x82100100 = 4" "fat16_dir_cluster test_ram 0x82100100 = 4"
  "fat16_dir_cluster test_ram 0x821000A0 = 3" "test_ram 0x821000AB = 0x10"
  by code_simp+

lemma test_dir: "find_in_dir test_ram test_volume (tl EXPECTED_FILE) 3 = Some (Some 0x82100100)"
  by (subst find_in_dir.simps) code_simp

lemma test_expected: "resolve_path test_ram test_volume ([0x44] @ EXPECTED_FILE) = Some (Some 0x82100100)"
proof -
  define e where "e = tl EXPECTED_FILE"
  have e: "EXPECTED_FILE = SLASH # e" "length e = 14" "SLASH \<noteq> 0x44" unfolding e_def by code_simp+
  have dir: "find_in_dir test_ram test_volume e 3 = Some (Some 0x82100100)" unfolding e_def by (rule test_dir)
  then show ?thesis unfolding e(1) using dir e(2,3) test_root test_fields by (simp add: resolve_path_def)
qed

lemma test_chains:
  "chain_bytes test_ram test_volume 1 2 = tiny_bitmap @ replicate 8 0"
  "chain_bytes test_ram test_volume 1 4 = lines_text [7, 9] @ replicate 60 0"
proof -
  show "chain_bytes test_ram test_volume 1 2 = tiny_bitmap @ replicate 8 0" by code_simp
  have "lines_text [7, 9] = [0x37, 0x0A, 0x39, 0x0A]" 
    by (simp add: lines_text_def show_int_def digits.simps)
  moreover have "chain_bytes test_ram test_volume 1 4 = [0x37, 0x0A, 0x39, 0x0A] @ replicate 60 0" by code_simp
  ultimately show "chain_bytes test_ram test_volume 1 4 = lines_text [7, 9] @ replicate 60 0" by simp
qed

lemma tiny_fields:
  "bmp_field tiny_bitmap 18 4 = 2" "bmp_field tiny_bitmap 22 4 = 1" "bmp_field tiny_bitmap 28 2 = 8"
  "bmp_field tiny_bitmap 10 4 = 54" "length tiny_bitmap = 56" "take 2 tiny_bitmap = [0x42, 0x4D]"
  by code_simp+

lemma test_cluster: "cluster_bytes test_volume \<noteq> 0" by code_simp

theorem readImage_pixels_witness:
  "\<exists>img heap' m'. readImage (Some test_volume) [0x41] (HEAP_BASE, test_ram) = Some (Some img, heap', m') \<and>
    i2d_width img = 2 \<and> i2d_height img = 1 \<and> i2d_data img = [7, 9]"
proof -
  have path: "resolve_path test_ram test_volume [0x41] = Some (Some 0x82100080)" by code_simp
  obtain heap' m' where opened: "fat_fopen (Some test_volume) [0x41] (HEAP_BASE, test_ram) =
      Some (Some \<lparr>file_data = HEAP_BASE + 16, file_size = 56, file_pos = 0\<rparr>, heap', m')"
    "load_bytes m' (HEAP_BASE + 16) 56 = tiny_bitmap"
    using fopen_reads [OF path test_fields(1) [symmetric], of 1 HEAP_BASE] test_cluster
    by (auto simp: test_fields test_chains tiny_fields HEAP_BASE_def simp del: One_nat_def)
  let ?f = "\<lparr>file_data = HEAP_BASE + 16, file_size = 56, file_pos = 0\<rparr>"
  have bytes: "file_bytes ?f m' = tiny_bitmap" using opened(2) by (simp add: file_bytes_def)
  from readImage_pixels [OF opened(1), unfolded bytes tiny_fields] tiny_fields
  obtain img heap'' where img: "readImage (Some test_volume) [0x41] (HEAP_BASE, test_ram) = Some (Some img, heap'', m')"
    "i2d_width img = 2" "i2d_height img = 1" "length (i2d_data img) = 2"
    "i2d_data img ! 0 = uint (tiny_bitmap ! 54)" "i2d_data img ! Suc 0 = uint (tiny_bitmap ! 55)"
    by (auto simp: numeral_2_eq_2 less_Suc_eq)
  moreover have "uint (tiny_bitmap ! 54) = 7" "uint (tiny_bitmap ! 55) = 9" by code_simp+
  ultimately have "i2d_data img = [7, 9]" by (intro nth_equalityI) (auto simp: numeral_2_eq_2 less_Suc_eq)
  with img show ?thesis by blast
qed

theorem selfCheck_exact_witness:
  "\<exists>heap' m'. selfCheck (Some test_volume) \<lparr>i2d_width = 2, i2d_height = 1, i2d_data = [7, -9]\<rparr> [0x44] 0
    (HEAP_BASE, test_ram) = Some (1, heap', m')"
proof -
  have heap: "snd (bare_malloc (4 * word_of_int 1 * word_of_int 2) HEAP_BASE) = HEAP_BASE + 8" by code_simp
  have len: "length (lines_text [7, 9]) = 4" by (simp add: lines_text_def show_int_def digits.simps)
  obtain heap' m' where opened: "fat_fopen (Some test_volume) ([0x44] @ EXPECTED_FILE) (HEAP_BASE + 8, test_ram) =
      Some (Some \<lparr>file_data = HEAP_BASE + 24, file_size = 4, file_pos = 0\<rparr>, heap', m')"
    "load_bytes m' (HEAP_BASE + 24) 4 = lines_text [7, 9]"
    using fopen_reads [OF test_expected test_fields(3) [symmetric], of 1 "HEAP_BASE + 8"] test_cluster
    by (auto simp: test_fields test_chains len HEAP_BASE_def simp del: One_nat_def append.simps)
  let ?f = "\<lparr>file_data = HEAP_BASE + 24, file_size = 4, file_pos = 0\<rparr>"
  have held: "holds_text ?f m' (lines_text [7, 9])"
    using file_holds_text [of ?f m'] opened(2) by (simp add: file_bytes_def)
  show ?thesis
    using selfCheck_exact [of "Some test_volume" "[0x44]" 1 2 HEAP_BASE test_ram ?f heap' m' "[7, 9]" "[7, -9]" 0]
      opened(1) held unfolding heap by (auto simp: less_Suc_eq numeral_2_eq_2 simp del: append.simps)
qed

end
