(* ===== verification/Evu_Test.thy ===== *)
theory Evu_Test
  imports Sad_Theorems Soc_Drivers
begin

text \<open>
  The smoke test of the event unit, \<open>evu_test/evu_test.c\<close>: it loads the profiling firmware, lets the
  milestone counters 20 and 21 count the entries and exits of \<open>evu_probe\<close>, calls it \<open>N_CALLS\<close> times and compares
  the counters and the log of the firmware with that number. The text is left out, the registers that
  are read to be printed are read. What the machine does during a call of \<open>evu_probe\<close> is the argument \<open>call\<close>;
  the addresses and the images come from the linker.
\<close>

definition N_CALLS :: u32 where "N_CALLS = 16"

definition evu_probe :: "u32 \<Rightarrow> u32" where
  "evu_probe n = fold (\<lambda>i s. s + (of_nat i * 3 + drop_bit 2 s)) [0..<unat n] 0"

text \<open>Words in memory that differ from an image.\<close>

definition verify_words :: "'s hw \<Rightarrow> u64 \<Rightarrow> u32 list \<Rightarrow> u32 \<Rightarrow> 's \<Rightarrow> u32 \<times> 's" where
  "verify_words hw dst src nbytes s =
     fold (\<lambda>i (bad, s). case rd32 hw (dst + 4 * of_nat i) s of
        (v, s) \<Rightarrow> (if v \<noteq> src ! i then bad + 1 else bad, s)) [0..<words_of_size nbytes] (0, s)"

text \<open>The result is 0, or -1 when the firmware did not start in time; besides, the words that differ.\<close>

definition evu_load_and_start_pmu ::
    "'s hw \<Rightarrow> u32 list \<Rightarrow> u32 \<Rightarrow> u32 list \<Rightarrow> u32 \<Rightarrow> 's \<Rightarrow> int \<times> u32 \<times> 's" where
  "evu_load_and_start_pmu hw text_img text_size data_img data_size s =
     (let s = fence hw (write_32b hw (u32_to_addr PMC_STATUS_ADDR) 1 s);
          s = write_32b hw (u32_to_addr PERIOD_ADDR) 0xFFFFFFFF s;
          s = write_32b hw (u32_to_addr (PERIOD_ADDR + 4)) 0xFFFFFFFF s;
          s = fence hw s;
          s = for_upto 128 (\<lambda>i. write_32b hw (u32_to_addr (DSPM_BASE_ADDR + 4 * of_nat i)) 0) s;
          s = copy_words hw (u32_to_addr ISPM_BASE_ADDR) text_img text_size s;
          s = copy_words hw (u32_to_addr (DSPM_BASE_ADDR + 0x200)) data_img data_size s;
          s = fence hw s;
          (bad, s) = verify_words hw (u32_to_addr ISPM_BASE_ADDR) text_img text_size s;
          s = write_32b hw (u32_to_addr PMC_BOOT_ADDR) ISPM_BASE_ADDR s;
          s = write_32b hw (u32_to_addr PMC_STATUS_ADDR) 0 s;
          s = fence hw s;
          (timeout, s) = poll_timeout (read_32b hw (u32_to_addr DSPM_STATUS_ADDR))
                           (\<lambda>v. v = STATUS_STARTED) 100000 s;
          (_, s) = read_32b hw (u32_to_addr DSPM_STATUS_ADDR) s
      in (if timeout = 0 then -1 else 0, bad, s))"

definition configure_evu :: "'s hw \<Rightarrow> 's \<Rightarrow> 's" where
  "configure_evu hw s =
     (let w = (\<lambda>a v. write_32b hw (u32_to_addr a) v);
          s = w (EVENTID_C0_BASE_ADDR + 0) 0x00 s;
          s = w (EVENTID_C0_BASE_ADDR + 4) 0x00 s;
          s = w (EVENTID_C0_BASE_ADDR + 8) 0x17 s;
          s = w (EVENTID_C0_BASE_ADDR + 12) 0x00 s;
          s = fence hw s;
          s = program_counter hw CNT_MILESTONE_0 EVU_C0_EV1_SEL (EVU_INFO_CFG 0) s;
          s = program_counter hw CNT_MILESTONE_EXIT EVU_C0_EV1_SEL (EVU_INFO_CFG 1) s
      in fence hw s)"

subsection \<open>The steps of \<open>main\<close>\<close>

definition milestone_count :: "'s hw \<Rightarrow> u32 \<Rightarrow> 's \<Rightarrow> u32 \<times> 's" where
  "milestone_count hw n s =
     (let (v, s) = read_32b hw (u32_to_addr (COUNTER_BASE_ADDR + n * COUNTER_BUNDLE_SIZE)) s in (v AND 0x7FFFFFFF, s))"

text \<open>Step 2: the tracked addresses; the number of failures.\<close>

definition track_fails :: "u32 \<Rightarrow> u32 \<times> u32 \<times> u32 \<times> u32 \<Rightarrow> nat" where
  "track_fails want_entry = (\<lambda>(track0_lo, track0_hi, track1_lo, track1_hi).
     (if track0_lo \<noteq> want_entry \<or> track0_hi \<noteq> 0 then 1 else 0) +
     (if track1_lo \<le> want_entry \<or> track1_lo - want_entry > 0x200 \<or> track1_hi \<noteq> 0 then 1 else 0))"

definition check_track :: "'s hw \<Rightarrow> u32 \<Rightarrow> 's \<Rightarrow> nat \<times> 's" where
  "check_track hw want_entry s =
     (let (lo0, s) = read_32b hw (u32_to_addr (PC_MILESTONE_C0_BASE_ADDR + 0)) s;
          (hi0, s) = read_32b hw (u32_to_addr (PC_MILESTONE_C0_BASE_ADDR + 4)) s;
          (lo1, s) = read_32b hw (u32_to_addr (PC_MILESTONE_C0_BASE_ADDR + 8)) s;
          (hi1, s) = read_32b hw (u32_to_addr (PC_MILESTONE_C0_BASE_ADDR + 12)) s
      in (track_fails want_entry (lo0, hi0, lo1, hi1), s))"

text \<open>Step 3: start the measurement and call the function; the counters before, and \<open>acc\<close>.\<close>

definition run_calls :: "'s hw \<Rightarrow> (u32 \<Rightarrow> 's \<Rightarrow> 's) \<Rightarrow> 's \<Rightarrow> ((u32 \<times> u32 \<times> u32) \<times> 's) option" where
  "run_calls hw call s = do {
     let s = fence hw (write_32b hw (u32_to_addr DSPM_CMD_ADDR) CMD_TRIGGER_INTERRUPT s);
     (_, s) \<leftarrow> poll_until (read_32b hw (u32_to_addr DSPM_STATUS_ADDR)) (\<lambda>v. v = STATUS_ALL_IRQS_SENT) s;
     let (before_entry, s) = milestone_count hw CNT_MILESTONE_0 s;
     let (before_exit, s) = milestone_count hw CNT_MILESTONE_EXIT s;
     let (_, s) = read_32b hw (u32_to_addr (COUNTER_BASE_ADDR + 26 * COUNTER_BUNDLE_SIZE)) s;
     let (acc, s) = fold (\<lambda>i (acc, s). let n = 64 + 16 * of_nat i in (acc + evu_probe n, call n s))
       [0..<unat N_CALLS] (0, s);
     Some ((before_entry, before_exit, acc), s) }"

text \<open>Step 4: the counters and the log after the calls, and how many of the records have no cycles.\<close>

record evu_results =
  cnt_entry :: u32
  cnt_exit :: u32
  logged_calls :: u32
  tot_cycles :: u32
  zero_records :: u32

definition log_records_read :: "u32 \<Rightarrow> nat" where
  "log_records_read n = min (unat n) (unat N_CALLS)"

text \<open>The first word of each record, the cycles; the six words behind it are printed with it.\<close>

definition read_cycles :: "'s hw \<Rightarrow> nat \<Rightarrow> 's \<Rightarrow> u32 \<times> 's" where
  "read_cycles hw i s =
     (let rec = DSPM_LOG_RECORDS + of_nat i * RECORD_WORDS * 4;
          (ws, s) = read_list (\<lambda>k. read_32b hw (u32_to_addr (rec + 4 * of_nat k))) [0..<7] s
      in (ws ! 0, s))"

definition collect_results :: "'s hw \<Rightarrow> 's \<Rightarrow> evu_results \<times> 's" where
  "collect_results hw s =
     (let (entries, s) = milestone_count hw CNT_MILESTONE_0 s;
          (exits, s) = milestone_count hw CNT_MILESTONE_EXIT s;
          (calls, s) = read_32b hw (u32_to_addr DSPM_LOG_CALL_COUNT) s;
          (cycles, s) = read_32b hw (u32_to_addr (DSPM_LOG_TOTALS + 0)) s;
          (_, s) = read_32b hw (u32_to_addr (COUNTER_BASE_ADDR + 26 * COUNTER_BUNDLE_SIZE)) s;
          (_, s) = read_32b hw (u32_to_addr (DSPM_LOG_BASE + 0x04)) s;
          s = write_32b hw (u32_to_addr PMC_STATUS_ADDR) 1 s;
          (cycs, s) = read_list (read_cycles hw) [0..<log_records_read calls] s
      in (\<lparr>cnt_entry = entries, cnt_exit = exits, logged_calls = calls, tot_cycles = cycles,
           zero_records = of_nat (length (filter (\<lambda>c. c = 0) cycs))\<rparr>, s))"

definition count_fails :: "u32 \<Rightarrow> u32 \<Rightarrow> evu_results \<Rightarrow> nat" where
  "count_fails before_entry before_exit r =
     (if before_entry \<noteq> 0 \<or> before_exit \<noteq> 0 then 1 else 0) +
     (if cnt_entry r \<noteq> N_CALLS then 1 else 0) +
     (if cnt_exit r \<noteq> N_CALLS then 1 else 0) +
     (if logged_calls r \<noteq> N_CALLS then 1 else 0) +
     (if zero_records r \<noteq> 0 then 1 else 0)"

text \<open>
  \<open>main\<close> on core 0, in the simulation build; the other cores wait for ever. \<open>None\<close> is a poll that never
  ends. The result is the exit code, 0 for a pass.
\<close>

definition evu_main ::
    "'s hw \<Rightarrow> u32 list \<Rightarrow> u32 \<Rightarrow> u32 list \<Rightarrow> u32 \<Rightarrow> u32 \<Rightarrow> (u32 \<Rightarrow> 's \<Rightarrow> 's) \<Rightarrow> 's \<Rightarrow> (int \<times> 's) option" where
  "evu_main hw text_img text_size data_img data_size probe_addr call s =
     (let (mhartid, s) = csr_rd hw CSR_MHARTID s in
      if (ucast mhartid :: u32) \<noteq> 0 then None
      else let s = uart_sim_cfg hw (set_flls hw s);
               (rc, bad, s) = evu_load_and_start_pmu hw text_img text_size data_img data_size s
           in if rc \<noteq> 0 then map_option (Pair 1) (uart_wait_tx_done hw s)
              else do {
                let s = configure_evu hw s;
                let (fails, s) = check_track hw probe_addr s;
                ((before_entry, before_exit, acc), s) \<leftarrow> run_calls hw call s;
                let (r, s) = collect_results hw s;
                let fails = fails + count_fails before_entry before_exit r;
                s \<leftarrow> uart_wait_tx_done hw s;
                Some (if fails \<noteq> 0 then 1 else 0, s) })"

end
