(* ===== verification/Evu_Theorems.thy ===== *)
theory Evu_Theorems
  imports Evu_Test
begin









end
