(* ===== verification/Spec2Isabelle.thy ===== *)
theory Spec2Isabelle
  imports Bringup_Theorems Sad_Theorems Pmu_Test_Theorems Case_Study_Theorems Fat_Theorems
    Mem_Theorems Print_Theorems Image_Theorems Evu_Theorems
begin

text \<open>
  The software of an APMU (advanced performance monitoring unit) on a four-core RISC-V SoC, modelled as it
  is written in C, with the theorems that make it correct.

  \<^bold>\<open>The program.\<close> The APMU has a small core with an instruction and a data scratchpad (ISPM, DSPM) and 32
  counters. Two experiments run on it. In \<open>mempol/\<close> the firmware \<open>pmu_firmware/main.c\<close> polices the memory
  traffic of the CVA6 cores: it polls the counters, keeps a token bucket per core, and writes pause and resume
  commands into counters 0 to 3, whose overflow interrupts the cores. On each core the trap handler of
  \<open>pmu_bench.c\<close> obeys the command and acknowledges it in the same counter. In \<open>sad_profile/\<close> the firmware
  watches two milestone counters and records the counters of each call of a profiled function in the DSPM;
  \<open>pmu_bench.c\<close> reads the log back and compares two passes. \<open>pmu_test_func.c\<close> (the same file in both
  directories) tests an APMU at bring-up, mostly by writing small machine programs into the ISPM. \<open>inc/\<close> holds
  the drivers that the C programs use. The workloads read their images from a FAT16 volume in memory through
  \<open>fat16.c\<close> and \<open>fat_file.c\<close>, with buffers of the allocator \<open>bare_malloc.c\<close>. \<open>evu_test/\<close> is a smoke test of the
  event unit with the profiling firmware. There are three formatting routines, \<open>printf\<close> of \<open>string_lib.c\<close>,
  \<open>bare_sprintf\<close>, and \<open>debug_printf\<close> of the firmwares.

  \<^bold>\<open>How it is modelled.\<close> Every register access goes through the record \<open>hw\<close> of \<open>Prelude\<close>, whose fields are
  the loads, stores, CSR and counter instructions and the fence on a state of type \<open>'s\<close>. The code is a group of
  functions over an arbitrary \<open>hw\<close>, so that a lemma about the code holds for every hardware, and a system is an
  instance of \<open>hw\<close>. Registers and C integers are words of their width and wrap; \<open>int32_t\<close> is a word read with
  \<open>sint\<close>. Globals and locals are the fields of a record (\<open>mempol_fw\<close>, \<open>bench\<close>, \<open>sad_fw\<close>). A polling loop
  that may not end is \<open>poll_until\<close>, an option that is \<open>None\<close> when the condition never comes; the loops of
  the firmwares run \<open>n\<close> times for every \<open>n\<close>. Reads the code does outside an array, and C behaviour that is
  undefined, are \<open>None\<close> as well. The drivers' and tests' calls of \<open>printf\<close> are left out; what is printed is
  the result of the function. \<open>printf\<close> itself is modelled.

  \<^bold>\<open>The theories.\<close>

  \<^item> \<open>Prelude\<close>, \<open>Memory_Map\<close>: types, the hardware interface, polling loops, addresses and events
    (\<open>inc/memory_map.h\<close>, \<open>mempol/pmu_defines.h\<close>, \<open>inc/pulp_io.h\<close>).
  \<^item> \<open>Mempol_Firmware\<close>: \<open>mempol/pmu_firmware/main.c\<close>. \<open>Mempol_Bucket\<close> refines its 32-bit token bucket to
    the integer bucket \<open>bucket_step\<close>; \<open>Mempol_Run\<close> follows the firmware's own state through the main loop on any
    hardware.
  \<^item> \<open>Mempol_Bench\<close>, \<open>Mempol_Main\<close>: \<open>mempol/pmu_bench.c\<close>, the trap handler, the set-up, the experiment and
    the dumps.
  \<^item> \<open>Mempol_System\<close>, \<open>Mempol_Handshake\<close>, \<open>Mempol_Sync\<close>: the firmware and the four harts together. The
    state \<open>sys\<close> has a schedule of what the harts do between two accesses of the firmware; the handler refines
    \<open>obey\<close>, and the invariant \<open>fw_sync\<close> ties the throttled flags of the firmware to the harts for every schedule.
    \<open>Mempol_Log\<close> is the round trip of the log.
  \<^item> \<open>Sad_Firmware\<close>, \<open>Sad_Bench\<close>, \<open>Sad_System\<close>, \<open>Sad_Log\<close>: the profiler, both sides, and the invariant
    \<open>log_holds\<close> that the data memory holds the records of the calls.
  \<^item> \<open>Plic\<close>, \<open>Iopmp\<close>, \<open>Soc_Drivers\<close>: \<open>inc/drivers/inc/plic.h\<close>, \<open>inc/iopmp.c\<close>, \<open>inc/utils.c\<close>,
    \<open>inc/llc.c\<close>, \<open>inc/aplic.c\<close>, \<open>inc/drivers/src/\<close>.
  \<^item> \<open>Pmu_Test\<close>, \<open>Pmu_Core_Test\<close>, \<open>Case_Study\<close>: \<open>mempol/pmu_test_func.c\<close>. \<open>Riscv\<close> has the encoders of
    \<open>riscv_encoder_instr.c\<close> and the instructions of the APMU core, RV32IM and the counter instructions that
    the comments of the firmware give the encodings of; programs are the words of the C arrays, decoded and run.
    \<open>Bubble_Sort\<close>, \<open>Pmu_Core_Programs\<close> and \<open>Case_Study_Code\<close>, \<open>Case_Study_Policy\<close>, \<open>Case_Study_Round\<close> run
    the programs; \<open>Pmu_Test_System\<close> joins the core and CVA6. \<open>Wide_Arith\<close> is 64-bit arithmetic in 32-bit
    registers.
  \<^item> \<open>Fat16\<close>: \<open>mempol/fat16.c\<close> and \<open>fat16.h\<close>; \<open>Fat_File\<close>: \<open>mempol/fat_file.c\<close> and the allocator of
    \<open>bare_malloc.c\<close>. The state is the memory, a map from 64-bit addresses to bytes, the heap pointer, and for
    an open file the record \<open>fat_file\<close>. \<open>Fat_Read\<close> follows the chain of clusters of a file into its buffer and the
    reads out of it, \<open>Fat_Create\<close> the tables and the root directory as disjoint ranges of the volume.
  \<^item> \<open>Syscalls\<close>: the memory and string functions of \<open>common/syscalls.c\<close> and \<open>memmove\<close>, as loops over that memory.
  \<^item> \<open>Printing\<close>: \<open>inc/string_lib/src/string_lib.c\<close>, \<open>bare_sprintf\<close>, and \<open>pmu_firmware/common/debug_printf.c\<close>.
    \<open>Print_Numbers\<close> has the division by ten and the common text \<open>show_int\<close> of a number, \<open>Print_Scan\<close> the way back
    through \<open>fat_fscanf\<close>.
  \<^item> \<open>Image_IO\<close>: \<open>readImage.c\<close>, \<open>selfCheck.c\<close> and \<open>iMallocHandle.c\<close> of \<open>mempol/sdvb/common/c/\<close>, the files of the
    benchmark suite that were rewritten for the volume, over \<open>Fat_File\<close> and \<open>bare_sprintf\<close>.
  \<^item> \<open>Evu_Test\<close>: \<open>evu_test/evu_test.c\<close>, over the functions of \<open>Sad_Bench\<close>.
  \<^item> \<open>Mempol_Theorems\<close>, \<open>Sad_Theorems\<close>, \<open>Bringup_Theorems\<close>, \<open>Pmu_Test_Theorems\<close>, \<open>Case_Study_Theorems\<close>,
    \<open>Fat_Theorems\<close>, \<open>Mem_Theorems\<close>, \<open>Print_Theorems\<close>, \<open>Image_Theorems\<close>, \<open>Evu_Theorems\<close>: the
    properties, numbered C1 to C40, each with a witness that applies it to a concrete machine.

  \<^bold>\<open>What the properties show.\<close> Of the regulator: a bound on the traffic of a core over any window of
  iterations, the refinement of the bucket, its cap, that the loop goes on and how long an iteration takes,
  that pausing stays in step with the buckets for every interleaving, what the handlers do, and two defects (stale
  flags at start, a pause command pending at shutdown). Of the profiler: the report is what the firmware
  recorded, every call is counted under a stated condition, the comparison is exact. Of the set-up code: what it
  leaves in the registers. Of the bring-up tests: the suite passes on a core that executes its programs, the machine
  sort refines the C sort, which sorts, and the case-study programs decide as their weights and thresholds say.
  Of the file system: an opened file holds the bytes of its chain of clusters, reads deliver them in order, the
  position stays in the file, and a created file is found again while all other chains stay as they are; which
  pixels an image file gives, and which results the check accepts.
  Of the C library: the copying loops are block operations, the division by shifts is exact, the three
  printing routines agree, and printed numbers are scanned back; where the digit buffer of the firmware's is too
  small. Of the smoke test: its verdict is right for every run of the firmware.

  \<^bold>\<open>Interfaces.\<close> Locales state what a client needs of memory and of the core: for example \<open>sort_memory\<close>
  gives the machine sort the words of its array; each is interpreted on the model's own memories.

  \<^bold>\<open>Bounds.\<close> \<open>rv_reaches hw code n c P\<close> says that the core reaches \<open>P\<close> within \<open>n\<close> instructions, so each
  machine program comes with a count that is enough. In \<open>Pmu_Test_System\<close> the core runs \<open>n\<close> instructions before
  each access of CVA6, for every \<open>n\<close> that lets the polls of the test see the result.

  \<^bold>\<open>Not modelled.\<close> The computations of the image workloads (\<open>sdvb/\<close>, third party, floating point) and their
  mathematics, the floating-point branch of \<open>fat_fscanf\<close> with it; start-up assembly, system calls and the second \<open>printf\<close> of \<open>syscalls.c\<close>, which nothing calls; generated pad tables and
  the register headers of peripherals that no modelled code touches; build scripts. The assembly of the trap entry
  that saves and restores registers is not modelled: the handlers are taken to preserve them.
\<close>

end
